theory Spec2Isabelle
  imports Main
begin

section \<open>The time library used by the booking code\<close>

text \<open>
  The Go sources call the standard \<^verbatim>\<open>time\<close> package (\<^verbatim>\<open>LoadLocation\<close>, \<^verbatim>\<open>In\<close>,
  \<^verbatim>\<open>AddDate\<close>, \<^verbatim>\<open>Date\<close>, \<^verbatim>\<open>Year\<close>/\<^verbatim>\<open>Month\<close>/\<^verbatim>\<open>Day\<close>, \<^verbatim>\<open>Hour\<close>/\<^verbatim>\<open>Minute\<close>,
  \<^verbatim>\<open>Sub\<close>, \<^verbatim>\<open>UTC\<close>).  That package is not part of the repository, so it is modelled here
  along the lines of its implementation: the proleptic Gregorian calendar, a location as
  a list of zone transitions, and \<^verbatim>\<open>time.Date\<close> with its normalisation of out-of-range
  fields and its two-step search for the zone offset.

  An instant is a number of seconds since 1970-01-01T00:00:00Z; fractions of a second
  are not modelled.  The package computes in 64 bits: \<^verbatim>\<open>time.Date\<close> and \<^verbatim>\<open>AddDate\<close> wrap
  around as the package does.  The calendar of an instant (\<^verbatim>\<open>Year\<close>, \<^verbatim>\<open>Month\<close>, \<^verbatim>\<open>Day\<close>,
  \<^verbatim>\<open>Clock\<close>) is that of the package for the years from -292277022399 on, which are all
  the years the package tells.
\<close>

subsection \<open>Integers of 64 bits\<close>

text \<open>The value an \<^verbatim>\<open>int\<close> or \<^verbatim>\<open>int64\<close> holds after an operation whose exact result is \<open>x\<close>.\<close>

definition int64 :: "int \<Rightarrow> int" where
  "int64 x = (x + 9223372036854775808) mod 18446744073709551616 - 9223372036854775808"

subsection \<open>Calendar\<close>

definition isLeap :: "int \<Rightarrow> bool" where
  "isLeap year \<longleftrightarrow> year mod 4 = 0 \<and> (year mod 100 \<noteq> 0 \<or> year mod 400 = 0)"

text \<open>\<^verbatim>\<open>daysBefore[m]\<close>: days in a non-leap year before month \<open>m + 1\<close> starts.\<close>

definition daysBefore :: "int \<Rightarrow> int" where
  "daysBefore m =
     (if m = 0 then 0 else if m = 1 then 31 else if m = 2 then 59 else if m = 3 then 90
      else if m = 4 then 120 else if m = 5 then 151 else if m = 6 then 181
      else if m = 7 then 212 else if m = 8 then 243 else if m = 9 then 273
      else if m = 10 then 304 else if m = 11 then 334 else 365)"

text \<open>Days from 0001-01-01 to the first of January of \<open>year\<close>.\<close>

definition daysBeforeYear :: "int \<Rightarrow> int" where
  "daysBeforeYear year =
     (let y = year - 1 in 365 * y + y div 4 - y div 100 + y div 400)"

text \<open>Days from 0001-01-01 to 1970-01-01.\<close>

definition unixEpochDays :: int where
  "unixEpochDays = 719162"

text \<open>
  The day number (days since 1970-01-01) of a date whose month is in range; the day of
  the month may be any integer, as in \<^verbatim>\<open>time.Date\<close>.
\<close>

definition daysSinceEpoch :: "int \<Rightarrow> int \<Rightarrow> int \<Rightarrow> int" where
  "daysSinceEpoch year month day =
     daysBeforeYear year + daysBefore (month - 1)
       + (if isLeap year \<and> 3 \<le> month then 1 else 0) + (day - 1) - unixEpochDays"

text \<open>
  \<^verbatim>\<open>absDate\<close>: year and day of the year (from 0) of a day number, by cutting off cycles of
  400, 100, 4 and 1 years.
\<close>

definition yearDay :: "int \<Rightarrow> int \<times> int" where
  "yearDay days =
     (let d0 = days + unixEpochDays;
          n400 = d0 div 146097;
          d1 = d0 - 146097 * n400;
          c = d1 div 36524;
          n100 = c - c div 4;
          d2 = d1 - 36524 * n100;
          n4 = d2 div 1461;
          d3 = d2 - 1461 * n4;
          e = d3 div 365;
          n1 = e - e div 4;
          yday = d3 - 365 * n1
      in (400 * n400 + 100 * n100 + 4 * n4 + n1 + 1, yday))"

text \<open>
  Month and day of the month from the day of the year: the leap day is taken out, the
  month is estimated as if every month had 31 days and corrected with \<^verbatim>\<open>daysBefore\<close>.
\<close>

definition monthDay :: "bool \<Rightarrow> int \<Rightarrow> int \<times> int" where
  "monthDay leap yday =
     (if leap \<and> yday = 59 then (2, 29)
      else
        let day = (if leap \<and> 59 < yday then yday - 1 else yday);
            month = day div 31;
            end = daysBefore (month + 1)
        in if end \<le> day then (month + 2, day - end + 1)
           else (month + 1, day - daysBefore month + 1))"

definition civilFromDays :: "int \<Rightarrow> int \<times> int \<times> int" where
  "civilFromDays days =
     (let (year, yday) = yearDay days;
          (month, day) = monthDay (isLeap year) yday
      in (year, month, day))"

subsection \<open>Locations\<close>

text \<open>
  A location is the zone offset (seconds east of UTC) in force before the first
  transition and the list of transitions (instant, new offset) in ascending order.
  \<^verbatim>\<open>lookup\<close> returns the offset in force at an instant and the bounds of the interval
  during which it is in force; \<^verbatim>\<open>alpha\<close> and \<^verbatim>\<open>omega\<close> are the ends of time.
\<close>

record location =
  loc_first :: int
  loc_tx :: "(int \<times> int) list"

definition alpha :: int where
  "alpha = - (2 ^ 63)"

definition omega :: int where
  "omega = 2 ^ 63 - 1"

fun lookupFrom :: "int \<Rightarrow> int \<Rightarrow> (int \<times> int) list \<Rightarrow> int \<Rightarrow> int \<times> int \<times> int" where
  "lookupFrom off start [] sec = (off, start, omega)"
| "lookupFrom off start ((w, off') # tx) sec =
     (if sec < w then (off, start, w) else lookupFrom off' w tx sec)"

definition lookup :: "location \<Rightarrow> int \<Rightarrow> int \<times> int \<times> int" where
  "lookup l sec = lookupFrom (loc_first l) alpha (loc_tx l) sec"

definition zoneOffset :: "location \<Rightarrow> int \<Rightarrow> int" where
  "zoneOffset l sec = fst (lookup l sec)"

definition utcLoc :: location where
  "utcLoc = \<lparr>loc_first = 0, loc_tx = []\<rparr>"

text \<open>
  The zone database of the host is a parameter: \<^verbatim>\<open>time.LoadLocation\<close> fails on a name
  the database does not know.
\<close>

type_synonym tzdb = "string \<Rightarrow> location option"

datatype error =
    ErrUnknownTimeZone string
  | ErrTimeNull
  | ErrNoOffer
  | ErrNoTable
  | ErrImperva
  | ErrNetwork string int string
  | ErrTransport string
  | ErrRecreate
  | ErrMaxRetries
  | ErrOther string

definition LoadLocation :: "tzdb \<Rightarrow> string \<Rightarrow> error + location" where
  "LoadLocation db name =
     (if name = [] \<or> name = ''UTC'' then Inr utcLoc
      else case db name of
             None \<Rightarrow> Inl (ErrUnknownTimeZone name)
           | Some l \<Rightarrow> Inr l)"

subsection \<open>Times\<close>

record time =
  unix :: int
  loc :: location

definition In :: "time \<Rightarrow> location \<Rightarrow> time" where
  "In t l = t\<lparr>loc := l\<rparr>"

definition UTC :: "time \<Rightarrow> time" where
  "UTC t = t\<lparr>loc := utcLoc\<rparr>"

text \<open>Seconds since 1970-01-01T00:00:00 on the wall clock of the time's location.\<close>

definition abs_secs :: "time \<Rightarrow> int" where
  "abs_secs t = unix t + zoneOffset (loc t) (unix t)"

definition Date_of :: "time \<Rightarrow> int \<times> int \<times> int" where
  "Date_of t = civilFromDays (abs_secs t div 86400)"

definition Year :: "time \<Rightarrow> int" where
  "Year t = fst (Date_of t)"

definition Month :: "time \<Rightarrow> int" where
  "Month t = fst (snd (Date_of t))"

definition Day :: "time \<Rightarrow> int" where
  "Day t = snd (snd (Date_of t))"

definition Clock :: "time \<Rightarrow> int \<times> int \<times> int" where
  "Clock t =
     (let s = abs_secs t mod 86400
      in (s div 3600, (s mod 3600) div 60, s mod 60))"

definition Hour :: "time \<Rightarrow> int" where
  "Hour t = fst (Clock t)"

definition Minute :: "time \<Rightarrow> int" where
  "Minute t = fst (snd (Clock t))"

definition Second :: "time \<Rightarrow> int" where
  "Second t = snd (snd (Clock t))"

text \<open>
  \<^verbatim>\<open>norm\<close> moves the excess of \<open>lo\<close> over the range \<open>[0, base)\<close> into \<open>hi\<close>, which may wrap
  around; the new \<open>lo\<close> is in the range.
\<close>

definition norm :: "int \<Rightarrow> int \<Rightarrow> int \<Rightarrow> int \<times> int" where
  "norm hi lo base =
     (let (hi1, lo1) =
            (if lo < 0 then (let n = (- lo - 1) div base + 1 in (int64 (hi - n), lo + n * base))
             else (hi, lo))
      in if base \<le> lo1 then (let n = lo1 div base in (int64 (hi1 + n), lo1 - n * base))
         else (hi1, lo1))"

text \<open>
  The end of \<^verbatim>\<open>time.Date\<close>: the wall-clock reading, of which 64 bits are kept, is first
  looked up as if it were UTC; when the instant this gives lies outside the interval of
  the offset found, the offset in force at that instant is used instead.
\<close>

definition resolveWall :: "location \<Rightarrow> int \<Rightarrow> int" where
  "resolveWall l wall =
     (let unix = int64 wall;
          (offset, start, end) = lookup l unix
      in if offset \<noteq> 0 then
           (let utc = int64 (unix - offset);
                offset' = (if utc < start \<or> end \<le> utc then zoneOffset l utc else offset)
            in int64 (unix - offset'))
         else unix)"

text \<open>
  \<^verbatim>\<open>time.Date\<close>.  The days before the year, the day of the month and the seconds of the
  day are added up in 64 bits without a check; as sums and products modulo \<open>2\<^sup>6\<^sup>4\<close> are
  those of the exact values, the wrap-around is left to \<open>resolveWall\<close>.
\<close>

definition Date :: "int \<Rightarrow> int \<Rightarrow> int \<Rightarrow> int \<Rightarrow> int \<Rightarrow> int \<Rightarrow> location \<Rightarrow> time" where
  "Date year month day hour minute sec l =
     (let (year1, m) = norm year (int64 (month - 1)) 12;
          month1 = m + 1;
          (min1, sec1) = norm minute sec 60;
          (hour1, min2) = norm hour min1 60;
          (day1, hour2) = norm day hour1 24;
          d = daysSinceEpoch year1 month1 day1;
          wall = d * 86400 + hour2 * 3600 + min2 * 60 + sec1
      in \<lparr>unix = resolveWall l wall, loc = l\<rparr>)"

definition AddDate :: "time \<Rightarrow> int \<Rightarrow> int \<Rightarrow> int \<Rightarrow> time" where
  "AddDate t years months days =
     (let (year, month, day) = Date_of t;
          (hour, minute, sec) = Clock t
      in Date (int64 (year + years)) (int64 (month + months)) (int64 (day + days))
           hour minute sec (loc t))"

text \<open>\<^verbatim>\<open>t.Sub(u)\<close>, in seconds.\<close>

definition Sub :: "time \<Rightarrow> time \<Rightarrow> int" where
  "Sub t u = unix t - unix u"

subsection \<open>An excerpt of the zone database\<close>

text \<open>
  The transitions of America/New\_York and America/Los\_Angeles from March 2024 to
  November 2026 (IANA data): daylight saving time starts on the second Sunday of March
  and ends on the first Sunday of November, at 02:00 local time.
\<close>

definition newYork :: location where
  "newYork = \<lparr>loc_first = - 18000,
     loc_tx = [(1710054000, - 14400), (1730613600, - 18000),
               (1741503600, - 14400), (1762063200, - 18000),
               (1772953200, - 14400), (1793512800, - 18000)]\<rparr>"

definition losAngeles :: location where
  "losAngeles = \<lparr>loc_first = - 28800,
     loc_tx = [(1710064800, - 25200), (1730624400, - 28800),
               (1741514400, - 25200), (1762074000, - 28800),
               (1772964000, - 25200), (1793523600, - 28800)]\<rparr>"

definition tzdata :: tzdb where
  "tzdata name =
     (if name = ''America/New_York'' then Some newYork
      else if name = ''America/Los_Angeles'' then Some losAngeles
      else None)"

section \<open>Booking window (store/booking\_window.go)\<close>

record BookingWindow =
  VenueID :: int
  DaysInAdvance :: int
  ReleaseHour :: int
  ReleaseMinute :: int
  Timezone :: string
  ScrapedAt :: int

definition CalculateRunTime :: "tzdb \<Rightarrow> BookingWindow \<Rightarrow> time \<Rightarrow> error + time" where
  "CalculateRunTime db bw reservationTime =
     (case LoadLocation db (Timezone bw) of
        Inl err \<Rightarrow> Inl err
      | Inr l \<Rightarrow>
          let resTimeLocal = In reservationTime l;
              releaseDate = AddDate resTimeLocal 0 0 (int64 (- DaysInAdvance bw));
              runTime = Date (Year releaseDate) (Month releaseDate) (Day releaseDate)
                          (ReleaseHour bw) (ReleaseMinute bw) 0 l
          in Inr (UTC runTime))"

text \<open>
  A wall-clock reading (seconds since 1970-01-01T00:00:00 on the local clock) is resolved
  exactly when the instant \<^verbatim>\<open>time.Date\<close> picks for it shows that reading in the
  location; a reading skipped by a zone transition is not, nor is one that 64 bits do not
  hold.  It is resolved on its day when the instant picked shows a reading of the same
  calendar day.
\<close>

definition representable :: "int \<Rightarrow> bool" where
  "representable x \<longleftrightarrow> alpha \<le> x \<and> x \<le> omega"

definition wallExact :: "location \<Rightarrow> int \<Rightarrow> bool" where
  "wallExact l wall \<longleftrightarrow>
     representable wall \<and> resolveWall l wall + zoneOffset l (resolveWall l wall) = wall"

definition wallSameDay :: "location \<Rightarrow> int \<Rightarrow> bool" where
  "wallSameDay l wall \<longleftrightarrow>
     representable wall
     \<and> (resolveWall l wall + zoneOffset l (resolveWall l wall)) div 86400 = wall div 86400"

text \<open>The day number of the local calendar date of an instant.\<close>

definition localDay :: "location \<Rightarrow> time \<Rightarrow> int" where
  "localDay l t = abs_secs (In t l) div 86400"

text \<open>The booking window and reservation instant of the worked example of the specification.\<close>

definition exampleWindow :: BookingWindow where
  "exampleWindow = \<lparr>VenueID = 89607, DaysInAdvance = 30, ReleaseHour = 9, ReleaseMinute = 0,
     Timezone = ''America/New_York'', ScrapedAt = 0\<rparr>"

definition exampleReservation :: time where
  "exampleReservation = Date 2025 7 31 23 0 0 utcLoc"







section \<open>Strings\<close>

text \<open>
  Go strings are byte sequences, modelled as lists of characters; a text is read as UTF-8.
\<close>

definition HasPrefix :: "string \<Rightarrow> string \<Rightarrow> bool" where
  "HasPrefix s p \<longleftrightarrow> take (length p) s = p"

definition TrimPrefix :: "string \<Rightarrow> string \<Rightarrow> string" where
  "TrimPrefix s p = (if HasPrefix s p then drop (length p) s else s)"

definition isSpace :: "char \<Rightarrow> bool" where
  "isSpace c \<longleftrightarrow> c = CHR '' '' \<or> (9 \<le> (of_char c :: nat) \<and> (of_char c :: nat) \<le> 13)"

text \<open>
  The white space of \<^verbatim>\<open>unicode.IsSpace\<close>, each character in its UTF-8 encoding: tab, line
  feed, vertical tab, form feed, carriage return, space, U+0085, U+00A0, U+1680, U+2000 to
  U+200A, U+2028, U+2029, U+202F, U+205F and U+3000.
\<close>

definition spaceRunes :: "string list" where
  "spaceRunes =
     [[CHR 0x09], [CHR 0x0A], [CHR 0x0B], [CHR 0x0C], [CHR 0x0D], [CHR 0x20],
      [CHR 0xC2, CHR 0x85], [CHR 0xC2, CHR 0xA0], [CHR 0xE1, CHR 0x9A, CHR 0x80],
      [CHR 0xE2, CHR 0x80, CHR 0x80], [CHR 0xE2, CHR 0x80, CHR 0x81],
      [CHR 0xE2, CHR 0x80, CHR 0x82], [CHR 0xE2, CHR 0x80, CHR 0x83],
      [CHR 0xE2, CHR 0x80, CHR 0x84], [CHR 0xE2, CHR 0x80, CHR 0x85],
      [CHR 0xE2, CHR 0x80, CHR 0x86], [CHR 0xE2, CHR 0x80, CHR 0x87],
      [CHR 0xE2, CHR 0x80, CHR 0x88], [CHR 0xE2, CHR 0x80, CHR 0x89],
      [CHR 0xE2, CHR 0x80, CHR 0x8A], [CHR 0xE2, CHR 0x80, CHR 0xA8],
      [CHR 0xE2, CHR 0x80, CHR 0xA9], [CHR 0xE2, CHR 0x80, CHR 0xAF],
      [CHR 0xE2, CHR 0x81, CHR 0x9F], [CHR 0xE3, CHR 0x80, CHR 0x80]]"

text \<open>
  The text without the characters at its start that are among \<open>runes\<close>.  A byte that does
  not start one of them, as every byte of an invalid encoding, ends the search.
\<close>

function trimRunes :: "string list \<Rightarrow> string \<Rightarrow> string" where
  "trimRunes runes s =
     (case find (\<lambda>sp. sp \<noteq> [] \<and> HasPrefix s sp) runes of
        None \<Rightarrow> s
      | Some sp \<Rightarrow> trimRunes runes (drop (length sp) s))"
  by pat_completeness auto
termination
proof (relation "measure (\<lambda>(runes, s). length s)")
  show "wf (measure (\<lambda>(runes, s). length s))" by simp
next
  fix runes :: "string list" and s sp :: string
  assume "find (\<lambda>sp. sp \<noteq> [] \<and> HasPrefix s sp) runes = Some sp"
  then have "sp \<noteq> []" "take (length sp) s = sp"
    by (auto simp: find_Some_iff HasPrefix_def)
  then have "s \<noteq> []" "0 < length sp" by auto
  then show "((runes, drop (length sp) s), (runes, s)) \<in> measure (\<lambda>(runes, s). length s)"
    by simp
qed

declare trimRunes.simps [simp del]

text \<open>
  \<^verbatim>\<open>strings.TrimSpace\<close>: the white space at the start is removed, then that at the end,
  where the last character is found from the last byte backwards.
\<close>

definition TrimSpace :: "string \<Rightarrow> string" where
  "TrimSpace s = rev (trimRunes (map rev spaceRunes) (rev (trimRunes spaceRunes s)))"

definition lowerChar :: "char \<Rightarrow> char" where
  "lowerChar c =
     (if 65 \<le> (of_char c :: nat) \<and> (of_char c :: nat) \<le> 90
      then char_of ((of_char c :: nat) + 32) else c)"

definition isASCII :: "string \<Rightarrow> bool" where
  "isASCII s \<longleftrightarrow> list_all (\<lambda>c. (of_char c :: nat) < 128) s"

text \<open>
  \<^verbatim>\<open>strings.ToLower\<close>: in a text of ASCII characters A to Z become a to z.  Any other text
  goes through \<^verbatim>\<open>strings.Map(unicode.ToLower, s)\<close>, which follows the case tables of the
  Unicode standard and is a parameter here (\<open>unicodeLower\<close>).
\<close>

definition ToLower :: "(string \<Rightarrow> string) \<Rightarrow> string \<Rightarrow> string" where
  "ToLower unicodeLower s = (if isASCII s then map lowerChar s else unicodeLower s)"

text \<open>\<^verbatim>\<open>strings.Split(s, sep)\<close> for a separator of one byte.\<close>

fun Split :: "string \<Rightarrow> char \<Rightarrow> string list" where
  "Split [] sep = [[]]"
| "Split (c # cs) sep =
     (if c = sep then [] # Split cs sep
      else case Split cs sep of
             [] \<Rightarrow> [[c]]
           | x # xs \<Rightarrow> (c # x) # xs)"

text \<open>\<^verbatim>\<open>strings.SplitN(s, sep, 2)\<close> for a separator of one byte.\<close>

definition SplitN2 :: "string \<Rightarrow> char \<Rightarrow> string list" where
  "SplitN2 s sep =
     (if sep \<in> set s
      then [takeWhile (\<lambda>c. c \<noteq> sep) s, tl (dropWhile (\<lambda>c. c \<noteq> sep) s)]
      else [s])"

fun Contains :: "string \<Rightarrow> string \<Rightarrow> bool" where
  "Contains [] sub \<longleftrightarrow> sub = []"
| "Contains (c # cs) sub \<longleftrightarrow> HasPrefix (c # cs) sub \<or> Contains cs sub"

section \<open>The protocol client (package resy)\<close>

subsection \<open>Cookies, requests and responses\<close>

text \<open>
  \<^verbatim>\<open>http.Cookie\<close> with the fields the client sets; \<open>Expires\<close> is \<open>None\<close> for the zero time.
\<close>

record cookie =
  Name :: string
  Value :: string
  Domain :: string
  Path :: string
  Secure :: bool
  HttpOnly :: bool
  Expires :: "int option"

text \<open>
  The header of a response is the list of its header lines, with the keys in the
  canonical form the HTTP library gives them.  \<^verbatim>\<open>Header.Get\<close> returns the first value of
  a key, or the empty string; \<^verbatim>\<open>Header.Values\<close> returns all of them.
\<close>

record response =
  StatusCode :: int
  Header :: "(string \<times> string) list"
  Body :: string

definition Header_Get :: "(string \<times> string) list \<Rightarrow> string \<Rightarrow> string" where
  "Header_Get h k = (case map_of h k of None \<Rightarrow> [] | Some v \<Rightarrow> v)"

definition Header_Values :: "(string \<times> string) list \<Rightarrow> string \<Rightarrow> string list" where
  "Header_Values h k = map snd (filter (\<lambda>kv. fst kv = k) h)"

text \<open>
  Decoded JSON, as \<^verbatim>\<open>json.Unmarshal\<close> gives it for \<^verbatim>\<open>interface{}\<close>.  A number carries
  its conversion to a 64-bit integer, the only way the sources read numbers; an object is
  the list of its members.
\<close>

datatype json =
    JNull
  | JBool bool
  | JNum int
  | JStr string
  | JArr "json list"
  | JObj "(string \<times> json) list"

text \<open>
  The body of a request before serialisation: the value given to \<^verbatim>\<open>json.Marshal\<close>, or the
  fields of a form before \<^verbatim>\<open>url.QueryEscape\<close>.
\<close>

datatype payload = JSONBody json | FormBody "(string \<times> string) list"

text \<open>
  A request: method, URL, header fields set by the caller, the cookies added with
  \<^verbatim>\<open>AddCookie\<close> (name and value, in order) and the body, if any.
\<close>

record request =
  Method :: string
  URL :: string
  ReqHeader :: "(string \<times> string) list"
  ReqCookies :: "(string \<times> string) list"
  ReqBody :: "payload option"

record API =
  APIKey :: string
  Cookies :: "cookie list"
  UserAgent :: string

definition isCodeFail :: "int \<Rightarrow> bool" where
  "isCodeFail code \<longleftrightarrow> code div 100 \<noteq> 2"

definition truncateForLog :: "string \<Rightarrow> nat \<Rightarrow> string" where
  "truncateForLog body mx = (if length body \<le> mx then body else take mx body @ ''...'')"

definition defaultUserAgent :: string where
  "defaultUserAgent = ''Mozilla/5.0 (Macintosh; Intel Mac OS X 10_15_7) AppleWebKit/537.36 (KHTML, like Gecko) Chrome/120.0.0.0 Safari/537.36''"

definition SetCookies :: "API \<Rightarrow> cookie list \<Rightarrow> string \<Rightarrow> API" where
  "SetCookies a cookies userAgent =
     a\<lparr>Cookies := cookies,
       UserAgent := (if userAgent \<noteq> [] then userAgent else defaultUserAgent)\<rparr>"

text \<open>\<^verbatim>\<open>Header.Set\<close> on the fields of a request.\<close>

definition Header_Set :: "(string \<times> string) list \<Rightarrow> string \<Rightarrow> string \<Rightarrow> (string \<times> string) list" where
  "Header_Set h k v = filter (\<lambda>kv. fst kv \<noteq> k) h @ [(k, v)]"

definition addCookiesToRequest :: "API \<Rightarrow> request \<Rightarrow> request" where
  "addCookiesToRequest a req =
     (let req1 = req\<lparr>ReqCookies := ReqCookies req @ map (\<lambda>c. (Name c, Value c)) (Cookies a)\<rparr>
      in if UserAgent a \<noteq> []
         then req1\<lparr>ReqHeader := Header_Set (ReqHeader req1) ''User-Agent'' (UserAgent a)\<rparr>
         else req1)"

text \<open>
  The library functions and the host data the client depends on: the parser of cookie
  expiry dates, the URL parser, the JSON decoder, the zone database, the cookie store
  (\<^verbatim>\<open>store.GetCookies\<close>: cookies and user agent saved for a venue) and the lower-casing
  of a text that is not ASCII.
\<close>

record httpEnv =
  parseRFC1123 :: "string \<Rightarrow> int option"
  validURL :: "string \<Rightarrow> bool"
  Unmarshal :: "string \<Rightarrow> json option"
  zones :: tzdb
  GetCookies :: "int \<Rightarrow> (cookie list \<times> string) option"
  unicodeLower :: "string \<Rightarrow> string"

subsection \<open>Cookies of a challenge response\<close>

definition isImpervaCookieName :: "string \<Rightarrow> bool" where
  "isImpervaCookieName cookieName \<longleftrightarrow>
     HasPrefix cookieName ''_incap_'' \<or>
     HasPrefix cookieName ''incap_ses_'' \<or>
     HasPrefix cookieName ''_visid_'' \<or>
     HasPrefix cookieName ''visid_incap_'' \<or>
     HasPrefix cookieName ''nlbi_''"

text \<open>
  The attributes after the first \<open>;\<close> of a \<^verbatim>\<open>Set-Cookie\<close> value, applied in order.  The
  parser of the expiry date (\<^verbatim>\<open>time.Parse\<close> with \<^verbatim>\<open>time.RFC1123\<close>) is a parameter.
\<close>

definition applyAttribute :: "httpEnv \<Rightarrow> cookie \<Rightarrow> string \<Rightarrow> cookie" where
  "applyAttribute env c raw =
     (let part = TrimSpace raw;
          lower = ToLower (unicodeLower env) part in
      if HasPrefix lower ''domain='' then c\<lparr>Domain := TrimPrefix part ''domain=''\<rparr>
      else if HasPrefix lower ''path='' then c\<lparr>Path := TrimPrefix part ''path=''\<rparr>
      else if lower = ''secure'' then c\<lparr>Secure := True\<rparr>
      else if lower = ''httponly'' then c\<lparr>HttpOnly := True\<rparr>
      else if HasPrefix lower ''expires='' then
        (case parseRFC1123 env (TrimPrefix part ''expires='') of
           Some t \<Rightarrow> c\<lparr>Expires := Some t\<rparr>
         | None \<Rightarrow> c)
      else c)"

text \<open>
  The cookie a \<^verbatim>\<open>Set-Cookie\<close> value yields, if it has the form name=value with the name
  of an Imperva cookie.
\<close>

definition parseSetCookie :: "httpEnv \<Rightarrow> string \<Rightarrow> cookie option" where
  "parseSetCookie env cookieStr =
     (case Split cookieStr CHR '';'' of
        [] \<Rightarrow> None
      | p0 # attrs \<Rightarrow>
          (case SplitN2 p0 CHR ''='' of
             [n, v] \<Rightarrow>
               (let cookieName = TrimSpace n in
                if isImpervaCookieName cookieName
                then Some (foldl (applyAttribute env)
                       \<lparr>Name = cookieName, Value = v, Domain = ''.resy.com'', Path = ''/'',
                        Secure = False, HttpOnly = False, Expires = None\<rparr> attrs)
                else None)
           | _ \<Rightarrow> None))"

text \<open>
  Add or update: the first cookie of the jar with the same name is replaced in place;
  without one the cookie is appended.
\<close>

fun addOrUpdate :: "cookie \<Rightarrow> cookie list \<Rightarrow> cookie list" where
  "addOrUpdate c [] = [c]"
| "addOrUpdate c (x # xs) = (if Name x = Name c then c # xs else x # addOrUpdate c xs)"

definition mergeSetCookie :: "httpEnv \<Rightarrow> cookie list \<Rightarrow> string \<Rightarrow> cookie list" where
  "mergeSetCookie env jar cookieStr =
     (case parseSetCookie env cookieStr of
        None \<Rightarrow> jar
      | Some c \<Rightarrow> addOrUpdate c jar)"

definition extractCookiesFromResponse :: "httpEnv \<Rightarrow> API \<Rightarrow> response \<Rightarrow> API" where
  "extractCookiesFromResponse env a resp =
     (if Header_Get (Header resp) ''X-Cdn'' = ''Imperva'' \<or> Header_Get (Header resp) ''Server'' = ''nginx''
      then a\<lparr>Cookies := foldl (mergeSetCookie env) (Cookies a)
                           (Header_Values (Header resp) ''Set-Cookie'')\<rparr>
      else a)"

definition isImpervaChallenge :: "response \<Rightarrow> bool" where
  "isImpervaChallenge resp \<longleftrightarrow>
     (if StatusCode resp \<noteq> 500 \<and> StatusCode resp \<noteq> 403 \<and> StatusCode resp \<noteq> 503 then False
      else if Header_Get (Header resp) ''X-Cdn'' = ''Imperva'' then True
      else if Header_Get (Header resp) ''Server'' = ''nginx'' \<and> StatusCode resp = 500 then True
      else False)"

subsection \<open>Requests with retry\<close>

text \<open>
  The network is a script: the outcomes of the successive calls of \<^verbatim>\<open>client.Do\<close>, each a
  transport error or a response; a call on an exhausted script is a transport error.
  The trace records what the client does, in order: the requests it sends and the
  seconds it sleeps.
\<close>

datatype event = Sent request | Slept nat

record world =
  script :: "(string + response) list"
  trace :: "event list"

definition client_Do :: "world \<Rightarrow> request \<Rightarrow> (string + response) \<times> world" where
  "client_Do w req =
     (case script w of
        [] \<Rightarrow> (Inl ''no response'', w\<lparr>trace := trace w @ [Sent req]\<rparr>)
      | r # rs \<Rightarrow> (r, w\<lparr>script := rs, trace := trace w @ [Sent req]\<rparr>))"

definition sleep :: "world \<Rightarrow> nat \<Rightarrow> world" where
  "sleep w secs = w\<lparr>trace := trace w @ [Slept secs]\<rparr>"

text \<open>
  \<^verbatim>\<open>http.NewRequest\<close> checks the method and parses the URL; the URL parser is a parameter
  of the model (\<open>validURL\<close>).  A valid method is a non-empty token; the empty method stands
  for GET.
\<close>

definition isTokenChar :: "char \<Rightarrow> bool" where
  "isTokenChar c \<longleftrightarrow>
     (let n = (of_char c :: nat) in
      (48 \<le> n \<and> n \<le> 57) \<or> (65 \<le> n \<and> n \<le> 90) \<or> (97 \<le> n \<and> n \<le> 122) \<or>
      c \<in> set ''!#$%&*+-.^_`|~'' \<or> n = 39)"

definition validMethod :: "string \<Rightarrow> bool" where
  "validMethod m \<longleftrightarrow> m = [] \<or> list_all isTokenChar m"

definition NewRequest :: "(string \<Rightarrow> bool) \<Rightarrow> string \<Rightarrow> string \<Rightarrow> payload option \<Rightarrow> error + request" where
  "NewRequest parsesURL m u body =
     (if \<not> validMethod m then Inl (ErrOther ''invalid method'')
      else if \<not> parsesURL u then Inl (ErrOther ''invalid URL'')
      else Inr \<lparr>Method = (if m = [] then ''GET'' else m), URL = u, ReqHeader = [],
                ReqCookies = [], ReqBody = body\<rparr>)"

text \<open>
  What a replay does before it sends: with a body the request is built again from the
  original method and URL and gets the original header and cookies; the cookies of the
  jar are added; the client sleeps one second.  The first attempt sends the request as
  it is.
\<close>

definition recreate :: "httpEnv \<Rightarrow> request \<Rightarrow> payload option \<Rightarrow> request \<Rightarrow> error + request" where
  "recreate env orig bodyBytes req =
     (case bodyBytes of
        None \<Rightarrow> Inr req
      | Some b \<Rightarrow>
          (case NewRequest (validURL env) (Method orig) (URL orig) (Some b) of
             Inl err \<Rightarrow> Inl ErrRecreate
           | Inr r \<Rightarrow> Inr (r\<lparr>ReqHeader := ReqHeader orig, ReqCookies := ReqCookies orig\<rparr>)))"

definition prepare ::
  "httpEnv \<Rightarrow> request \<Rightarrow> payload option \<Rightarrow> int \<Rightarrow> request \<Rightarrow> API \<Rightarrow> world
     \<Rightarrow> error + request \<times> world" where
  "prepare env orig bodyBytes attempt req a w =
     (if 0 < attempt then
        (case recreate env orig bodyBytes req of
           Inl err \<Rightarrow> Inl err
         | Inr r \<Rightarrow> Inr (addCookiesToRequest a r, sleep w 1))
      else Inr (req, w))"

text \<open>
  The loop of \<open>doRequestWithRetry\<close>, from attempt \<open>attempt\<close> on.  The original header,
  cookies, URL and method are those of the request on entry.
\<close>

function doRequestLoop ::
  "httpEnv \<Rightarrow> request \<Rightarrow> payload option \<Rightarrow> int \<Rightarrow> int \<Rightarrow> bool \<Rightarrow> request \<Rightarrow> API \<Rightarrow> world
     \<Rightarrow> (error + response) \<times> API \<times> world" where
  "doRequestLoop env orig bodyBytes maxRetries attempt lastImpervaResponse req a w =
     (if attempt \<le> maxRetries then
        (case prepare env orig bodyBytes attempt req a w of
           Inl err \<Rightarrow> (Inl err, a, w)
         | Inr (req1, w1) \<Rightarrow>
             (case client_Do w1 req1 of
                (Inl msg, w2) \<Rightarrow> (Inl (ErrTransport msg), a, w2)
              | (Inr resp, w2) \<Rightarrow>
                  if isImpervaChallenge resp then
                    (let a1 = extractCookiesFromResponse env a resp
                     in if attempt < maxRetries
                        then doRequestLoop env orig bodyBytes maxRetries (attempt + 1) True req1 a1 w2
                        else (Inl ErrImperva, a1, w2))
                  else (Inr resp, a, w2)))
      else if lastImpervaResponse then (Inl ErrImperva, a, w)
      else (Inl ErrMaxRetries, a, w))"
  by pat_completeness auto
termination
  by (relation "measure (\<lambda>(env, orig, bodyBytes, maxRetries, attempt, rest). nat (maxRetries + 1 - attempt))")
     auto

definition doRequestWithRetry ::
  "httpEnv \<Rightarrow> API \<Rightarrow> world \<Rightarrow> request \<Rightarrow> payload option \<Rightarrow> int \<Rightarrow> (error + response) \<times> API \<times> world" where
  "doRequestWithRetry env a w req bodyBytes maxRetries =
     doRequestLoop env req bodyBytes maxRetries 0 False req a w"

declare doRequestLoop.simps [simp del]

text \<open>
  The request of a replay: the request rebuilt from the original method, URL, header and
  body when there is a body, else the previous request; with the cookies of the jar added.
\<close>

definition replay :: "httpEnv \<Rightarrow> request \<Rightarrow> payload option \<Rightarrow> request \<Rightarrow> API \<Rightarrow> request" where
  "replay env orig bodyBytes req a =
     addCookiesToRequest a
       (case bodyBytes of
          None \<Rightarrow> req
        | Some b \<Rightarrow> \<lparr>Method = (if Method orig = [] then ''GET'' else Method orig), URL = URL orig,
                     ReqHeader = ReqHeader orig, ReqCookies = ReqCookies orig, ReqBody = Some b\<rparr>)"

subsection \<open>Numbers and dates as text\<close>

function natDigits :: "nat \<Rightarrow> string" where
  "natDigits n =
     (if n < 10 then [char_of (48 + n)]
      else natDigits (n div 10) @ [char_of (48 + n mod 10)])"
  by pat_completeness auto
termination
  by (relation "measure id") auto

text \<open>\<^verbatim>\<open>strconv.Itoa\<close> and \<^verbatim>\<open>strconv.FormatInt(n, 10)\<close>.\<close>

definition Itoa :: "int \<Rightarrow> string" where
  "Itoa n = (if n < 0 then CHR ''-'' # natDigits (nat (- n)) else natDigits (nat n))"

text \<open>\<^verbatim>\<open>fmt.Sprintf("%02d", n)\<close>.\<close>

definition Sprintf02d :: "int \<Rightarrow> string" where
  "Sprintf02d n = (if 0 \<le> n \<and> n < 10 then CHR ''0'' # Itoa n else Itoa n)"

definition isDigit :: "string \<Rightarrow> nat \<Rightarrow> bool" where
  "isDigit s i \<longleftrightarrow> i < length s \<and> 48 \<le> (of_char (s ! i) :: nat) \<and> (of_char (s ! i) :: nat) \<le> 57"

definition digitVal :: "char \<Rightarrow> int" where
  "digitVal c = int (of_char c) - 48"

text \<open>\<^verbatim>\<open>getnum\<close> of package time: one or two digits; two when \<open>fixed\<close>.\<close>

definition getnum :: "string \<Rightarrow> bool \<Rightarrow> (int \<times> string) option" where
  "getnum s fixed =
     (if \<not> isDigit s 0 then None
      else if \<not> isDigit s 1 then (if fixed then None else Some (digitVal (s ! 0), drop 1 s))
      else Some (digitVal (s ! 0) * 10 + digitVal (s ! 1), drop 2 s))"

definition skipChar :: "char \<Rightarrow> string \<Rightarrow> string option" where
  "skipChar c s = (case s of [] \<Rightarrow> None | x # xs \<Rightarrow> if x = c then Some xs else None)"

text \<open>A space of the layout stands for any run of spaces of the value.\<close>

definition skipSpace :: "string \<Rightarrow> string option" where
  "skipSpace s =
     (case s of
        [] \<Rightarrow> Some []
      | x # xs \<Rightarrow> if x \<noteq> CHR '' '' then None else Some (dropWhile (\<lambda>c. c = CHR '' '') s))"

definition daysIn :: "int \<Rightarrow> int \<Rightarrow> int" where
  "daysIn m year = (if m = 2 \<and> isLeap year then 29 else daysBefore m - daysBefore (m - 1))"

text \<open>
  The fields \<^verbatim>\<open>time.Parse\<close> reads with the layout \<^verbatim>\<open>"2006-01-02 15:04:05"\<close>: a year of four
  digits, month, day, minute and second of two digits, an hour of one or two digits, each
  in its range, and nothing after the seconds.  (The one text parsed with this layout
  ends with \<^verbatim>\<open>:00\<close>, so fractional seconds do not arise.)
\<close>

definition parseFields :: "string \<Rightarrow> (int \<times> int \<times> int \<times> int \<times> int \<times> int) option" where
  "parseFields v0 =
     (if length v0 < 4 \<or> \<not> (isDigit v0 0 \<and> isDigit v0 1 \<and> isDigit v0 2 \<and> isDigit v0 3) then None
      else
        let year = digitVal (v0 ! 0) * 1000 + digitVal (v0 ! 1) * 100
                     + digitVal (v0 ! 2) * 10 + digitVal (v0 ! 3)
        in Option.bind (skipChar CHR ''-'' (drop 4 v0)) (\<lambda>v1.
           Option.bind (getnum v1 True) (\<lambda>(month, v2).
           if month \<le> 0 \<or> 12 < month then None else
           Option.bind (skipChar CHR ''-'' v2) (\<lambda>v3.
           Option.bind (getnum v3 True) (\<lambda>(day, v4).
           Option.bind (skipSpace v4) (\<lambda>v5.
           Option.bind (getnum v5 False) (\<lambda>(hour, v6).
           if hour < 0 \<or> 24 \<le> hour then None else
           Option.bind (skipChar CHR '':'' v6) (\<lambda>v7.
           Option.bind (getnum v7 True) (\<lambda>(minute, v8).
           if minute < 0 \<or> 60 \<le> minute then None else
           Option.bind (skipChar CHR '':'' v8) (\<lambda>v9.
           Option.bind (getnum v9 True) (\<lambda>(sec, v10).
           if sec < 0 \<or> 60 \<le> sec then None
           else if v10 \<noteq> [] then None
           else if day < 1 \<or> daysIn month year < day then None
           else Some (year, month, day, hour, minute, sec))))))))))))"

definition ParseInLocation :: "string \<Rightarrow> location \<Rightarrow> time option" where
  "ParseInLocation v l =
     (case parseFields v of
        None \<Rightarrow> None
      | Some (year, month, day, hour, minute, sec) \<Rightarrow> Some (Date year month day hour minute sec l))"

subsection \<open>Reserve\<close>

record LoginResponse =
  AuthToken :: string
  PaymentMethodID :: int

record ReserveParam =
  rp_VenueID :: int
  ReservationTimes :: "time list"
  PartySize :: int
  LoginResp :: LoginResponse
  TableTypes :: "string list"

record ReserveResponse =
  ReservationTime :: time

text \<open>A type assertion to \<^verbatim>\<open>map[string]interface{}\<close>, to \<^verbatim>\<open>string\<close>, to a slice.\<close>

definition asMap :: "json option \<Rightarrow> (string \<times> json) list option" where
  "asMap v = (case v of Some (JObj m) \<Rightarrow> Some m | _ \<Rightarrow> None)"

definition asString :: "json option \<Rightarrow> string option" where
  "asString v = (case v of Some (JStr s) \<Rightarrow> Some s | _ \<Rightarrow> None)"

definition asList :: "json option \<Rightarrow> json list option" where
  "asList v = (case v of Some (JArr xs) \<Rightarrow> Some xs | _ \<Rightarrow> None)"

text \<open>
  \<^verbatim>\<open>json.Unmarshal\<close> into a \<^verbatim>\<open>map[string]interface{}\<close>: an object, or \<^verbatim>\<open>null\<close> for the nil
  map; anything else is an error.
\<close>

definition unmarshalMap :: "httpEnv \<Rightarrow> string \<Rightarrow> (string \<times> json) list option" where
  "unmarshalMap env body =
     (case Unmarshal env body of
        Some (JObj m) \<Rightarrow> Some m
      | Some JNull \<Rightarrow> Some []
      | _ \<Rightarrow> None)"

definition LoadCookiesFromStore :: "httpEnv \<Rightarrow> API \<Rightarrow> int \<Rightarrow> string + API" where
  "LoadCookiesFromStore env a venueID =
     (case GetCookies env venueID of
        None \<Rightarrow> Inl ''cookies not found''
      | Some (cookies, userAgent) \<Rightarrow> Inr (SetCookies a cookies userAgent))"

text \<open>
  The location in which Reserve reads dates and slot times: America/New\_York, or UTC
  when the zone database does not have it.
\<close>

definition nycLocation :: "httpEnv \<Rightarrow> location" where
  "nycLocation env =
     (case LoadLocation (zones env) ''America/New_York'' of
        Inl err \<Rightarrow> utcLoc
      | Inr l \<Rightarrow> l)"

text \<open>The \<^verbatim>\<open>day\<close> parameter: the date of the first requested time in that location.\<close>

definition findDate :: "location \<Rightarrow> time \<Rightarrow> string" where
  "findDate nyc t =
     (let reservationTimeNYC = In t nyc;
          year = Itoa (Year reservationTimeNYC);
          month = Sprintf02d (Month reservationTimeNYC);
          day = Sprintf02d (Day reservationTimeNYC)
      in year @ ''-'' @ month @ ''-'' @ day)"

definition withDefaultUserAgent :: "API \<Rightarrow> request \<Rightarrow> request" where
  "withDefaultUserAgent a req =
     (if UserAgent a = []
      then req\<lparr>ReqHeader := Header_Set (ReqHeader req) ''User-Agent'' defaultUserAgent\<rparr>
      else req)"

definition authorization :: "API \<Rightarrow> string" where
  "authorization a = ''ResyAPI api_key='' @ [CHR 0x22] @ APIKey a @ [CHR 0x22]"

definition findBody :: "ReserveParam \<Rightarrow> string \<Rightarrow> payload" where
  "findBody params date =
     JSONBody (JObj [(''day'', JStr date), (''venue_id'', JNum (rp_VenueID params)),
                     (''party_size'', JNum (PartySize params)), (''lat'', JNum 0),
                     (''long'', JNum 0)])"

definition findRequest :: "httpEnv \<Rightarrow> API \<Rightarrow> ReserveParam \<Rightarrow> string \<Rightarrow> error + request" where
  "findRequest env a params date =
     (case NewRequest (validURL env) ''POST'' ''https://api.resy.com/4/find''
             (Some (findBody params date)) of
        Inl err \<Rightarrow> Inl err
      | Inr request \<Rightarrow>
          Inr (withDefaultUserAgent a (addCookiesToRequest a
            (request\<lparr>ReqHeader :=
               [(''Content-Type'', ''application/json''),
                (''Authorization'', authorization a),
                (''X-Resy-Auth-Token'', AuthToken (LoginResp params)),
                (''X-Resy-Universal-Auth-Token'', AuthToken (LoginResp params)),
                (''Referer'', ''https://resy.com/''),
                (''Origin'', ''https://resy.com'')]\<rparr>))))"

text \<open>The venue of the response with the requested id, if any.\<close>

definition venueHasID :: "int \<Rightarrow> json \<Rightarrow> bool" where
  "venueHasID venueID v =
     (case asMap (Some v) of
        None \<Rightarrow> False
      | Some venue \<Rightarrow>
          (case asMap (map_of venue ''venue'') of
             None \<Rightarrow> False
           | Some venueInfo \<Rightarrow>
               (case asMap (map_of venueInfo ''id'') of
                  None \<Rightarrow> False
                | Some idInfo \<Rightarrow>
                    (case map_of idInfo ''resy'' of
                       Some (JNum resyID) \<Rightarrow> resyID = venueID
                     | _ \<Rightarrow> False))))"

definition selectVenue :: "int \<Rightarrow> json list \<Rightarrow> (string \<times> json) list option" where
  "selectVenue venueID jsonVenuesList =
     (case find (venueHasID venueID) jsonVenuesList of
        Some v \<Rightarrow> asMap (Some v)
      | None \<Rightarrow> asMap (Some (hd jsonVenuesList)))"

subsection \<open>Slot selection\<close>

text \<open>
  The start of a slot as a time in the location of Reserve: the text \<^verbatim>\<open>date.start\<close> must
  have two fields separated by a space, the second one three fields separated by colons;
  the seconds are replaced by \<^verbatim>\<open>00\<close>.
\<close>

definition parseSlotStart :: "location \<Rightarrow> string \<Rightarrow> time option" where
  "parseSlotStart nyc startRaw =
     (case Split startRaw CHR '' '' of
        [dateStr, clock] \<Rightarrow>
          (case Split clock CHR '':'' of
             [hh, mm, ss] \<Rightarrow> ParseInLocation (dateStr @ '' '' @ hh @ '':'' @ mm @ '':00'') nyc
           | _ \<Rightarrow> None)
      | _ \<Rightarrow> None)"

definition slotStart :: "location \<Rightarrow> json \<Rightarrow> time option" where
  "slotStart nyc slot =
     (case asMap (Some slot) of
        None \<Rightarrow> None
      | Some jsonSlotMap \<Rightarrow>
          (case asMap (map_of jsonSlotMap ''date'') of
             None \<Rightarrow> None
           | Some jsonDateMap \<Rightarrow>
               (case asString (map_of jsonDateMap ''start'') of
                  None \<Rightarrow> None
                | Some startRaw \<Rightarrow> parseSlotStart nyc startRaw)))"

definition slotConfig :: "json \<Rightarrow> (string \<times> json) list option" where
  "slotConfig slot =
     (case asMap (Some slot) of
        None \<Rightarrow> None
      | Some jsonSlotMap \<Rightarrow> asMap (map_of jsonSlotMap ''config''))"

definition sameDate :: "time \<Rightarrow> time \<Rightarrow> bool" where
  "sameDate t u \<longleftrightarrow> Year t = Year u \<and> Month t = Month u \<and> Day t = Day u"

definition tableTypeOK :: "httpEnv \<Rightarrow> bool \<Rightarrow> string \<Rightarrow> (string \<times> json) list \<Rightarrow> bool" where
  "tableTypeOK env hasTableTypePreference currentTableType jsonConfigMap \<longleftrightarrow>
     (if hasTableTypePreference
      then (case asString (map_of jsonConfigMap ''type'') of
              None \<Rightarrow> False
            | Some tableType \<Rightarrow>
                Contains (ToLower (unicodeLower env) tableType) currentTableType)
      else True)"

text \<open>
  A slot the loop does not skip: its start parses, it is on the date of the requested
  time, it has a configuration and, with a table preference, a type that contains it.
  The result is the slot time and the configuration.  The start of the slot and the
  requested time are both read in \<^verbatim>\<open>nycLocation\<close>, the location Reserve loads.
\<close>

definition candidate ::
  "httpEnv \<Rightarrow> bool \<Rightarrow> string \<Rightarrow> time \<Rightarrow> json \<Rightarrow> (time \<times> (string \<times> json) list) option" where
  "candidate env hasTableTypePreference currentTableType currentTime slot =
     (case slotStart (nycLocation env) slot of
        None \<Rightarrow> None
      | Some slotTime \<Rightarrow>
          if \<not> sameDate slotTime (In currentTime (nycLocation env)) then None
          else (case slotConfig slot of
                  None \<Rightarrow> None
                | Some jsonConfigMap \<Rightarrow>
                    if tableTypeOK env hasTableTypePreference currentTableType jsonConfigMap
                    then Some (slotTime, jsonConfigMap) else None))"

definition timeMatches :: "time \<Rightarrow> time \<Rightarrow> bool" where
  "timeMatches slotTime currentTimeNYC \<longleftrightarrow>
     Hour slotTime = Hour currentTimeNYC \<and> Minute slotTime = Minute currentTimeNYC"

definition absTimeDiff :: "time \<Rightarrow> time \<Rightarrow> int" where
  "absTimeDiff slotTime currentTimeNYC =
     (let timeDiff = Sub slotTime currentTimeNYC in if timeDiff < 0 then - timeDiff else timeDiff)"

text \<open>Thirty minutes, in seconds.\<close>

definition maxTimeDiff :: int where
  "maxTimeDiff = 30 * 60"

definition zeroTime :: time where
  "zeroTime = \<lparr>unix = - 62135596800, loc = utcLoc\<rparr>"

record best =
  bestSlot :: "json option"
  bestSlotIndex :: int
  bestSlotTime :: time
  bestSlotConfigToken :: string
  bestTimeDiff :: int
  foundExactMatch :: bool

definition initBest :: best where
  "initBest = \<lparr>bestSlot = None, bestSlotIndex = - 1, bestSlotTime = zeroTime,
     bestSlotConfigToken = [], bestTimeDiff = 31 * 60, foundExactMatch = False\<rparr>"

definition withToken :: "(string \<times> json) list \<Rightarrow> string \<Rightarrow> string" where
  "withToken jsonConfigMap old =
     (case asString (map_of jsonConfigMap ''token'') of None \<Rightarrow> old | Some configToken \<Rightarrow> configToken)"

text \<open>The loop over the slots, from index \<open>j\<close> on; an exact match ends it.\<close>

fun scanSlots ::
  "httpEnv \<Rightarrow> bool \<Rightarrow> string \<Rightarrow> time \<Rightarrow> int \<Rightarrow> json list \<Rightarrow> best \<Rightarrow> best" where
  "scanSlots env hasPref tableType currentTime j [] b = b"
| "scanSlots env hasPref tableType currentTime j (slot # rest) b =
     (case candidate env hasPref tableType currentTime slot of
        None \<Rightarrow> scanSlots env hasPref tableType currentTime (j + 1) rest b
      | Some (slotTime, jsonConfigMap) \<Rightarrow>
          if timeMatches slotTime (In currentTime (nycLocation env)) then
            b\<lparr>bestSlot := Some slot, bestSlotIndex := j, bestSlotTime := slotTime,
              bestSlotConfigToken := withToken jsonConfigMap (bestSlotConfigToken b),
              foundExactMatch := True\<rparr>
          else if \<not> foundExactMatch b
                  \<and> absTimeDiff slotTime (In currentTime (nycLocation env)) \<le> maxTimeDiff
                  \<and> absTimeDiff slotTime (In currentTime (nycLocation env)) < bestTimeDiff b then
            scanSlots env hasPref tableType currentTime (j + 1) rest
              (b\<lparr>bestTimeDiff := absTimeDiff slotTime (In currentTime (nycLocation env)),
                 bestSlot := Some slot, bestSlotIndex := j, bestSlotTime := slotTime,
                 bestSlotConfigToken := withToken jsonConfigMap (bestSlotConfigToken b)\<rparr>)
          else scanSlots env hasPref tableType currentTime (j + 1) rest b)"

subsection \<open>Details and booking of the selected slot\<close>

datatype 'a step = Continue | Return 'a

definition bookRequest :: "httpEnv \<Rightarrow> API \<Rightarrow> ReserveParam \<Rightarrow> string \<Rightarrow> (error + request) \<times> payload" where
  "bookRequest env a params bookToken =
     (let body = FormBody
            [(''book_token'', bookToken),
             (''struct_payment_method'',
                ''{'' @ [CHR 0x22] @ ''id'' @ [CHR 0x22] @ '':''
                  @ Itoa (PaymentMethodID (LoginResp params)) @ ''}''),
             (''source_id'', ''resy.com-venue-details'')]
      in (case NewRequest (validURL env) ''POST'' ''https://api.resy.com/3/book'' (Some body) of
            Inl err \<Rightarrow> Inl err
          | Inr requestBook \<Rightarrow>
              Inr (withDefaultUserAgent a (addCookiesToRequest a
                (requestBook\<lparr>ReqHeader :=
                   [(''Authorization'', authorization a),
                    (''Content-Type'', ''application/x-www-form-urlencoded''),
                    (''Host'', ''api.resy.com''),
                    (''X-Resy-Auth-Token'', AuthToken (LoginResp params)),
                    (''X-Resy-Universal-Auth'', AuthToken (LoginResp params)),
                    (''Referer'', ''https://resy.com/'')]\<rparr>))),
          body))"

definition detailRequest :: "httpEnv \<Rightarrow> API \<Rightarrow> ReserveParam \<Rightarrow> string \<Rightarrow> string \<Rightarrow> (error + request) \<times> payload" where
  "detailRequest env a params date configToken =
     (let body = JSONBody (JObj
            [(''commit'', JStr (Itoa 1)), (''config_id'', JStr configToken),
             (''day'', JStr date), (''party_size'', JStr (Itoa (PartySize params)))])
      in (case NewRequest (validURL env) ''POST'' ''https://api.resy.com/3/details'' (Some body) of
            Inl err \<Rightarrow> Inl err
          | Inr requestDetail \<Rightarrow>
              Inr (withDefaultUserAgent a (addCookiesToRequest a
                (requestDetail\<lparr>ReqHeader :=
                   [(''Content-Type'', ''application/json''),
                    (''Authorization'', authorization a)]\<rparr>))),
          body))"

definition selectedToken :: "best \<Rightarrow> string option" where
  "selectedToken b =
     (if bestSlotConfigToken b \<noteq> [] then Some (bestSlotConfigToken b)
      else case bestSlot b of
             None \<Rightarrow> None
           | Some slot \<Rightarrow>
               (case slotConfig slot of
                  None \<Rightarrow> None
                | Some jsonConfigMap \<Rightarrow> asString (map_of jsonConfigMap ''token'')))"

definition bookSlot ::
  "httpEnv \<Rightarrow> ReserveParam \<Rightarrow> string \<Rightarrow> best \<Rightarrow> API \<Rightarrow> world
     \<Rightarrow> (error + ReserveResponse) step \<times> API \<times> world" where
  "bookSlot env params date b a w =
     (case selectedToken b of
        None \<Rightarrow> (Continue, a, w)
      | Some configToken \<Rightarrow>
     (case detailRequest env a params date configToken of
        (Inl err, jsonBody) \<Rightarrow> (Continue, a, w)
      | (Inr requestDetail, jsonBody) \<Rightarrow>
     (case doRequestWithRetry env a w requestDetail (Some jsonBody) 2 of
        (Inl err, a1, w1) \<Rightarrow> (Return (Inl err), a1, w1)
      | (Inr responseDetail, a1, w1) \<Rightarrow>
     if isCodeFail (StatusCode responseDetail) then
       (Return (Inl (ErrNetwork ''detail'' (StatusCode responseDetail)
                       (truncateForLog (Body responseDetail) 200))), a1, w1)
     else
     (case unmarshalMap env (Body responseDetail) of
        None \<Rightarrow> (Return (Inl (ErrOther ''unmarshal'')), a1, w1)
      | Some detailTopLevelMap \<Rightarrow>
     (case asMap (map_of detailTopLevelMap ''book_token'') of
        None \<Rightarrow> (Continue, a1, w1)
      | Some jsonBookTokenMap \<Rightarrow>
     (case asString (map_of jsonBookTokenMap ''value'') of
        None \<Rightarrow> (Continue, a1, w1)
      | Some bookToken \<Rightarrow>
     (case bookRequest env a1 params bookToken of
        (Inl err, requestBookBytes) \<Rightarrow> (Continue, a1, w1)
      | (Inr requestBook, requestBookBytes) \<Rightarrow>
     (case doRequestWithRetry env a1 w1 requestBook (Some requestBookBytes) 2 of
        (Inl err, a2, w2) \<Rightarrow> (Return (Inl err), a2, w2)
      | (Inr responseBook, a2, w2) \<Rightarrow>
     if isCodeFail (StatusCode responseBook) then (Continue, a2, w2)
     else
     (case unmarshalMap env (Body responseBook) of
        None \<Rightarrow> (Continue, a2, w2)
      | Some bookTopLevelMap \<Rightarrow>
          if map_of bookTopLevelMap ''reservation_id'' \<noteq> None
          then (Return (Inr \<lparr>ReservationTime = bestSlotTime b\<rparr>), a2, w2)
          else (Continue, a2, w2))))))))))"

text \<open>The loop over the requested times, for one table type.\<close>

fun timesLoop ::
  "httpEnv \<Rightarrow> ReserveParam \<Rightarrow> string \<Rightarrow> json list \<Rightarrow> bool \<Rightarrow> string \<Rightarrow> time list \<Rightarrow> API \<Rightarrow> world
     \<Rightarrow> (error + ReserveResponse) step \<times> API \<times> world" where
  "timesLoop env params date slots hasPref tableType [] a w = (Continue, a, w)"
| "timesLoop env params date slots hasPref tableType (currentTime # laterTimes) a w =
     (let b = scanSlots env hasPref tableType currentTime 0 slots initBest
      in if 0 \<le> bestSlotIndex b then
           (case bookSlot env params date b a w of
              (Return r, a1, w1) \<Rightarrow> (Return r, a1, w1)
            | (Continue, a1, w1) \<Rightarrow> timesLoop env params date slots hasPref tableType laterTimes a1 w1)
         else timesLoop env params date slots hasPref tableType laterTimes a w)"

text \<open>The loop over the table types.\<close>

fun tablesLoop ::
  "httpEnv \<Rightarrow> ReserveParam \<Rightarrow> string \<Rightarrow> json list \<Rightarrow> bool \<Rightarrow> string list \<Rightarrow> API \<Rightarrow> world
     \<Rightarrow> (error + ReserveResponse) step \<times> API \<times> world" where
  "tablesLoop env params date slots hasPref [] a w = (Continue, a, w)"
| "tablesLoop env params date slots hasPref (tableType # types) a w =
     (case timesLoop env params date slots hasPref tableType (ReservationTimes params) a w of
        (Return r, a1, w1) \<Rightarrow> (Return r, a1, w1)
      | (Continue, a1, w1) \<Rightarrow> tablesLoop env params date slots hasPref types a1 w1)"

text \<open>
  The iterations of the outer loop: the table types, or a single iteration with the empty
  table type when there is no preference.
\<close>

definition tableIterations :: "ReserveParam \<Rightarrow> string list" where
  "tableIterations params = (if TableTypes params \<noteq> [] then TableTypes params else [[]])"

definition reserveSlots ::
  "httpEnv \<Rightarrow> ReserveParam \<Rightarrow> string \<Rightarrow> json list \<Rightarrow> API \<Rightarrow> world
     \<Rightarrow> (error + ReserveResponse) \<times> API \<times> world" where
  "reserveSlots env params date jsonSlotsList a w =
     (case tablesLoop env params date jsonSlotsList (TableTypes params \<noteq> [])
             (tableIterations params) a w of
        (Return r, a1, w1) \<Rightarrow> (r, a1, w1)
      | (Continue, a1, w1) \<Rightarrow> (Inl ErrNoTable, a1, w1))"

definition findErrorMessage :: "httpEnv \<Rightarrow> string \<Rightarrow> string" where
  "findErrorMessage env responseBody =
     (case unmarshalMap env responseBody of
        None \<Rightarrow> truncateForLog responseBody 200
      | Some errorMap \<Rightarrow>
          (case asString (map_of errorMap ''message'') of
             None \<Rightarrow> truncateForLog responseBody 200
           | Some message \<Rightarrow> message))"

text \<open>
  The find stage of Reserve: the request, the answer and the slot list of the venue.
\<close>

definition findSlots ::
  "httpEnv \<Rightarrow> API \<Rightarrow> world \<Rightarrow> ReserveParam \<Rightarrow> string \<Rightarrow> (error + json list) \<times> API \<times> world" where
  "findSlots env a w params date =
     (case findRequest env a params date of
        Inl err \<Rightarrow> (Inl err, a, w)
      | Inr request \<Rightarrow>
     (case doRequestWithRetry env a w request (Some (findBody params date)) 2 of
        (Inl err, a1, w1) \<Rightarrow> (Inl err, a1, w1)
      | (Inr response, a1, w1) \<Rightarrow>
     if isCodeFail (StatusCode response) then
       (Inl (ErrNetwork ''find'' (StatusCode response) (findErrorMessage env (Body response))), a1, w1)
     else
     (case unmarshalMap env (Body response) of
        None \<Rightarrow> (Inl (ErrOther ''unmarshal''), a1, w1)
      | Some jsonTopLevelMap \<Rightarrow>
     (case asMap (map_of jsonTopLevelMap ''results'') of
        None \<Rightarrow> (Inl (ErrNetwork ''find'' 0 ''invalid response: 'results' key not found''), a1, w1)
      | Some jsonResultsMap \<Rightarrow>
     (case asList (map_of jsonResultsMap ''venues'') of
        None \<Rightarrow> (Inl (ErrNetwork ''find'' 0 ''invalid response: 'venues' key not found''), a1, w1)
      | Some jsonVenuesList \<Rightarrow>
     if jsonVenuesList = [] then (Inl ErrNoOffer, a1, w1)
     else
     (case selectVenue (rp_VenueID params) jsonVenuesList of
        None \<Rightarrow> (Inl (ErrNetwork ''find'' 0 ''invalid response: venue structure is invalid''), a1, w1)
      | Some jsonVenueMap \<Rightarrow>
     (case asList (map_of jsonVenueMap ''slots'') of
        None \<Rightarrow> (Inl (ErrNetwork ''find'' 0 ''invalid response: 'slots' key not found in venue''), a1, w1)
      | Some jsonSlotsList \<Rightarrow> (Inr jsonSlotsList, a1, w1))))))))"

text \<open>The client after the attempt to load the stored cookies of the venue.\<close>

definition withStoredCookies :: "httpEnv \<Rightarrow> API \<Rightarrow> ReserveParam \<Rightarrow> API" where
  "withStoredCookies env a0 params =
     (case LoadCookiesFromStore env a0 (rp_VenueID params) of
        Inl err \<Rightarrow> a0
      | Inr a \<Rightarrow> a)"

definition Reserve ::
  "httpEnv \<Rightarrow> API \<Rightarrow> world \<Rightarrow> ReserveParam \<Rightarrow> (error + ReserveResponse) \<times> API \<times> world" where
  "Reserve env a0 w params =
     (if ReservationTimes params = [] then (Inl ErrTimeNull, a0, w)
      else
        let a = withStoredCookies env a0 params;
            date = findDate (nycLocation env) (hd (ReservationTimes params))
        in (case findSlots env a w params date of
              (Inl err, a1, w1) \<Rightarrow> (Inl err, a1, w1)
            | (Inr jsonSlotsList, a1, w1) \<Rightarrow> reserveSlots env params date jsonSlotsList a1 w1))"

subsection \<open>Example values\<close>

definition isSent :: "event \<Rightarrow> bool" where
  "isSent e = (case e of Sent req \<Rightarrow> True | Slept secs \<Rightarrow> False)"

text \<open>
  A host with the zone database excerpt, no stored cookies, a URL parser that accepts
  https URLs and a JSON decoder that knows the empty object only.
\<close>

definition exampleEnv :: httpEnv where
  "exampleEnv = \<lparr>parseRFC1123 = (\<lambda>s. None), validURL = (\<lambda>u. HasPrefix u ''https://''),
     Unmarshal = (\<lambda>s. if s = ''{}'' then Some (JObj []) else None),
     zones = tzdata, GetCookies = (\<lambda>venueID. None), unicodeLower = (\<lambda>s. s)\<rparr>"

definition exampleAPI :: API where
  "exampleAPI = \<lparr>APIKey = ''key'', Cookies = [], UserAgent = []\<rparr>"

text \<open>The challenge of the fourth scenario of the specification, and a plain answer.\<close>

definition challenge503 :: response where
  "challenge503 = \<lparr>StatusCode = 503,
     Header = [(''X-Cdn'', ''Imperva''), (''Set-Cookie'', ''_incap_ses_123=abc; Path=/'')],
     Body = []\<rparr>"

definition ok200 :: response where
  "ok200 = \<lparr>StatusCode = 200, Header = [(''Content-Type'', ''application/json'')], Body = ''{}''\<rparr>"

definition exampleRequest :: request where
  "exampleRequest = \<lparr>Method = ''POST'', URL = ''https://api.resy.com/4/find'',
     ReqHeader = [(''Content-Type'', ''application/json'')], ReqCookies = [],
     ReqBody = Some (JSONBody (JObj []))\<rparr>"

definition blockedWorld :: world where
  "blockedWorld = \<lparr>script = [Inr challenge503, Inr challenge503, Inr challenge503, Inr ok200],
     trace = []\<rparr>"

definition recoveringWorld :: world where
  "recoveringWorld = \<lparr>script = [Inr challenge503, Inr ok200], trace = []\<rparr>"

text \<open>
  The name of the cookie a \<^verbatim>\<open>Set-Cookie\<close> value sets: what stands before the first \<open>=\<close> of
  its first \<open>;\<close>-separated part, without surrounding space; a value without \<open>=\<close> sets none.
\<close>

definition setCookieName :: "string \<Rightarrow> string option" where
  "setCookieName cookieStr =
     (case SplitN2 (hd (Split cookieStr CHR '';'')) CHR ''='' of
        [n, v] \<Rightarrow> Some (TrimSpace n)
      | _ \<Rightarrow> None)"

text \<open>
  The value a \<^verbatim>\<open>Set-Cookie\<close> value gives to its cookie: what stands between the first \<open>=\<close> and
  the first \<open>;\<close>.
\<close>

definition setCookieValue :: "string \<Rightarrow> string" where
  "setCookieValue cookieStr =
     tl (dropWhile (\<lambda>c. c \<noteq> CHR ''='') (takeWhile (\<lambda>c. c \<noteq> CHR '';'') cookieStr))"

text \<open>The \<^verbatim>\<open>Set-Cookie\<close> values of a response that give a cookie of the name \<open>n\<close>.\<close>

definition valuesFor :: "string \<Rightarrow> response \<Rightarrow> string list" where
  "valuesFor n resp =
     filter (\<lambda>v. setCookieName v = Some n) (Header_Values (Header resp) ''Set-Cookie'')"

text \<open>The prefixes of WAF cookie names the specification lists.\<close>

definition recognizedPrefixes :: "string list" where
  "recognizedPrefixes = [''_incap_'', ''incap_ses_'', ''_visid_'', ''visid_incap_'', ''nlbi_'']"

definition recognized :: "string \<Rightarrow> bool" where
  "recognized n \<longleftrightarrow> (\<exists>p \<in> set recognizedPrefixes. HasPrefix n p)"

text \<open>The cookies a response sets, in order, as the client reads them.\<close>

definition setCookies :: "httpEnv \<Rightarrow> response \<Rightarrow> cookie list" where
  "setCookies env resp =
     List.map_filter (parseSetCookie env) (Header_Values (Header resp) ''Set-Cookie'')"

definition staleJar :: "cookie list" where
  "staleJar =
     [\<lparr>Name = ''session'', Value = ''s1'', Domain = ''.resy.com'', Path = ''/'',
        Secure = False, HttpOnly = False, Expires = None\<rparr>,
      \<lparr>Name = ''_incap_ses_123'', Value = ''old'', Domain = ''.resy.com'', Path = ''/'',
        Secure = False, HttpOnly = False, Expires = None\<rparr>]"

definition mixedChallenge :: response where
  "mixedChallenge = \<lparr>StatusCode = 403,
     Header = [(''X-Cdn'', ''Imperva''), (''Set-Cookie'', ''_incap_ses_123=abc; Path=/''),
               (''Set-Cookie'', ''tracking=xyz; Path=/''), (''Set-Cookie'', ''nlbi_77=q; Secure'')],
     Body = []\<rparr>"

definition staleAPI :: API where
  "staleAPI = \<lparr>APIKey = ''key'', Cookies = staleJar, UserAgent = []\<rparr>"

text \<open>A challenge whose cookie name follows a no-break space (U+00A0).\<close>

definition paddedChallenge :: response where
  "paddedChallenge = \<lparr>StatusCode = 403,
     Header = [(''X-Cdn'', ''Imperva''),
               (''Set-Cookie'', [CHR 0xC2, CHR 0xA0] @ ''_incap_x=v; Path=/'')],
     Body = []\<rparr>"

declare natDigits.simps [simp del]

text \<open>The \<^verbatim>\<open>day\<close> member of the JSON body of a request, and of the request of an event.\<close>

definition dayParam :: "request \<Rightarrow> string option" where
  "dayParam req =
     (case ReqBody req of
        Some (JSONBody (JObj m)) \<Rightarrow> asString (map_of m ''day'')
      | _ \<Rightarrow> None)"

definition eventDay :: "event \<Rightarrow> string option" where
  "eventDay e = (case e of Sent req \<Rightarrow> dayParam req | Slept secs \<Rightarrow> None)"

text \<open>A calendar date as year, month of two digits and day of two digits.\<close>

definition dateText :: "int \<times> int \<times> int \<Rightarrow> string" where
  "dateText ymd =
     (case ymd of (y, m, d) \<Rightarrow> Itoa y @ ''-'' @ Sprintf02d m @ ''-'' @ Sprintf02d d)"

text \<open>
  The \<^verbatim>\<open>day\<close> parameter as the specification words it: the local date of the requested
  instant in the zone of the venue.
\<close>

definition venueLocalDay :: "location \<Rightarrow> time \<Rightarrow> string" where
  "venueLocalDay venueLoc t = dateText (Date_of (In t venueLoc))"

text \<open>
  A venue on the west coast: its booking window names America/Los\_Angeles.  The
  reservation instant 2025-07-01T05:00Z is 22:00 of 30 June there, 01:00 of 1 July in
  New York.
\<close>

definition westWindow :: BookingWindow where
  "westWindow = \<lparr>VenueID = 4242, DaysInAdvance = 14, ReleaseHour = 9, ReleaseMinute = 0,
     Timezone = ''America/Los_Angeles'', ScrapedAt = 0\<rparr>"

definition westParams :: ReserveParam where
  "westParams = \<lparr>rp_VenueID = VenueID westWindow,
     ReservationTimes = [Date 2025 7 1 5 0 0 utcLoc], PartySize = 2,
     LoginResp = \<lparr>AuthToken = ''token'', PaymentMethodID = 7\<rparr>, TableTypes = []\<rparr>"

definition silentWorld :: world where
  "silentWorld = \<lparr>script = [], trace = []\<rparr>"

text \<open>A world reached from another by further events.\<close>

definition extends :: "world \<Rightarrow> world \<Rightarrow> bool" where
  "extends w w' \<longleftrightarrow> (\<exists>evs. trace w' = trace w @ evs)"

subsection \<open>Notions for the selection of a slot\<close>




















section \<open>The fallback parser of the venue page (imperva/venue\_scraper.go)\<close>

text \<open>
  \<^verbatim>\<open>strconv.Atoi\<close> and \<^verbatim>\<open>strconv.ParseInt(s, 10, 64)\<close>: the value and whether the text is a
  decimal number of 64 bits.  A text that is not a number gives 0, a number out of range
  the nearest bound.
\<close>

definition isDigitChar :: "char \<Rightarrow> bool" where
  "isDigitChar c \<longleftrightarrow> 48 \<le> (of_char c :: nat) \<and> (of_char c :: nat) \<le> 57"

definition digitsValue :: "string \<Rightarrow> int" where
  "digitsValue ds = foldl (\<lambda>n c. 10 * n + digitVal c) 0 ds"

definition Atoi :: "string \<Rightarrow> int \<times> bool" where
  "Atoi s =
     (let neg = (s \<noteq> [] \<and> hd s = CHR ''-'');
          ds = (if s \<noteq> [] \<and> (hd s = CHR ''-'' \<or> hd s = CHR ''+'') then tl s else s)
      in if ds = [] \<or> \<not> list_all isDigitChar ds then (0, False)
         else let v = (if neg then - digitsValue ds else digitsValue ds)
              in if 2 ^ 63 - 1 < v then (2 ^ 63 - 1, False)
                 else if v < - (2 ^ 63) then (- (2 ^ 63), False)
                 else (v, True))"

text \<open>The backslash, which a string literal cannot hold.\<close>

definition bs :: string where
  "bs = [CHR 0x5C]"

definition daysPatterns :: "string list" where
  "daysPatterns =
     [''('' @ bs @ ''d+)'' @ bs @ ''s*days?'' @ bs @ ''s*in'' @ bs @ ''s*advance'',
      ''book'' @ bs @ ''s*(?:up'' @ bs @ ''s*to'' @ bs @ ''s*)?('' @ bs @ ''d+)'' @ bs @ ''s*days?'',
      ''('' @ bs @ ''d+)'' @ bs @ ''s*day'' @ bs @ ''s*booking'' @ bs @ ''s*window'',
      ''reservations?'' @ bs @ ''s*(?:open|available)'' @ bs @ ''s*('' @ bs @ ''d+)'' @ bs @ ''s*days?'']"

definition timePatterns :: "string list" where
  "timePatterns =
     [''(?:open|released?|available)'' @ bs @ ''s*(?:at|@)'' @ bs @ ''s*('' @ bs @ ''d{1,2}):?(''
        @ bs @ ''d{2})?'' @ bs @ ''s*(am|pm)?'',
      ''('' @ bs @ ''d{1,2}):?('' @ bs @ ''d{2})?'' @ bs @ ''s*(am|pm)'' @ bs
        @ ''s*(?:daily|every'' @ bs @ ''s*day)'']"

text \<open>
  The regular expression library is a parameter: \<open>rx pattern text\<close> stands for
  \<^verbatim>\<open>regexp.MustCompile(pattern).FindStringSubmatch(text)\<close>, the empty list for no match.
\<close>

type_synonym regexp = "string \<Rightarrow> string \<Rightarrow> string list"

text \<open>The first loop: the first pattern that gives a number of days in 1..365.\<close>

fun daysLoop :: "regexp \<Rightarrow> string \<Rightarrow> string list \<Rightarrow> BookingWindow \<Rightarrow> BookingWindow" where
  "daysLoop rx htmlLower [] bw = bw"
| "daysLoop rx htmlLower (pattern # patterns) bw =
     (let matches = rx pattern htmlLower
      in if 2 \<le> length matches then
           (let (days, ok) = Atoi (matches ! 1)
            in if ok \<and> 0 < days \<and> days \<le> 365 then bw\<lparr>DaysInAdvance := days\<rparr>
               else daysLoop rx htmlLower patterns bw)
         else daysLoop rx htmlLower patterns bw)"

text \<open>Hour and minute of a match of a release-time pattern.\<close>

definition releaseOfMatch :: "string list \<Rightarrow> int \<times> int" where
  "releaseOfMatch matches =
     (let hour = fst (Atoi (matches ! 1));
          minute = (if 3 \<le> length matches \<and> matches ! 2 \<noteq> [] then fst (Atoi (matches ! 2)) else 0);
          isPM = (4 \<le> length matches \<and> matches ! 3 = ''pm'')
      in if isPM \<and> hour \<noteq> 12 then (hour + 12, minute)
         else if \<not> isPM \<and> Contains (matches ! 0) ''am'' \<and> hour = 12 then (0, minute)
         else (hour, minute))"

text \<open>The second loop: the first release-time pattern that matches sets hour and minute.\<close>

fun timeLoop :: "regexp \<Rightarrow> string \<Rightarrow> string list \<Rightarrow> BookingWindow \<Rightarrow> BookingWindow" where
  "timeLoop rx htmlLower [] bw = bw"
| "timeLoop rx htmlLower (pattern # patterns) bw =
     (let matches = rx pattern htmlLower
      in if 2 \<le> length matches then
           (let (hour, minute) = releaseOfMatch matches
            in bw\<lparr>ReleaseHour := hour, ReleaseMinute := minute\<rparr>)
         else timeLoop rx htmlLower patterns bw)"

definition parseHTMLContent ::
  "regexp \<Rightarrow> (string \<Rightarrow> string) \<Rightarrow> int \<Rightarrow> int \<Rightarrow> string \<Rightarrow> error + BookingWindow" where
  "parseHTMLContent rx low now venueID html =
     (let bw = \<lparr>VenueID = venueID, DaysInAdvance = 0, ReleaseHour = 9, ReleaseMinute = 0,
                Timezone = ''America/New_York'', ScrapedAt = now\<rparr>;
          htmlLower = ToLower low html;
          bw1 = daysLoop rx htmlLower daysPatterns bw;
          bw2 = timeLoop rx htmlLower timePatterns bw1
      in if DaysInAdvance bw2 = 0
         then Inl (ErrOther ''could not find booking window days in page content'')
         else Inr bw2)"

text \<open>
  A page gives a number of days when one of the patterns for the days matches with a
  number in 1..365, and no release time when none of the patterns for the time matches.
\<close>

definition givesDays :: "regexp \<Rightarrow> (string \<Rightarrow> string) \<Rightarrow> string \<Rightarrow> bool" where
  "givesDays rx low html \<longleftrightarrow>
     list_ex (\<lambda>pattern. 2 \<le> length (rx pattern (ToLower low html))
                \<and> snd (Atoi (rx pattern (ToLower low html) ! 1))
                \<and> 0 < fst (Atoi (rx pattern (ToLower low html) ! 1))
                \<and> fst (Atoi (rx pattern (ToLower low html) ! 1)) \<le> 365) daysPatterns"

definition givesNoTime :: "regexp \<Rightarrow> (string \<Rightarrow> string) \<Rightarrow> string \<Rightarrow> bool" where
  "givesNoTime rx low html \<longleftrightarrow>
     list_all (\<lambda>pattern. length (rx pattern (ToLower low html)) < 2) timePatterns"

text \<open>
  An engine that knows one page: on ``book up to 30 days in advance'' the first pattern
  for the days matches, nothing else does.
\<close>

definition pageFind :: regexp where
  "pageFind pattern text =
     (if pattern = hd daysPatterns \<and> text = ''book up to 30 days in advance''
      then [''30 days in advance'', ''30''] else [])"

definition pageWindow :: BookingWindow where
  "pageWindow = \<lparr>VenueID = 89607, DaysInAdvance = 30, ReleaseHour = 9, ReleaseMinute = 0,
     Timezone = ''America/New_York'', ScrapedAt = 0\<rparr>"

section \<open>The credential vault (store/crypto.go)\<close>

subsection \<open>Base64, standard alphabet with padding\<close>

type_synonym bytes = string

definition encodeStd :: string where
  "encodeStd = ''ABCDEFGHIJKLMNOPQRSTUVWXYZabcdefghijklmnopqrstuvwxyz0123456789+/''"

definition padChar :: char where
  "padChar = CHR ''=''"

definition encodeChar :: "nat \<Rightarrow> char" where
  "encodeChar n = encodeStd ! n"

definition decodeChar :: "char \<Rightarrow> nat option" where
  "decodeChar c = map_of (zip encodeStd [0..<64]) c"

text \<open>
  \<^verbatim>\<open>base64.StdEncoding.EncodeToString\<close>: the 24 bits of three bytes give four characters
  of six bits each; a rest of one or two bytes is filled up with zero bits and padded to
  four characters.
\<close>

fun EncodeToString :: "bytes \<Rightarrow> string" where
  "EncodeToString (a # b # c # rest) =
     (let x = of_char a; y = of_char b; z = of_char c
      in encodeChar (x div 4) # encodeChar (x mod 4 * 16 + y div 16)
           # encodeChar (y mod 16 * 4 + z div 64) # encodeChar (z mod 64) # EncodeToString rest)"
| "EncodeToString [a, b] =
     (let x = of_char a; y = of_char b
      in [encodeChar (x div 4), encodeChar (x mod 4 * 16 + y div 16),
          encodeChar (y mod 16 * 4), padChar])"
| "EncodeToString [a] =
     (let x = of_char a
      in [encodeChar (x div 4), encodeChar (x mod 4 * 16), padChar, padChar])"
| "EncodeToString [] = []"

text \<open>
  \<^verbatim>\<open>base64.StdEncoding.DecodeString\<close>: carriage returns and line feeds are skipped; the rest
  is read in groups of four characters, of which only the last may end in one or two
  padding characters.  The bits a padded group has in excess are not checked (the encoding
  is not strict).  Every other input is corrupt.
\<close>

fun decodeQuanta :: "string \<Rightarrow> bytes option" where
  "decodeQuanta [] = Some []"
| "decodeQuanta (w # x # y # z # rest) =
     (if rest = [] \<and> z = padChar
      then (if y = padChar
            then (case (decodeChar w, decodeChar x) of
                    (Some p, Some q) \<Rightarrow> Some [char_of (p * 4 + q div 16)]
                  | _ \<Rightarrow> None)
            else (case (decodeChar w, decodeChar x, decodeChar y) of
                    (Some p, Some q, Some r) \<Rightarrow>
                      Some [char_of (p * 4 + q div 16), char_of (q mod 16 * 16 + r div 4)]
                  | _ \<Rightarrow> None))
      else (case (decodeChar w, decodeChar x, decodeChar y, decodeChar z) of
              (Some p, Some q, Some r, Some s) \<Rightarrow>
                map_option
                  (\<lambda>out. char_of (p * 4 + q div 16) # char_of (q mod 16 * 16 + r div 4)
                           # char_of (r mod 4 * 64 + s) # out)
                  (decodeQuanta rest)
            | _ \<Rightarrow> None))"
| "decodeQuanta _ = None"

definition DecodeString :: "string \<Rightarrow> error + bytes" where
  "DecodeString s =
     (case decodeQuanta (filter (\<lambda>c. c \<noteq> CHR 0x0D \<and> c \<noteq> CHR 0x0A) s) of
        None \<Rightarrow> Inl (ErrOther ''illegal base64 data'')
      | Some out \<Rightarrow> Inr out)"

subsection \<open>AES in Galois/counter mode\<close>

text \<open>
  The block cipher and the hash of the authentication tag are parameters: \<open>keystream\<close>
  gives the byte of the counter-mode key stream at a position, \<open>authTag\<close> the byte of
  the tag of a ciphertext at a position, both for a key and a nonce.
\<close>

record primitives =
  keystream :: "bytes \<Rightarrow> bytes \<Rightarrow> nat \<Rightarrow> char"
  authTag :: "bytes \<Rightarrow> bytes \<Rightarrow> bytes \<Rightarrow> nat \<Rightarrow> char"

text \<open>\<^verbatim>\<open>aes.NewCipher\<close>: the key has 16, 24 or 32 bytes.\<close>

definition NewCipher :: "bytes \<Rightarrow> error + bytes" where
  "NewCipher key =
     (if length key = 16 \<or> length key = 24 \<or> length key = 32 then Inr key
      else Inl (ErrOther (''crypto/aes: invalid key size '' @ Itoa (int (length key)))))"

definition NonceSize :: nat where
  "NonceSize = 12"

definition tagSize :: nat where
  "tagSize = 16"

text \<open>The longest plaintext of one message, \<open>(2\<^sup>3\<^sup>2 - 2) * 16\<close> bytes.\<close>

definition maxPlaintext :: int where
  "maxPlaintext = 68719476704"

fun xorByte :: "char \<Rightarrow> char \<Rightarrow> char" where
  "xorByte (Char a0 a1 a2 a3 a4 a5 a6 a7) (Char b0 b1 b2 b3 b4 b5 b6 b7) =
     Char (a0 \<noteq> b0) (a1 \<noteq> b1) (a2 \<noteq> b2) (a3 \<noteq> b3) (a4 \<noteq> b4) (a5 \<noteq> b5) (a6 \<noteq> b6) (a7 \<noteq> b7)"

definition xorKeyStream :: "primitives \<Rightarrow> bytes \<Rightarrow> bytes \<Rightarrow> bytes \<Rightarrow> bytes" where
  "xorKeyStream P key nonce src =
     map (\<lambda>(i, c). xorByte c (keystream P key nonce i)) (zip [0..<length src] src)"

definition tagOf :: "primitives \<Rightarrow> bytes \<Rightarrow> bytes \<Rightarrow> bytes \<Rightarrow> bytes" where
  "tagOf P key nonce ciphertext = map (authTag P key nonce ciphertext) [0..<tagSize]"

text \<open>
  \<^verbatim>\<open>gcm.Seal(nil, nonce, plaintext, nil)\<close>: the encrypted text followed by its tag.  A
  nonce of another size than \<open>NonceSize\<close> and a plaintext that is too long make it panic.
\<close>

definition Seal :: "primitives \<Rightarrow> bytes \<Rightarrow> bytes \<Rightarrow> bytes \<Rightarrow> error + bytes" where
  "Seal P key nonce plaintext =
     (if length nonce \<noteq> NonceSize
      then Inl (ErrOther ''crypto/cipher: incorrect nonce length given to GCM'')
      else if maxPlaintext < int (length plaintext)
      then Inl (ErrOther ''crypto/cipher: message too large for GCM'')
      else let out = xorKeyStream P key nonce plaintext
           in Inr (out @ tagOf P key nonce out))"

text \<open>\<^verbatim>\<open>gcm.Open(nil, nonce, ciphertext, nil)\<close>: the tag is checked before the text is decrypted.\<close>

definition Open :: "primitives \<Rightarrow> bytes \<Rightarrow> bytes \<Rightarrow> bytes \<Rightarrow> error + bytes" where
  "Open P key nonce ciphertext =
     (if length nonce \<noteq> NonceSize
      then Inl (ErrOther ''crypto/cipher: incorrect nonce length given to GCM'')
      else if length ciphertext < tagSize \<or> maxPlaintext + int tagSize < int (length ciphertext)
      then Inl (ErrOther ''cipher: message authentication failed'')
      else let tag = drop (length ciphertext - tagSize) ciphertext;
               body = take (length ciphertext - tagSize) ciphertext
           in if tagOf P key nonce body \<noteq> tag
              then Inl (ErrOther ''cipher: message authentication failed'')
              else Inr (xorKeyStream P key nonce body))"

text \<open>
  \<^verbatim>\<open>io.ReadFull(rand.Reader, buf)\<close>: the random source fails, or has some bytes to give, of
  which the first \<open>n\<close> fill the buffer.
\<close>

definition ReadFull :: "error + bytes \<Rightarrow> nat \<Rightarrow> error + bytes" where
  "ReadFull reader n =
     (case reader of
        Inl err \<Rightarrow> Inl err
      | Inr available \<Rightarrow>
          if n \<le> length available then Inr (take n available)
          else if available = [] then Inl (ErrOther ''EOF'')
          else Inl (ErrOther ''unexpected EOF''))"

subsection \<open>encryptString and decryptString\<close>

definition resyCredentialsEncryptionPrefix :: string where
  "resyCredentialsEncryptionPrefix = ''v1:''"

definition errEncryptionPrefixMissing :: error where
  "errEncryptionPrefixMissing = ErrOther ''encrypted value missing prefix''"

definition hasEncryptionPrefix :: "string \<Rightarrow> bool" where
  "hasEncryptionPrefix val \<longleftrightarrow> HasPrefix val resyCredentialsEncryptionPrefix"

text \<open>
  \<^verbatim>\<open>cipher.NewGCM\<close> fails only for a block cipher whose blocks are not of 16 bytes, which
  AES is not; it has no branch here.
\<close>

definition encryptString :: "primitives \<Rightarrow> error + bytes \<Rightarrow> string \<Rightarrow> bytes \<Rightarrow> error + string" where
  "encryptString P reader plaintext key =
     (case NewCipher key of
        Inl err \<Rightarrow> Inl err
      | Inr block \<Rightarrow>
          (case ReadFull reader NonceSize of
             Inl err \<Rightarrow> Inl err
           | Inr nonce \<Rightarrow>
               (case Seal P block nonce plaintext of
                  Inl err \<Rightarrow> Inl err
                | Inr ciphertext \<Rightarrow>
                    Inr (resyCredentialsEncryptionPrefix @ EncodeToString (nonce @ ciphertext)))))"

definition decryptString :: "primitives \<Rightarrow> string \<Rightarrow> bytes \<Rightarrow> error + string" where
  "decryptString P val key =
     (if \<not> hasEncryptionPrefix val then Inl errEncryptionPrefixMissing
      else (case DecodeString (TrimPrefix val resyCredentialsEncryptionPrefix) of
              Inl err \<Rightarrow> Inl err
            | Inr raw \<Rightarrow>
                (case NewCipher key of
                   Inl err \<Rightarrow> Inl err
                 | Inr block \<Rightarrow>
                     if length raw < NonceSize then Inl (ErrOther ''ciphertext too short'')
                     else Open P block (take NonceSize raw) (drop NonceSize raw))))"

text \<open>A cipher to run the definitions on, a key of 32 bytes and twelve bytes of the random source.\<close>

definition toyCipher :: primitives where
  "toyCipher = \<lparr>keystream = (\<lambda>key nonce i. key ! (i mod length key)),
                authTag = (\<lambda>key nonce ciphertext i. xorByte (key ! i) (nonce ! (i mod length nonce)))\<rparr>"

definition testKey :: bytes where
  "testKey = ''0123456789abcdef0123456789abcdef''"

definition testReader :: "error + bytes" where
  "testReader = Inr ''nonce-of-12-bytes-and-more''"

section \<open>The stored credentials (store/resy\_credentials.go)\<close>

record ResyCredentials =
  rc_ClerkUserID :: string
  rc_AuthToken :: string
  rc_PaymentMethodID :: int

text \<open>
  What the functions are given from outside: the cipher, the key of the configuration
  (\<^verbatim>\<open>config.Get().ResyCredentialsKey\<close>), what \<^verbatim>\<open>rand.Reader\<close> delivers to the first, the second,
  ... call of \<open>encryptString\<close>, and the JSON decoder and encoder.
\<close>

record vault =
  cipher :: primitives
  configuredKey :: bytes
  readers :: "nat \<Rightarrow> error + bytes"
  jsonUnmarshal :: "bytes \<Rightarrow> json option"
  jsonMarshal :: "json \<Rightarrow> bytes"

text \<open>
  The key-value store behind \<^verbatim>\<open>GetClient()\<close> with the failure, if any, of a read and of a
  write, and the lines of the log.
\<close>

datatype logEntry = ReencryptFailed string error

record redis =
  entries :: "string \<Rightarrow> bytes option"
  getFailure :: "error option"
  setFailure :: "error option"
  logged :: "logEntry list"

definition redisNil :: error where
  "redisNil = ErrOther ''redis: nil''"

definition clientGet :: "redis \<Rightarrow> string \<Rightarrow> error + bytes" where
  "clientGet st k =
     (case getFailure st of
        Some err \<Rightarrow> Inl err
      | None \<Rightarrow> (case entries st k of None \<Rightarrow> Inl redisNil | Some val \<Rightarrow> Inr val))"

definition clientSet :: "redis \<Rightarrow> string \<Rightarrow> bytes \<Rightarrow> error option \<times> redis" where
  "clientSet st k val =
     (case setFailure st of
        Some err \<Rightarrow> (Some err, st)
      | None \<Rightarrow> (None, st\<lparr>entries := (entries st)(k \<mapsto> val)\<rparr>))"

definition ResyCredentialsKeyPrefix :: string where
  "ResyCredentialsKeyPrefix = ''resy_credentials:''"

definition errResyCredentialsKeyMissing :: error where
  "errResyCredentialsKeyMissing = ErrOther ''resy credentials key not configured''"

definition ResyCredentialsKey :: "string \<Rightarrow> string" where
  "ResyCredentialsKey clerkUserID = ResyCredentialsKeyPrefix @ clerkUserID"

text \<open>The \<^verbatim>\<open>resyCredentialsRecord\<close>, as \<^verbatim>\<open>json.Marshal\<close> is given it; three strings, so that
  \<^verbatim>\<open>json.Marshal\<close> does not fail.\<close>

definition resyCredentialsRecord :: "string \<Rightarrow> string \<Rightarrow> string \<Rightarrow> json" where
  "resyCredentialsRecord clerkUserID authToken paymentMethodID =
     JObj [(''clerk_user_id'', JStr clerkUserID), (''auth_token'', JStr authToken),
           (''payment_method_id'', JStr paymentMethodID)]"

definition SaveResyCredentials :: "vault \<Rightarrow> redis \<Rightarrow> ResyCredentials \<Rightarrow> error option \<times> redis" where
  "SaveResyCredentials v st creds =
     (let key = configuredKey v
      in if length key = 0 then (Some errResyCredentialsKeyMissing, st)
         else (case encryptString (cipher v) (readers v 0) (rc_AuthToken creds) key of
                 Inl err \<Rightarrow> (Some err, st)
               | Inr encryptedAuthToken \<Rightarrow>
                   (case encryptString (cipher v) (readers v 1)
                           (Itoa (rc_PaymentMethodID creds)) key of
                      Inl err \<Rightarrow> (Some err, st)
                    | Inr encryptedPaymentID \<Rightarrow>
                        clientSet st (ResyCredentialsKey (rc_ClerkUserID creds))
                          (jsonMarshal v (resyCredentialsRecord (rc_ClerkUserID creds)
                             encryptedAuthToken encryptedPaymentID)))))"

text \<open>
  \<^verbatim>\<open>coercePaymentMethodID\<close>.  A number of the document is a \<^verbatim>\<open>float64\<close>; it is taken to be a
  whole number that \<^verbatim>\<open>float64\<close> and \<^verbatim>\<open>int64\<close> hold exactly.
\<close>

definition coercePaymentMethodID :: "json \<Rightarrow> error + string" where
  "coercePaymentMethodID val =
     (case val of
        JStr s \<Rightarrow> if s = [] then Inl (ErrOther ''payment_method_id missing'') else Inr s
      | JNum n \<Rightarrow> Inr (Itoa n)
      | _ \<Rightarrow> Inl (ErrOther ''invalid payment_method_id type''))"

text \<open>\<^verbatim>\<open>json.Unmarshal\<close> into a \<^verbatim>\<open>map[string]interface{}\<close>, as \<open>unmarshalMap\<close>.\<close>

definition unmarshalRecord :: "vault \<Rightarrow> bytes \<Rightarrow> (string \<times> json) list option" where
  "unmarshalRecord v jsonData =
     (case jsonUnmarshal v jsonData of
        Some (JObj m) \<Rightarrow> Some m
      | Some JNull \<Rightarrow> Some []
      | _ \<Rightarrow> None)"

text \<open>A stored value: decrypted when it has the prefix, taken as it is otherwise.\<close>

definition readStored :: "vault \<Rightarrow> string \<Rightarrow> error + string" where
  "readStored v stored =
     (if hasEncryptionPrefix stored then decryptString (cipher v) stored (configuredKey v)
      else Inr stored)"

definition resolveClerkID :: "(string \<times> json) list \<Rightarrow> string \<Rightarrow> string" where
  "resolveClerkID raw clerkUserID =
     (case asString (map_of raw ''clerk_user_id'') of
        Some rawClerkID \<Rightarrow> if rawClerkID \<noteq> [] then rawClerkID else clerkUserID
      | None \<Rightarrow> clerkUserID)"

definition reencrypt :: "vault \<Rightarrow> redis \<Rightarrow> string \<Rightarrow> ResyCredentials \<Rightarrow> redis" where
  "reencrypt v st clerkUserID creds =
     (case SaveResyCredentials v st creds of
        (Some err, st') \<Rightarrow> st'\<lparr>logged := logged st' @ [ReencryptFailed clerkUserID err]\<rparr>
      | (None, st') \<Rightarrow> st')"

definition GetResyCredentials ::
  "vault \<Rightarrow> redis \<Rightarrow> string \<Rightarrow> (error + ResyCredentials) \<times> redis" where
  "GetResyCredentials v st clerkUserID =
     (if length (configuredKey v) = 0 then (Inl errResyCredentialsKeyMissing, st)
      else (case clientGet st (ResyCredentialsKey clerkUserID) of
        Inl err \<Rightarrow> (Inl err, st)
      | Inr jsonData \<Rightarrow>
      (case unmarshalRecord v jsonData of
        None \<Rightarrow> (Inl (ErrOther ''json: cannot unmarshal''), st)
      | Some raw \<Rightarrow>
      (case asString (map_of raw ''auth_token'') of
        None \<Rightarrow> (Inl (ErrOther ''auth_token missing or invalid''), st)
      | Some authTokenRaw \<Rightarrow>
      (if authTokenRaw = [] then (Inl (ErrOther ''auth_token missing or invalid''), st)
       else (case map_of raw ''payment_method_id'' of
        None \<Rightarrow> (Inl (ErrOther ''payment_method_id missing''), st)
      | Some paymentRawValue \<Rightarrow>
      (case coercePaymentMethodID paymentRawValue of
        Inl err \<Rightarrow> (Inl err, st)
      | Inr paymentRaw \<Rightarrow>
      (case readStored v authTokenRaw of
        Inl err \<Rightarrow> (Inl err, st)
      | Inr authToken \<Rightarrow>
      (case readStored v paymentRaw of
        Inl err \<Rightarrow> (Inl err, st)
      | Inr paymentToken \<Rightarrow>
      (if \<not> snd (Atoi paymentToken) then (Inl (ErrOther ''invalid payment_method_id''), st)
       else (let needsReencrypt =
                   (\<not> hasEncryptionPrefix authTokenRaw \<or> \<not> hasEncryptionPrefix paymentRaw);
                 creds = \<lparr>rc_ClerkUserID = resolveClerkID raw clerkUserID,
                          rc_AuthToken = authToken,
                          rc_PaymentMethodID = fst (Atoi paymentToken)\<rparr>
             in (Inr creds,
                 if needsReencrypt then reencrypt v st clerkUserID creds else st))))))))))))"

text \<open>
  A vault to run the definitions on: the key is configured, the decoder knows two documents
  stored without encryption, the encoder writes the three fields of a record one after the
  other.
\<close>

definition dq :: string where
  "dq = [CHR 0x22]"

definition tokenOnlyDocument :: bytes where
  "tokenOnlyDocument = ''{'' @ dq @ ''auth_token'' @ dq @ '':'' @ dq @ ''plaintext'' @ dq @ ''}''"

definition legacyDocument :: bytes where
  "legacyDocument = ''{'' @ dq @ ''clerk_user_id'' @ dq @ '':'' @ dq @ ''user_456'' @ dq @ '',''
     @ dq @ ''auth_token'' @ dq @ '':'' @ dq @ ''plain_token'' @ dq @ '',''
     @ dq @ ''payment_method_id'' @ dq @ '':98765}''"

definition legacyFields :: "(string \<times> json) list" where
  "legacyFields = [(''clerk_user_id'', JStr ''user_456''), (''auth_token'', JStr ''plain_token''),
                   (''payment_method_id'', JNum 98765)]"

definition exampleUnmarshal :: "bytes \<Rightarrow> json option" where
  "exampleUnmarshal jsonData =
     (if jsonData = tokenOnlyDocument then Some (JObj [(''auth_token'', JStr ''plaintext'')])
      else if jsonData = legacyDocument then Some (JObj legacyFields)
      else None)"

fun exampleMarshal :: "json \<Rightarrow> bytes" where
  "exampleMarshal (JObj [(k1, JStr v1), (k2, JStr v2), (k3, JStr v3)]) =
     ''{'' @ dq @ k1 @ dq @ '':'' @ dq @ v1 @ dq @ '','' @ dq @ k2 @ dq @ '':'' @ dq @ v2 @ dq @ '',''
       @ dq @ k3 @ dq @ '':'' @ dq @ v3 @ dq @ ''}''"
| "exampleMarshal _ = ''null''"

definition exampleVault :: vault where
  "exampleVault = \<lparr>cipher = toyCipher, configuredKey = testKey, readers = (\<lambda>i. testReader),
     jsonUnmarshal = exampleUnmarshal, jsonMarshal = exampleMarshal\<rparr>"

definition storeOf :: "string \<Rightarrow> bytes \<Rightarrow> redis" where
  "storeOf clerkUserID jsonData =
     \<lparr>entries = (\<lambda>k. if k = ResyCredentialsKey clerkUserID then Some jsonData else None),
      getFailure = None, setFailure = None, logged = []\<rparr>"

definition legacyCredentials :: ResyCredentials where
  "legacyCredentials = \<lparr>rc_ClerkUserID = ''user_456'', rc_AuthToken = ''plain_token'',
     rc_PaymentMethodID = 98765\<rparr>"

definition legacyStore :: redis where
  "legacyStore = storeOf ''user_456'' legacyDocument"

definition readOnlyStore :: redis where
  "readOnlyStore = legacyStore\<lparr>setFailure := Some (ErrOther ''READONLY'')\<rparr>"

section \<open>The scheduler (main.go)\<close>

record ScheduledReservation =
  sr_ID :: string
  sr_VenueID :: int
  sr_ReservationTime :: time
  sr_PartySize :: int
  sr_TablePreferences :: "string list"
  sr_AuthToken :: string
  sr_PaymentMethodID :: int
  sr_ClerkUserID :: string
  sr_RunTime :: time

text \<open>
  Modelled from the spec: the reservation queue of package \<^verbatim>\<open>store\<close>, whose source
  (store/reservations.go) is not at hand; its tests and its callers are.  The pending
  entries, each under its id.  The functions of the queue return an error besides, as
  their callers in main.go show; it stands for a failure of the key-value store.
\<close>

record reservationQueue =
  pending :: "ScheduledReservation list"
  peekFailure :: "error option"
  deleteFailure :: "error option"



text \<open>
  The lines of the log of the scheduler, and its state: the queue, the store of the
  credentials, the protocol client with its cookie jar, the network, the log, and the ids
  of the reservations for which \<open>Reserve\<close> has been called, in order.  The accounting
  callback after a booking (\<^verbatim>\<open>notifyUsageIncrement\<close>) is kept as a line of the log only.
\<close>

datatype logLine =
    Attempting string
  | CredentialsFailed string error
  | BookingFailed string error
  | Booked string
  | UsageNotified string
  | DeleteFailed string error

record scheduler =
  queue :: reservationQueue
  credentials :: redis
  client :: API
  network :: world
  journal :: "logLine list"
  attempts :: "string list"













section \<open>Properties of the calendar and of the run time\<close>

lemma div_bounds:
  fixes x m :: int
  assumes "0 < m"
  shows "m * (x div m) \<le> x" "x < m * (x div m) + m"
proof -
  have "x = m * (x div m) + x mod m" by simp
  moreover have "0 \<le> x mod m" "x mod m < m" using assms by simp_all
  ultimately show "m * (x div m) \<le> x" "x < m * (x div m) + m" by linarith+
qed

lemma monthDay_plain:
  assumes "0 \<le> day" "day < 365"
  defines "month \<equiv> day div 31"
  defines "r \<equiv> (if daysBefore (month + 1) \<le> day then (month + 2, day - daysBefore (month + 1) + 1)
           else (month + 1, day - daysBefore month + 1))"
  shows "1 \<le> fst r \<and> fst r \<le> 12 \<and> 1 \<le> snd r \<and> snd r \<le> 31 \<and> daysBefore (fst r - 1) + snd r - 1 = day \<and> day < daysBefore (fst r)"
proof -
  have bounds: "31 * month \<le> day" "day < 31 * month + 31"
    unfolding month_def using div_bounds [of 31 day] by simp_all
  have "0 \<le> month" "month \<le> 11" using bounds assms(1,2) by linarith+
  then have "month = 0 \<or> month = 1 \<or> month = 2 \<or> month = 3 \<or> month = 4 \<or> month = 5 \<or> month = 6
     \<or> month = 7 \<or> month = 8 \<or> month = 9 \<or> month = 10 \<or> month = 11"
    by presburger
  then show ?thesis
    using bounds
    using assms(2) unfolding r_def by (elim disjE) (simp_all add: daysBefore_def)
qed

lemma monthDay_correct:
  assumes "0 \<le> yday" "yday < (if leap then 366 else 365)"
  shows "1 \<le> fst (monthDay leap yday) \<and> fst (monthDay leap yday) \<le> 12 \<and> 1 \<le> snd (monthDay leap yday)
     \<and> snd (monthDay leap yday) \<le> 31
     \<and> daysBefore (fst (monthDay leap yday) - 1) + (if leap \<and> 3 \<le> fst (monthDay leap yday) then 1 else 0)
         + (snd (monthDay leap yday) - 1) = yday"
proof (cases "leap \<and> yday = 59")
  case True
  then show ?thesis by (simp add: monthDay_def daysBefore_def)
next
  case False
  define day where "day = (if leap \<and> 59 < yday then yday - 1 else yday)"
  have d: "0 \<le> day" "day < 365" using assms False by (auto simp: day_def split: if_splits)
  define r where "r = (if daysBefore (day div 31 + 1) \<le> day then (day div 31 + 2, day - daysBefore (day div 31 + 1) + 1)
           else (day div 31 + 1, day - daysBefore (day div 31) + 1))"
  have md: "monthDay leap yday = r"
    using False by (auto simp add: monthDay_def r_def day_def Let_def)
  have p: "1 \<le> fst r \<and> fst r \<le> 12 \<and> 1 \<le> snd r \<and> snd r \<le> 31 \<and> daysBefore (fst r - 1) + snd r - 1 = day \<and> day < daysBefore (fst r)"
    unfolding r_def by (rule monthDay_plain [OF d])
  have m3: "3 \<le> fst r \<longleftrightarrow> 59 \<le> day"
  proof -
    have "fst r \<le> 2 \<Longrightarrow> day < 59" using p by (auto simp: daysBefore_def split: if_splits)
    moreover have "3 \<le> fst r \<Longrightarrow> 59 \<le> day" using p by (auto simp: daysBefore_def split: if_splits)
    ultimately show ?thesis by linarith
  qed
  show ?thesis
    unfolding md using p m3 False assms by (auto simp: day_def split: if_splits)
qed

lemma yearDay_correct:
  fixes days :: int
  shows "daysBeforeYear (fst (yearDay days)) + snd (yearDay days) - unixEpochDays = days
       \<and> 0 \<le> snd (yearDay days)
       \<and> snd (yearDay days) < (if isLeap (fst (yearDay days)) then 366 else 365)"
proof -
  define d0 where "d0 = days + unixEpochDays"
  define a where "a = d0 div 146097"
  define d1 where "d1 = d0 - 146097 * a"
  define c where "c = d1 div 36524"
  define b where "b = c - c div 4"
  define d2 where "d2 = d1 - 36524 * b"
  define n4 where "n4 = d2 div 1461"
  define d3 where "d3 = d2 - 1461 * n4"
  define e where "e = d3 div 365"
  define n1 where "n1 = e - e div 4"
  define yd where "yd = d3 - 365 * n1"
  define Y where "Y = 400 * a + 100 * b + 4 * n4 + n1"
  have yD: "yearDay days = (Y + 1, yd)"
    unfolding yearDay_def Let_def Y_def yd_def n1_def e_def d3_def n4_def d2_def b_def
        c_def d1_def a_def d0_def by (rule refl)
  have d1: "0 \<le> d1" "d1 < 146097"
    using div_bounds [of 146097 d0] by (simp_all add: d1_def a_def)
  have c: "36524 * c \<le> d1" "d1 < 36524 * c + 36524"
    using div_bounds [of 36524 d1] by (simp_all add: c_def)
  have c04: "c = 0 \<or> c = 1 \<or> c = 2 \<or> c = 3 \<or> c = 4" using c d1 by linarith
  have b: "b = (if c = 4 then 3 else c)" using c04 by (auto simp: b_def)
  have d2: "0 \<le> d2" "d2 \<le> 36524" "d2 = 36524 \<longrightarrow> b = 3"
    using c c04 d1 b by (auto simp: d2_def)
  have b03: "0 \<le> b" "b \<le> 3" using b c04 by auto
  have n4: "1461 * n4 \<le> d2" "d2 < 1461 * n4 + 1461"
    using div_bounds [of 1461 d2] by (simp_all add: n4_def)
  have n4r: "0 \<le> n4" "n4 \<le> 24" using n4 d2 by linarith+
  have d3: "0 \<le> d3" "d3 < 1461" "n4 = 24 \<longrightarrow> b \<noteq> 3 \<longrightarrow> d3 < 1460"
    using n4 d2 by (auto simp: d3_def)
  have e: "365 * e \<le> d3" "d3 < 365 * e + 365"
    using div_bounds [of 365 d3] by (simp_all add: e_def)
  have e04: "e = 0 \<or> e = 1 \<or> e = 2 \<or> e = 3 \<or> e = 4" using e d3 by linarith
  have n1: "n1 = (if e = 4 then 3 else e)" using e04 by (auto simp: n1_def)
  have n1r: "0 \<le> n1" "n1 \<le> 3" using n1 e04 by auto
  have yd: "0 \<le> yd" "yd \<le> 365" "yd = 365 \<longrightarrow> n1 = 3 \<and> d3 = 1460"
    using e e04 n1 d3 by (auto simp: yd_def)
  have Y4: "Y div 4 = 100 * a + 25 * b + n4"
    by (rule int_div_pos_eq [where r = n1]) (use n1r in \<open>simp_all add: Y_def\<close>)
  have Y100: "Y div 100 = 4 * a + b"
    by (rule int_div_pos_eq [where r = "4 * n4 + n1"]) (use n1r n4r in \<open>simp_all add: Y_def\<close>)
  have Y400: "Y div 400 = a"
    by (rule int_div_pos_eq [where r = "100 * b + 4 * n4 + n1"])
       (use n1r n4r b03 in \<open>simp_all add: Y_def\<close>)
  have dby: "daysBeforeYear (Y + 1) = 146097 * a + 36524 * b + 1461 * n4 + 365 * n1"
    by (simp add: daysBeforeYear_def Y4 Y100 Y400) (simp add: Y_def)
  have sum: "daysBeforeYear (Y + 1) + yd - unixEpochDays = days"
    unfolding dby by (simp add: yd_def d3_def d2_def d1_def d0_def)
  have m4: "(Y + 1) mod 4 = (n1 + 1) mod 4"
  proof -
    have "Y + 1 = 4 * (100 * a + 25 * b + n4) + (n1 + 1)" by (simp add: Y_def)
    then show ?thesis by (metis mod_mult_self4)
  qed
  have m100: "(Y + 1) mod 100 = (4 * n4 + n1 + 1) mod 100"
  proof -
    have "Y + 1 = 100 * (4 * a + b) + (4 * n4 + n1 + 1)" by (simp add: Y_def)
    then show ?thesis by (metis mod_mult_self4)
  qed
  have m400: "(Y + 1) mod 400 = (100 * b + 4 * n4 + n1 + 1) mod 400"
  proof -
    have "Y + 1 = 400 * a + (100 * b + 4 * n4 + n1 + 1)" by (simp add: Y_def)
    then show ?thesis by (metis mod_mult_self4)
  qed
  have leap: "yd = 365 \<longrightarrow> isLeap (Y + 1)"
  proof
    assume "yd = 365"
    then have n13: "n1 = 3" and d31460: "d3 = 1460" using yd by auto
    have l4: "(Y + 1) mod 4 = 0" unfolding m4 n13 by simp
    show "isLeap (Y + 1)"
    proof (cases "n4 = 24")
      case True
      then have "b = 3" using d3 d31460 by auto
      then have "(Y + 1) mod 400 = 0" unfolding m400 using True n13 by simp
      then show ?thesis using l4 by (simp add: isLeap_def)
    next
      case False
      then have "4 * n4 + n1 + 1 < 100" "0 < 4 * n4 + n1 + 1" using n4r n13 by linarith+
      then have "(Y + 1) mod 100 \<noteq> 0" unfolding m100 by simp
      then show ?thesis using l4 by (simp add: isLeap_def)
    qed
  qed
  show ?thesis
    unfolding yD using sum yd leap by (auto simp: less_le)
qed

lemma civilFromDays_correct:
  assumes "civilFromDays n = (y, m, d)"
  shows "1 \<le> m \<and> m \<le> 12 \<and> 1 \<le> d \<and> d \<le> 31 \<and> daysSinceEpoch y m d = n"
proof -
  obtain y' yd where yD: "yearDay n = (y', yd)" by (cases "yearDay n")
  obtain m' d' where mD: "monthDay (isLeap y') yd = (m', d')" by (cases "monthDay (isLeap y') yd")
  have eq: "y = y'" "m = m'" "d = d'"
    using assms by (simp_all add: civilFromDays_def yD mD)
  have A: "daysBeforeYear y' + yd - unixEpochDays = n" "0 \<le> yd"
       "yd < (if isLeap y' then 366 else 365)"
    using yearDay_correct [of n] by (simp_all add: yD)
  have B: "1 \<le> m' \<and> m' \<le> 12 \<and> 1 \<le> d' \<and> d' \<le> 31
      \<and> daysBefore (m' - 1) + (if isLeap y' \<and> 3 \<le> m' then 1 else 0) + (d' - 1) = yd"
    using monthDay_correct [OF A(2,3)] by (simp add: mD)
  show ?thesis
    unfolding eq daysSinceEpoch_def using A(1) B by linarith
qed

lemma int64_id: "- 9223372036854775808 \<le> x \<Longrightarrow> x < 9223372036854775808 \<Longrightarrow> int64 x = x"
  by (simp add: int64_def)

lemma int64_range: "- 9223372036854775808 \<le> int64 x" "int64 x < 9223372036854775808"
proof -
  have "0 \<le> (x + 9223372036854775808) mod 18446744073709551616"
    "(x + 9223372036854775808) mod 18446744073709551616 < 18446744073709551616"
    by simp_all
  then show "- 9223372036854775808 \<le> int64 x" "int64 x < 9223372036854775808"
    unfolding int64_def by linarith+
qed

lemma mod_add_cancel_iff:
  fixes x y c k :: int
  shows "(x + c) mod k = (y + c) mod k \<longleftrightarrow> x mod k = y mod k"
proof
  assume a: "(x + c) mod k = (y + c) mod k"
  have "x mod k = ((x + c) mod k - c) mod k" by (simp add: mod_diff_left_eq)
  also have "\<dots> = ((y + c) mod k - c) mod k" by (simp only: a)
  also have "\<dots> = y mod k" by (simp add: mod_diff_left_eq)
  finally show "x mod k = y mod k" .
next
  assume "x mod k = y mod k"
  then show "(x + c) mod k = (y + c) mod k" by (rule mod_add_cong) (rule refl)
qed

lemma int64_eq_iff: "int64 x = int64 y \<longleftrightarrow> x mod 18446744073709551616 = y mod 18446744073709551616"
proof -
  have "int64 x = int64 y \<longleftrightarrow>
      (x + 9223372036854775808) mod 18446744073709551616
        = (y + 9223372036854775808) mod 18446744073709551616"
    by (simp add: int64_def)
  also have "\<dots> \<longleftrightarrow> x mod 18446744073709551616 = y mod 18446744073709551616"
    by (rule mod_add_cancel_iff)
  finally show ?thesis .
qed

lemma int64_mod: "int64 x mod 18446744073709551616 = x mod 18446744073709551616"
proof -
  have "int64 x mod 18446744073709551616
      = ((x + 9223372036854775808) mod 18446744073709551616 - 9223372036854775808)
          mod 18446744073709551616"
    by (simp add: int64_def)
  also have "\<dots> = (x + 9223372036854775808 - 9223372036854775808) mod 18446744073709551616"
    by (rule mod_diff_left_eq)
  finally show ?thesis by simp
qed

lemma int64_int64: "int64 (int64 x) = int64 x"
  by (simp add: int64_eq_iff int64_mod)

lemma resolveWall_int64: "resolveWall l (int64 wall) = resolveWall l wall"
  by (simp add: resolveWall_def int64_int64)

lemma resolveWall_cong:
  assumes "x mod 18446744073709551616 = y mod 18446744073709551616"
  shows "resolveWall l x = resolveWall l y"
proof -
  have "int64 x = int64 y" using assms by (simp add: int64_eq_iff)
  then show ?thesis by (simp add: resolveWall_def)
qed

lemma norm_in_range: "0 \<le> lo \<Longrightarrow> lo < base \<Longrightarrow> norm hi lo base = (hi, lo)"
  by (simp add: norm_def)

lemma Date_in_range:
  assumes "1 \<le> m" "m \<le> 12" "0 \<le> h" "h < 24" "0 \<le> mi" "mi < 60" "0 \<le> s" "s < 60"
  shows "Date y m d h mi s l =
     \<lparr>unix = resolveWall l (daysSinceEpoch y m d * 86400 + h * 3600 + mi * 60 + s), loc = l\<rparr>"
  using assms by (simp add: Date_def norm_in_range int64_id)

lemma daysSinceEpoch_shift: "daysSinceEpoch y m (d + k) = daysSinceEpoch y m d + k"
  by (simp add: daysSinceEpoch_def)

lemma Clock_range:
  assumes "Clock t = (h, mi, s)"
  shows "0 \<le> h \<and> h < 24 \<and> 0 \<le> mi \<and> mi < 60 \<and> 0 \<le> s \<and> s < 60
     \<and> h * 3600 + mi * 60 + s = abs_secs t mod 86400"
proof -
  define x where "x = abs_secs t mod 86400"
  define y where "y = x mod 3600"
  have x: "0 \<le> x" "x < 86400" by (simp_all add: x_def)
  have y: "0 \<le> y" "y < 3600" by (simp_all add: y_def)
  have e: "h = x div 3600" "mi = y div 60" "s = x mod 60"
    using assms by (simp_all add: Clock_def Let_def x_def y_def)
  have s: "s = y mod 60"
    unfolding e y_def by (simp add: mod_mod_cancel)
  have xh: "x = 3600 * h + y" unfolding e y_def by simp
  have ym: "y = 60 * mi + s" by (simp add: e(2) s)
  have sr: "0 \<le> s" "s < 60" unfolding s by simp_all
  show ?thesis
    using x y xh ym sr unfolding x_def [symmetric] by linarith
qed

lemma wall_div:
  fixes D :: int
  assumes "0 \<le> x" "x < 86400"
  shows "(D * 86400 + x) div 86400 = D" "(D * 86400 + x) mod 86400 = x"
  using assms by (simp_all add: int_div_pos_eq [where q = D and r = x] int_mod_pos_eq [where q = D and r = x])

lemma wallExact_fixed_offset:
  assumes "loc_tx l = []" "representable wall" "representable (wall - loc_first l)"
  shows "wallExact l wall"
  using assms
  by (simp add: wallExact_def resolveWall_def lookup_def zoneOffset_def Let_def representable_def
      alpha_def omega_def int64_id)

lemma wallExact_sameDay: "wallExact l wall \<Longrightarrow> wallSameDay l wall"
  by (simp add: wallExact_def wallSameDay_def)

lemma daysBefore_bounds: "0 \<le> daysBefore k \<and> daysBefore k \<le> 365"
  by (simp add: daysBefore_def)

text \<open>The year of a day number of at most \<open>2\<^sup>6\<^sup>2\<close> is an integer of 64 bits.\<close>

lemma year_int64:
  assumes c: "civilFromDays n = (y, m, d)"
    and n: "- 4611686018427387904 \<le> n" "n \<le> 4611686018427387904"
  shows "int64 y = y"
proof -
  define z where "z = y - 1"
  define A where "A = z div 4"
  define B where "B = z div 100"
  define C where "C = z div 400"
  have A: "4 * A \<le> z" "z < 4 * A + 4" unfolding A_def by (rule div_bounds, simp)+
  have B: "100 * B \<le> z" "z < 100 * B + 100" unfolding B_def by (rule div_bounds, simp)+
  have C: "400 * C \<le> z" "z < 400 * C + 400" unfolding C_def by (rule div_bounds, simp)+
  have k: "0 \<le> daysBefore (m - 1)" "daysBefore (m - 1) \<le> 365"
    using daysBefore_bounds [of "m - 1"] by simp_all
  have e: "1 \<le> d" "d \<le> 31" "daysSinceEpoch y m d = n"
    using civilFromDays_correct [OF c] by simp_all
  define t where "t = (if isLeap y \<and> 3 \<le> m then 1 else 0 :: int)"
  have t: "0 \<le> t" "t \<le> 1" by (simp_all add: t_def)
  have "365 * z + A - B + C + daysBefore (m - 1) + t + (d - 1) - 719162 = n"
    using e(3)
    by (simp add: daysSinceEpoch_def daysBeforeYear_def Let_def unixEpochDays_def z_def A_def
        B_def C_def t_def)
  then have "- 9223372036854775808 \<le> z + 1" "z + 1 < 9223372036854775808"
    using A B C k t e(1,2) n by linarith+
  then show ?thesis by (simp add: z_def int64_id)
qed

lemma CalculateRunTime_day:
  assumes tz: "LoadLocation db (Timezone bw) = Inr l"
    and hr: "0 \<le> ReleaseHour bw" "ReleaseHour bw \<le> 23"
    and mn: "0 \<le> ReleaseMinute bw" "ReleaseMinute bw \<le> 59"
    and rng: "- 4611686018427387904 \<le> localDay l r" "localDay l r \<le> 4611686018427387904"
    and h1: "wallSameDay l (abs_secs (In r l) - 86400 * DaysInAdvance bw)"
    and e2: "wallExact l ((localDay l r - DaysInAdvance bw) * 86400
               + ReleaseHour bw * 3600 + ReleaseMinute bw * 60)"
  shows "\<exists>t. CalculateRunTime db bw r = Inr t \<and> loc t = utcLoc
           \<and> Date_of (In t l) = civilFromDays (localDay l r - DaysInAdvance bw)
           \<and> Clock (In t l) = (ReleaseHour bw, ReleaseMinute bw, 0)"
proof -
  define L where "L = abs_secs (In r l)"
  define n where "n = DaysInAdvance bw"
  define H where "H = ReleaseHour bw"
  define Mi where "Mi = ReleaseMinute bw"
  define M :: int where "M = 18446744073709551616"
  obtain y m d where ymd: "Date_of (In r l) = (y, m, d)" by (cases "Date_of (In r l)")
  obtain h mi s where hms: "Clock (In r l) = (h, mi, s)" by (cases "Clock (In r l)")
  have cv: "civilFromDays (L div 86400) = (y, m, d)"
    using ymd by (simp add: Date_of_def L_def)
  have c1: "1 \<le> m \<and> m \<le> 12 \<and> 1 \<le> d \<and> d \<le> 31 \<and> daysSinceEpoch y m d = L div 86400"
    using civilFromDays_correct [OF cv] .
  have y64: "int64 y = y"
  proof (rule year_int64 [OF cv])
    show "- 4611686018427387904 \<le> L div 86400" using rng(1) by (simp add: localDay_def L_def)
    show "L div 86400 \<le> 4611686018427387904" using rng(2) by (simp add: localDay_def L_def)
  qed
  have m64: "int64 m = m"
    using c1 by (simp add: int64_id)
  have c2: "0 \<le> h \<and> h < 24 \<and> 0 \<le> mi \<and> mi < 60 \<and> 0 \<le> s \<and> s < 60
     \<and> h * 3600 + mi * 60 + s = L mod 86400"
    using Clock_range [OF hms] by (simp add: L_def)
  define rel where "rel = AddDate (In r l) 0 0 (int64 (- n))"
  define Q where "Q = L div 86400"
  define R where "R = L mod 86400"
  define X where "X = int64 (d + int64 (- n))"
  have LQR: "L = Q * 86400 + R" by (simp add: Q_def R_def)
  have Rr: "0 \<le> R" "R < 86400" by (simp_all add: R_def)
  have X: "X mod M = (d - n) mod M"
  proof -
    have "X mod M = (d + int64 (- n)) mod M" by (simp add: X_def M_def int64_mod)
    also have "\<dots> = (d + (- n)) mod M"
      using int64_mod [of "- n"] unfolding M_def [symmetric] by (rule mod_add_cong [OF refl])
    finally show ?thesis by simp
  qed
  have w1: "(daysSinceEpoch y m X * 86400 + h * 3600 + mi * 60 + s) mod M
              = (L - 86400 * n) mod M"
  proof -
    have a: "daysSinceEpoch y m X = Q + (X - d)"
      using c1 daysSinceEpoch_shift [of y m d "X - d"] by (simp add: Q_def)
    have b: "h * 3600 + mi * 60 + s = R" using c2 by (simp add: R_def)
    have "daysSinceEpoch y m X * 86400 + h * 3600 + mi * 60 + s
            = (Q * 86400 + R - d * 86400) + X * 86400"
      unfolding a using b by (simp add: algebra_simps)
    also have "\<dots> mod M = ((Q * 86400 + R - d * 86400) + (d - n) * 86400) mod M"
      by (intro mod_add_cong mod_mult_cong refl X)
    also have "(Q * 86400 + R - d * 86400) + (d - n) * 86400 = L - 86400 * n"
      using LQR by (simp add: algebra_simps)
    finally show ?thesis .
  qed
  have rel: "rel = \<lparr>unix = resolveWall l (L - 86400 * n), loc = l\<rparr>"
  proof -
    have "loc (In r l) = l" by (simp add: In_def)
    then have "rel = Date y m X h mi s l"
      by (simp add: rel_def AddDate_def ymd hms y64 m64 X_def)
    also have "\<dots> = \<lparr>unix = resolveWall l (daysSinceEpoch y m X * 86400 + h * 3600 + mi * 60 + s),
                       loc = l\<rparr>"
      using c1 c2 by (simp only: Date_in_range)
    also have "resolveWall l (daysSinceEpoch y m X * 86400 + h * 3600 + mi * 60 + s)
                 = resolveWall l (L - 86400 * n)"
      using w1 unfolding M_def by (rule resolveWall_cong)
    finally show ?thesis .
  qed
  have dayrel: "(L - 86400 * n) div 86400 = L div 86400 - n"
  proof -
    have "L - 86400 * n = 86400 * (Q - n) + R" using LQR by (simp add: algebra_simps)
    then have "(L - 86400 * n) div 86400 = Q - n" using Rr by (rule int_div_pos_eq)
    then show ?thesis by (simp add: Q_def)
  qed
  have abs_rel: "abs_secs rel div 86400 = L div 86400 - n"
  proof -
    have "wallSameDay l (L - 86400 * n)" using h1 by (simp only: L_def n_def)
    then have "(resolveWall l (L - 86400 * n) + zoneOffset l (resolveWall l (L - 86400 * n)))
                  div 86400 = (L - 86400 * n) div 86400"
      by (simp add: wallSameDay_def)
    then show ?thesis by (simp add: rel abs_secs_def dayrel)
  qed
  obtain y' m' d' where ymd': "civilFromDays (L div 86400 - n) = (y', m', d')"
    by (cases "civilFromDays (L div 86400 - n)")
  have c3: "1 \<le> m' \<and> m' \<le> 12 \<and> daysSinceEpoch y' m' d' = L div 86400 - n"
    using civilFromDays_correct [OF ymd'] by simp
  have drel: "Year rel = y'" "Month rel = m'" "Day rel = d'"
    by (simp_all add: Year_def Month_def Day_def Date_of_def abs_rel ymd')
  define wall2 where "wall2 = (L div 86400 - n) * 86400 + (H * 3600 + Mi * 60)"
  have x: "0 \<le> H * 3600 + Mi * 60" "H * 3600 + Mi * 60 < 86400"
    using hr mn by (simp_all add: H_def Mi_def)
  have run: "Date y' m' d' H Mi 0 l = \<lparr>unix = resolveWall l wall2, loc = l\<rparr>"
    using c3 hr mn by (simp add: Date_in_range H_def Mi_def wall2_def add.assoc)
  have res: "CalculateRunTime db bw r = Inr \<lparr>unix = resolveWall l wall2, loc = utcLoc\<rparr>"
    using run drel
    by (simp add: CalculateRunTime_def tz Let_def rel_def [symmetric] n_def [symmetric]
        H_def [symmetric] Mi_def [symmetric] UTC_def)
  have abs2: "abs_secs (In \<lparr>unix = resolveWall l wall2, loc = utcLoc\<rparr> l) = wall2"
    using e2 by (simp add: abs_secs_def In_def wallExact_def wall2_def localDay_def
        L_def n_def H_def Mi_def add.assoc)
  have wd: "wall2 div 86400 = L div 86400 - n" "wall2 mod 86400 = H * 3600 + Mi * 60"
    unfolding wall2_def by (rule wall_div [OF x])+
  have "Date_of (In \<lparr>unix = resolveWall l wall2, loc = utcLoc\<rparr> l) = civilFromDays (L div 86400 - n)"
    by (simp only: Date_of_def abs2 wd)
  moreover have "Clock (In \<lparr>unix = resolveWall l wall2, loc = utcLoc\<rparr> l) = (H, Mi, 0)"
  proof -
    note m = wd(2)
    have "0 \<le> H" "H < 24" "0 \<le> Mi" "Mi < 60" using hr mn by (simp_all add: H_def Mi_def)
    then have mi60: "0 \<le> Mi * 60" "Mi * 60 < 3600" by simp_all
    have "(H * 3600 + Mi * 60) div 3600 = H" "(H * 3600 + Mi * 60) mod 3600 = Mi * 60"
      using int_div_pos_eq [of "H * 3600 + Mi * 60" 3600 H "Mi * 60"]
        int_mod_pos_eq [of "H * 3600 + Mi * 60" 3600 H "Mi * 60"] mi60 by simp_all
    moreover have "(H * 3600 + Mi * 60) mod 60 = 0" by simp
    ultimately show ?thesis unfolding Clock_def abs2 m by (simp add: Let_def)
  qed
  ultimately show ?thesis
    using res by (simp add: localDay_def L_def n_def H_def Mi_def)
qed

lemma localDay_range:
  assumes "- 9223372036854775808 - 86400 * 365 \<le> abs_secs (In r l)"
    "abs_secs (In r l) \<le> 9223372036854775807 + 86400 * 365"
  shows "- 4611686018427387904 \<le> localDay l r" "localDay l r \<le> 4611686018427387904"
proof -
  define L where "L = abs_secs (In r l)"
  have b: "86400 * (L div 86400) \<le> L" "L < 86400 * (L div 86400) + 86400"
    by (rule div_bounds, simp)+
  show "- 4611686018427387904 \<le> localDay l r" "localDay l r \<le> 4611686018427387904"
    unfolding localDay_def L_def [symmetric] using assms b unfolding L_def [symmetric]
    by linarith+
qed

lemma CalculateRunTime_wall:
  assumes tz: "LoadLocation db (Timezone bw) = Inr l"
    and hr: "0 \<le> ReleaseHour bw" "ReleaseHour bw \<le> 23"
    and mn: "0 \<le> ReleaseMinute bw" "ReleaseMinute bw \<le> 59"
    and dy: "0 \<le> DaysInAdvance bw" "DaysInAdvance bw \<le> 365"
    and e1: "wallExact l (abs_secs (In r l) - 86400 * DaysInAdvance bw)"
    and e2: "wallExact l ((localDay l r - DaysInAdvance bw) * 86400
               + ReleaseHour bw * 3600 + ReleaseMinute bw * 60)"
  shows "\<exists>t. CalculateRunTime db bw r = Inr t \<and> loc t = utcLoc
           \<and> Date_of (In t l) = civilFromDays (localDay l r - DaysInAdvance bw)
           \<and> Clock (In t l) = (ReleaseHour bw, ReleaseMinute bw, 0)"
proof -
  have "representable (abs_secs (In r l) - 86400 * DaysInAdvance bw)"
    using e1 by (simp add: wallExact_def)
  then have "- 9223372036854775808 - 86400 * 365 \<le> abs_secs (In r l)"
    "abs_secs (In r l) \<le> 9223372036854775807 + 86400 * 365"
    using dy by (simp_all add: representable_def alpha_def omega_def)
  then have rng: "- 4611686018427387904 \<le> localDay l r" "localDay l r \<le> 4611686018427387904"
    by (rule localDay_range)+
  show ?thesis
    using tz hr mn rng wallExact_sameDay [OF e1] e2 by (rule CalculateRunTime_day)
qed




text \<open>
  Claim C2 as stated fails: for the window (30 days, 09:00, America/New\_York) and the
  reservation instant 2025-07-31T23:00Z the run time is not 2025-06-01T13:00Z.
\<close>

theorem example_run_time_counterexample:
  "CalculateRunTime tzdata exampleWindow exampleReservation \<noteq> Inr (Date 2025 6 1 13 0 0 utcLoc)"
  by code_simp

text \<open>
  Claim C2, as amended.  For the window (30 days, 09:00, America/New\_York) and the
  reservation instant 2025-07-31T23:00Z (19:00 on 2025-07-31 in New York),
  \<open>CalculateRunTime\<close> returns the UTC instant 2025-07-01T13:00Z, that is the date
  2025-07-01 with wall-clock time 09:00 in New York: thirty days before 31 July is 1 July.
\<close>

theorem example_run_time:
  "CalculateRunTime tzdata exampleWindow exampleReservation = Inr (Date 2025 7 1 13 0 0 utcLoc)
   \<and> Date_of (In exampleReservation newYork) = (2025, 7, 31)
   \<and> Clock (In exampleReservation newYork) = (19, 0, 0)
   \<and> Date_of (In (Date 2025 7 1 13 0 0 utcLoc) newYork) = (2025, 7, 1)
   \<and> Clock (In (Date 2025 7 1 13 0 0 utcLoc) newYork) = (9, 0, 0)"
  by code_simp

section \<open>Properties of the protocol client\<close>



lemma isImpervaChallenge_iff:
  "isImpervaChallenge resp \<longleftrightarrow>
     (StatusCode resp \<in> {403, 500, 503} \<and> Header_Get (Header resp) ''X-Cdn'' = ''Imperva'')
     \<or> (StatusCode resp = 500 \<and> Header_Get (Header resp) ''Server'' = ''nginx'')"
  by (auto simp: isImpervaChallenge_def)

lemma client_Do_script:
  "script w = r # rs \<Longrightarrow> client_Do w req = (r, w\<lparr>script := rs, trace := trace w @ [Sent req]\<rparr>)"
  by (simp add: client_Do_def)

lemma loop_challenge_more:
  assumes "script w = Inr r # rs" "isImpervaChallenge r" "attempt < maxRetries" "0 < attempt"
    and "bodyBytes \<noteq> None \<longrightarrow> validMethod (Method orig) \<and> validURL env (URL orig)"
  shows "doRequestLoop env orig bodyBytes maxRetries attempt l req a w =
     doRequestLoop env orig bodyBytes maxRetries (attempt + 1) True (replay env orig bodyBytes req a)
       (extractCookiesFromResponse env a r)
       (w\<lparr>script := rs, trace := trace w @ [Slept 1, Sent (replay env orig bodyBytes req a)]\<rparr>)"
  using assms
  by (subst doRequestLoop.simps)
     (auto simp: client_Do_def sleep_def replay_def NewRequest_def prepare_def recreate_def Let_def
        split: option.splits)


lemma loop_first:
  assumes "script w = Inr r # rs"
  shows "doRequestLoop env orig bodyBytes maxRetries 0 l req a w =
     (if 0 \<le> maxRetries then
        (if isImpervaChallenge r then
           (if 0 < maxRetries
            then doRequestLoop env orig bodyBytes maxRetries 1 True req
                   (extractCookiesFromResponse env a r)
                   (w\<lparr>script := rs, trace := trace w @ [Sent req]\<rparr>)
            else (Inl ErrImperva, extractCookiesFromResponse env a r,
                  w\<lparr>script := rs, trace := trace w @ [Sent req]\<rparr>))
         else (Inr r, a, w\<lparr>script := rs, trace := trace w @ [Sent req]\<rparr>))
      else if l then (Inl ErrImperva, a, w) else (Inl ErrMaxRetries, a, w))"
  using assms
  by (subst doRequestLoop.simps) (simp add: client_Do_def prepare_def Let_def)

lemma loop_challenge_last:
  assumes "script w = Inr r # rs" "isImpervaChallenge r" "attempt = maxRetries" "0 < attempt"
    and "bodyBytes \<noteq> None \<longrightarrow> validMethod (Method orig) \<and> validURL env (URL orig)"
  shows "doRequestLoop env orig bodyBytes maxRetries attempt l req a w =
     (Inl ErrImperva, extractCookiesFromResponse env a r,
       w\<lparr>script := rs, trace := trace w @ [Slept 1, Sent (replay env orig bodyBytes req a)]\<rparr>)"
  using assms
  by (subst doRequestLoop.simps)
     (auto simp: client_Do_def sleep_def replay_def NewRequest_def prepare_def recreate_def Let_def
        split: option.splits)

lemma loop_pass:
  assumes "script w = Inr r # rs" "\<not> isImpervaChallenge r" "attempt \<le> maxRetries" "0 < attempt"
    and "bodyBytes \<noteq> None \<longrightarrow> validMethod (Method orig) \<and> validURL env (URL orig)"
  shows "doRequestLoop env orig bodyBytes maxRetries attempt l req a w =
     (Inr r, a,
       w\<lparr>script := rs, trace := trace w @ [Slept 1, Sent (replay env orig bodyBytes req a)]\<rparr>)"
  using assms
  by (subst doRequestLoop.simps)
     (auto simp: client_Do_def sleep_def replay_def NewRequest_def prepare_def recreate_def Let_def
        split: option.splits)


text \<open>
  Claim C4.  A response is a challenge exactly when its status is 403, 500 or 503 and its
  header \<^verbatim>\<open>X-Cdn\<close> is \<^verbatim>\<open>Imperva\<close>, or its status is 500 and its header \<^verbatim>\<open>Server\<close> is
  \<^verbatim>\<open>nginx\<close> (lemma \<open>isImpervaChallenge_iff\<close>).  For a request that can be rebuilt for a
  replay, \<open>doRequestWithRetry\<close> with a budget of 2: when the next three responses are
  challenges, it sends the request three times, sleeps one second before each replay,
  consumes exactly these three responses and returns \<open>ErrImperva\<close>; when at most two
  challenges are followed by a response that is not a challenge, it returns that response
  without error, having sent one request per response consumed.
\<close>

theorem doRequestWithRetry_budget:
  assumes rebuild: "bodyBytes \<noteq> None \<longrightarrow> validMethod (Method req) \<and> validURL env (URL req)"
  shows "(\<forall>r1 r2 r3 rest.
            script w = Inr r1 # Inr r2 # Inr r3 # rest
            \<and> isImpervaChallenge r1 \<and> isImpervaChallenge r2 \<and> isImpervaChallenge r3 \<longrightarrow>
            (\<exists>a' q2 q3. doRequestWithRetry env a w req bodyBytes 2 =
               (Inl ErrImperva, a',
                w\<lparr>script := rest,
                  trace := trace w @ [Sent req, Slept 1, Sent q2, Slept 1, Sent q3]\<rparr>)))
       \<and> (\<forall>cs r rest.
            script w = map Inr cs @ Inr r # rest \<and> length cs \<le> 2
            \<and> list_all isImpervaChallenge cs \<and> \<not> isImpervaChallenge r \<longrightarrow>
            (\<exists>a' evs. doRequestWithRetry env a w req bodyBytes 2 =
               (Inr r, a', w\<lparr>script := rest, trace := trace w @ evs\<rparr>)
               \<and> length (filter isSent evs) = length cs + 1))"
proof (intro conjI allI impI)
  fix r1 r2 r3 rest
  assume h: "script w = Inr r1 # Inr r2 # Inr r3 # rest
            \<and> isImpervaChallenge r1 \<and> isImpervaChallenge r2 \<and> isImpervaChallenge r3"
  define a1 where "a1 = extractCookiesFromResponse env a r1"
  define a2 where "a2 = extractCookiesFromResponse env a1 r2"
  define a3 where "a3 = extractCookiesFromResponse env a2 r3"
  define q2 where "q2 = replay env req bodyBytes req a1"
  define q3 where "q3 = replay env req bodyBytes q2 a2"
  have "doRequestWithRetry env a w req bodyBytes 2 =
      (Inl ErrImperva, a3,
       w\<lparr>script := rest, trace := trace w @ [Sent req, Slept 1, Sent q2, Slept 1, Sent q3]\<rparr>)"
    using h rebuild
    by (simp add: doRequestWithRetry_def loop_first loop_challenge_more loop_challenge_last
        a1_def a2_def a3_def q2_def q3_def)
  then show "\<exists>a' q2 q3. doRequestWithRetry env a w req bodyBytes 2 =
               (Inl ErrImperva, a',
                w\<lparr>script := rest,
                  trace := trace w @ [Sent req, Slept 1, Sent q2, Slept 1, Sent q3]\<rparr>)"
    by blast
next
  fix cs r rest
  assume h: "script w = map Inr cs @ Inr r # rest \<and> length cs \<le> 2
            \<and> list_all isImpervaChallenge cs \<and> \<not> isImpervaChallenge r"
  then consider "cs = []" | c1 where "cs = [c1]" | c1 c2 where "cs = [c1, c2]"
    by (cases cs rule: list.exhaust; simp)
       (metis One_nat_def Suc_1 le_Suc_eq le_zero_eq length_0_conv length_Suc_conv list.size(4) not_less_eq_eq)
  then show "\<exists>a' evs. doRequestWithRetry env a w req bodyBytes 2 =
               (Inr r, a', w\<lparr>script := rest, trace := trace w @ evs\<rparr>)
               \<and> length (filter isSent evs) = length cs + 1"
  proof cases
    case 1
    have "doRequestWithRetry env a w req bodyBytes 2 =
        (Inr r, a, w\<lparr>script := rest, trace := trace w @ [Sent req]\<rparr>)"
      using h 1 by (simp add: doRequestWithRetry_def loop_first)
    moreover have "length (filter isSent [Sent req]) = length cs + 1"
      using 1 by (simp add: isSent_def)
    ultimately show ?thesis by blast
  next
    case 2
    define a1 where "a1 = extractCookiesFromResponse env a c1"
    define q2 where "q2 = replay env req bodyBytes req a1"
    have "doRequestWithRetry env a w req bodyBytes 2 =
        (Inr r, a1, w\<lparr>script := rest, trace := trace w @ [Sent req, Slept 1, Sent q2]\<rparr>)"
      using h 2 rebuild
      by (simp add: doRequestWithRetry_def loop_first loop_pass a1_def q2_def)
    moreover have "length (filter isSent [Sent req, Slept 1, Sent q2]) = length cs + 1"
      using 2 by (simp add: isSent_def)
    ultimately show ?thesis by blast
  next
    case 3
    define a1 where "a1 = extractCookiesFromResponse env a c1"
    define a2 where "a2 = extractCookiesFromResponse env a1 c2"
    define q2 where "q2 = replay env req bodyBytes req a1"
    define q3 where "q3 = replay env req bodyBytes q2 a2"
    have "doRequestWithRetry env a w req bodyBytes 2 =
        (Inr r, a2,
         w\<lparr>script := rest, trace := trace w @ [Sent req, Slept 1, Sent q2, Slept 1, Sent q3]\<rparr>)"
      using h 3 rebuild
      by (simp add: doRequestWithRetry_def loop_first loop_challenge_more loop_pass
          a1_def a2_def q2_def q3_def)
    moreover have "length (filter isSent [Sent req, Slept 1, Sent q2, Slept 1, Sent q3]) = length cs + 1"
      using 3 by (simp add: isSent_def)
    ultimately show ?thesis by blast
  qed
qed

theorem doRequestWithRetry_budget_witness:
  "(ReqBody exampleRequest \<noteq> None
      \<and> validMethod (Method exampleRequest) \<and> validURL exampleEnv (URL exampleRequest))
   \<and> (script blockedWorld = Inr challenge503 # Inr challenge503 # Inr challenge503 # [Inr ok200]
        \<and> isImpervaChallenge challenge503 \<and> isImpervaChallenge challenge503
        \<and> isImpervaChallenge challenge503)
   \<and> (\<exists>a' q2 q3. doRequestWithRetry exampleEnv exampleAPI blockedWorld exampleRequest
                       (ReqBody exampleRequest) 2 =
          (Inl ErrImperva, a',
           blockedWorld\<lparr>script := [Inr ok200],
             trace := trace blockedWorld @ [Sent exampleRequest, Slept 1, Sent q2, Slept 1, Sent q3]\<rparr>))
   \<and> (script recoveringWorld = map Inr [challenge503] @ Inr ok200 # []
        \<and> length [challenge503] \<le> 2 \<and> list_all isImpervaChallenge [challenge503]
        \<and> \<not> isImpervaChallenge ok200)
   \<and> (\<exists>a' evs. doRequestWithRetry exampleEnv exampleAPI recoveringWorld exampleRequest
                     (ReqBody exampleRequest) 2 =
          (Inr ok200, a', recoveringWorld\<lparr>script := [], trace := trace recoveringWorld @ evs\<rparr>)
          \<and> length (filter isSent evs) = length [challenge503] + 1)"
proof -
  have h0: "ReqBody exampleRequest \<noteq> None
      \<and> validMethod (Method exampleRequest) \<and> validURL exampleEnv (URL exampleRequest)"
    by code_simp
  then have h: "ReqBody exampleRequest \<noteq> None \<longrightarrow>
      validMethod (Method exampleRequest) \<and> validURL exampleEnv (URL exampleRequest)"
    by blast
  have s1: "script blockedWorld = Inr challenge503 # Inr challenge503 # Inr challenge503 # [Inr ok200]
        \<and> isImpervaChallenge challenge503 \<and> isImpervaChallenge challenge503
        \<and> isImpervaChallenge challenge503"
    by code_simp
  have s2: "script recoveringWorld = map Inr [challenge503] @ Inr ok200 # []
        \<and> length [challenge503] \<le> 2 \<and> list_all isImpervaChallenge [challenge503]
        \<and> \<not> isImpervaChallenge ok200"
    by code_simp
  note t1 = doRequestWithRetry_budget [OF h, of blockedWorld exampleAPI]
  note t2 = doRequestWithRetry_budget [OF h, of recoveringWorld exampleAPI]
  show ?thesis
    using h0 s1 s2 conjunct1 [OF t1, rule_format, OF s1] conjunct2 [OF t2, rule_format, OF s2]
    by blast
qed

lemma recognized_iff: "isImpervaCookieName n \<longleftrightarrow> recognized n"
  by (auto simp: isImpervaCookieName_def recognized_def recognizedPrefixes_def)

lemma Split_nonempty: "Split s sep \<noteq> []"
  by (induction s) (auto split: list.splits)

lemma parseSetCookie_Some:
  "parseSetCookie pr v = Some c \<Longrightarrow> setCookieName v = Some (Name c) \<and> recognized (Name c)"
proof -
  have nm: "Name (foldl (applyAttribute pr) c0 attrs) = Name c0" for c0 attrs
    by (induction attrs arbitrary: c0)
       (auto simp: applyAttribute_def Let_def split: option.splits)
  assume a: "parseSetCookie pr v = Some c"
  obtain p0 attrs where sp: "Split v CHR '';'' = p0 # attrs"
    using Split_nonempty [of v "CHR '';''"] by (cases "Split v CHR '';''") auto
  obtain n x where nv: "SplitN2 p0 CHR ''='' = [n, x]"
    using a sp by (auto simp: parseSetCookie_def SplitN2_def split: if_splits)
  show ?thesis
    using a sp nv nm
    by (auto simp: parseSetCookie_def setCookieName_def Let_def recognized_iff split: if_splits)
qed

lemma parseSetCookie_None:
  "parseSetCookie pr v = None \<Longrightarrow> \<not> (\<exists>n. setCookieName v = Some n \<and> recognized n)"
proof -
  assume a: "parseSetCookie pr v = None"
  obtain p0 attrs where sp: "Split v CHR '';'' = p0 # attrs"
    using Split_nonempty [of v "CHR '';''"] by (cases "Split v CHR '';''") auto
  show ?thesis
    using a sp
    by (auto simp: parseSetCookie_def setCookieName_def Let_def recognized_iff SplitN2_def
        split: if_splits)
qed

lemma names_addOrUpdate: "set (map Name (addOrUpdate c jar)) = insert (Name c) (set (map Name jar))"
  by (induction jar) auto

lemma length_addOrUpdate: "length jar \<le> length (addOrUpdate c jar)"
  by (induction jar) auto

lemma take_addOrUpdate:
  "k \<le> length jar \<Longrightarrow> map Name (take k (addOrUpdate c jar)) = map Name (take k jar)"
proof (induction jar arbitrary: k)
  case Nil
  then show ?case by simp
next
  case (Cons x xs)
  then show ?case by (cases k) auto
qed

lemma names_addOrUpdate_image: "Name ` set (addOrUpdate c jar) = insert (Name c) (Name ` set jar)"
  using names_addOrUpdate [of c jar] by simp

lemma distinct_addOrUpdate:
  "distinct (map Name jar) \<Longrightarrow> distinct (map Name (addOrUpdate c jar))"
  by (induction jar) (auto simp: names_addOrUpdate_image)

lemma find_addOrUpdate:
  "find (\<lambda>x. Name x = n) (addOrUpdate c jar) =
     (if Name c = n then Some c else find (\<lambda>x. Name x = n) jar)"
  by (induction jar) auto


lemma guard_of_challenge:
  "isImpervaChallenge resp \<Longrightarrow>
     Header_Get (Header resp) ''X-Cdn'' = ''Imperva'' \<or> Header_Get (Header resp) ''Server'' = ''nginx''"
  by (auto simp: isImpervaChallenge_def split: if_splits)

lemma foldl_merge:
  "foldl (mergeSetCookie pr) jar vs = foldl (\<lambda>j c. addOrUpdate c j) jar (List.map_filter (parseSetCookie pr) vs)"
  by (induction vs arbitrary: jar) (auto simp: mergeSetCookie_def List.map_filter_simps split: option.splits)

lemma merged_names:
  "set (map Name (foldl (\<lambda>j c. addOrUpdate c j) jar cs)) = set (map Name jar) \<union> set (map Name cs)"
  by (induction cs arbitrary: jar) (auto simp: names_addOrUpdate_image)

lemma merged_length: "length jar \<le> length (foldl (\<lambda>j c. addOrUpdate c j) jar cs)"
proof (induction cs arbitrary: jar)
  case Nil
  then show ?case by simp
next
  case (Cons c cs)
  show ?case using Cons [of "addOrUpdate c jar"] length_addOrUpdate [of jar c] by simp
qed

lemma merged_take:
  "k \<le> length jar \<Longrightarrow>
     map Name (take k (foldl (\<lambda>j c. addOrUpdate c j) jar cs)) = map Name (take k jar)"
proof (induction cs arbitrary: jar)
  case Nil
  then show ?case by simp
next
  case (Cons c cs)
  have "k \<le> length (addOrUpdate c jar)" using Cons.prems length_addOrUpdate [of jar c] by linarith
  then show ?case using Cons.IH [of "addOrUpdate c jar"] take_addOrUpdate [OF Cons.prems] by simp
qed

lemma merged_distinct:
  "distinct (map Name jar) \<Longrightarrow> distinct (map Name (foldl (\<lambda>j c. addOrUpdate c j) jar cs))"
  by (induction cs arbitrary: jar) (auto simp: distinct_addOrUpdate)

lemma merged_find:
  "find (\<lambda>x. Name x = n) (foldl (\<lambda>j c. addOrUpdate c j) jar cs) =
     (if filter (\<lambda>c. Name c = n) cs = [] then find (\<lambda>x. Name x = n) jar
      else Some (last (filter (\<lambda>c. Name c = n) cs)))"
  by (induction cs arbitrary: jar) (auto simp: find_addOrUpdate)

lemma setCookies_names:
  "set (map Name (List.map_filter (parseSetCookie pr) vs)) =
     {n. \<exists>v \<in> set vs. setCookieName v = Some n \<and> recognized n}"
proof -
  have "n \<in> set (map Name (List.map_filter (parseSetCookie pr) vs)) \<longleftrightarrow>
        (\<exists>v \<in> set vs. setCookieName v = Some n \<and> recognized n)" for n
  proof
    assume "n \<in> set (map Name (List.map_filter (parseSetCookie pr) vs))"
    then obtain v c where "v \<in> set vs" "parseSetCookie pr v = Some c" "Name c = n"
      by (auto simp: List.map_filter_def)
    then show "\<exists>v \<in> set vs. setCookieName v = Some n \<and> recognized n"
      using parseSetCookie_Some by blast
  next
    assume "\<exists>v \<in> set vs. setCookieName v = Some n \<and> recognized n"
    then obtain v where v: "v \<in> set vs" "setCookieName v = Some n" "recognized n" by blast
    then obtain c where c: "parseSetCookie pr v = Some c"
      using parseSetCookie_None [of pr v] by (cases "parseSetCookie pr v") auto
    then have "Name c = n" using parseSetCookie_Some [OF c] v by simp
    then show "n \<in> set (map Name (List.map_filter (parseSetCookie pr) vs))"
      using v c by (force simp: List.map_filter_def)
  qed
  then show ?thesis by blast
qed

lemma Split_hd: "hd (Split s sep) = takeWhile (\<lambda>c. c \<noteq> sep) s"
proof (induction s)
  case Nil
  show ?case by simp
next
  case (Cons c cs)
  then show ?case using Split_nonempty [of cs sep] by (cases "Split cs sep") auto
qed

lemma parseSetCookie_value:
  assumes a: "parseSetCookie pr v = Some c"
  shows "Value c = setCookieValue v"
proof -
  have vl: "Value (foldl (applyAttribute pr) c0 attrs) = Value c0" for c0 attrs
    by (induction attrs arbitrary: c0)
       (auto simp: applyAttribute_def Let_def split: option.splits)
  obtain p0 attrs where sp: "Split v CHR '';'' = p0 # attrs"
    using Split_nonempty [of v "CHR '';''"] by (cases "Split v CHR '';''") auto
  have p0: "p0 = takeWhile (\<lambda>c. c \<noteq> CHR '';'') v"
    using Split_hd [of v "CHR '';''"] sp by simp
  show ?thesis
    using a sp vl
    by (auto simp: parseSetCookie_def setCookieValue_def Let_def SplitN2_def p0 [symmetric]
        split: if_splits)
qed

lemma filter_setCookies:
  "filter (\<lambda>c. Name c = n) (List.map_filter (parseSetCookie pr) vs)
     = List.map_filter (parseSetCookie pr)
         (filter (\<lambda>v. setCookieName v = Some n \<and> recognized n) vs)"
proof (induction vs)
  case Nil
  show ?case by (simp add: List.map_filter_simps)
next
  case (Cons v vs)
  show ?case
  proof (cases "parseSetCookie pr v")
    case None
    then show ?thesis
      using Cons parseSetCookie_None [OF None] by (auto simp: List.map_filter_simps)
  next
    case (Some c)
    then show ?thesis
      using Cons parseSetCookie_Some [OF Some] by (auto simp: List.map_filter_simps)
  qed
qed

lemma last_setCookies:
  assumes "\<forall>v \<in> set hits. setCookieName v = Some n \<and> recognized n" "hits \<noteq> []"
  shows "List.map_filter (parseSetCookie pr) hits \<noteq> []
     \<and> parseSetCookie pr (last hits) = Some (last (List.map_filter (parseSetCookie pr) hits))"
  using assms
proof (induction hits)
  case Nil
  then show ?case by simp
next
  case (Cons v vs)
  obtain c where c: "parseSetCookie pr v = Some c"
    using Cons.prems(1) parseSetCookie_None [of pr v] by (cases "parseSetCookie pr v") auto
  show ?case
  proof (cases "vs = []")
    case True
    then show ?thesis using c by (simp add: List.map_filter_simps)
  next
    case False
    have "\<forall>v \<in> set vs. setCookieName v = Some n \<and> recognized n"
      using Cons.prems(1) by simp
    then have ih: "List.map_filter (parseSetCookie pr) vs \<noteq> []"
      "parseSetCookie pr (last vs) = Some (last (List.map_filter (parseSetCookie pr) vs))"
      using Cons.IH False by blast+
    show ?thesis using False ih c by (simp add: List.map_filter_simps)
  qed
qed

lemma merged_cookie:
  fixes pr jar vs n
  defines "hits \<equiv> filter (\<lambda>v. setCookieName v = Some n \<and> recognized n) vs"
  shows "if hits = []
         then find (\<lambda>x. Name x = n) (foldl (mergeSetCookie pr) jar vs) = find (\<lambda>x. Name x = n) jar
         else (\<exists>c. find (\<lambda>x. Name x = n) (foldl (mergeSetCookie pr) jar vs) = Some c
                 \<and> parseSetCookie pr (last hits) = Some c
                 \<and> Name c = n \<and> Value c = setCookieValue (last hits))"
proof (cases "hits = []")
  case True
  then show ?thesis
    using merged_find [of n jar "List.map_filter (parseSetCookie pr) vs"]
    by (simp add: foldl_merge filter_setCookies hits_def [symmetric] List.map_filter_simps)
next
  case False
  have all: "\<forall>v \<in> set hits. setCookieName v = Some n \<and> recognized n"
    by (simp add: hits_def)
  note l = last_setCookies [OF all False, of pr]
  define c where "c = last (List.map_filter (parseSetCookie pr) hits)"
  have p: "parseSetCookie pr (last hits) = Some c" using l by (simp add: c_def)
  have f: "find (\<lambda>x. Name x = n) (foldl (mergeSetCookie pr) jar vs) = Some c"
    using merged_find [of n jar "List.map_filter (parseSetCookie pr) vs"] l
    by (simp add: foldl_merge filter_setCookies hits_def [symmetric] c_def)
  have "\<forall>v \<in> set hits. setCookieName v = Some n" by (simp add: hits_def)
  moreover have "last hits \<in> set hits" using False by simp
  ultimately have "setCookieName (last hits) = Some n" by blast
  then have nm: "Name c = n" using parseSetCookie_Some [OF p] by simp
  show ?thesis
    using False f p nm parseSetCookie_value [OF p] by simp
qed

text \<open>
  Claim C5.  When the client processes a challenge response, the names of the cookies
  of the jar afterwards are the names it had before together with the names of exactly
  those \<^verbatim>\<open>Set-Cookie\<close> values whose cookie name begins with one of the five recognized
  prefixes, so a cookie whose name matches no prefix is never added; the cookies the
  jar had keep their places (a merged cookie with the name of an existing one replaces it
  in place, and names that were distinct stay distinct); and for every name: when the
  name is recognized and the response has \<^verbatim>\<open>Set-Cookie\<close> values for it, the first cookie of
  that name in the jar is the cookie of the last of them, with that name and with the
  value that stands between the first \<open>=\<close> and the first \<open>;\<close> of it; otherwise the first
  cookie of that name is the one the jar had, if it had one.
\<close>

theorem extractCookies_merge:
  assumes ch: "isImpervaChallenge resp"
  shows "set (map Name (Cookies (extractCookiesFromResponse pr a resp))) =
           set (map Name (Cookies a))
           \<union> {n. \<exists>v \<in> set (Header_Values (Header resp) ''Set-Cookie'').
                     setCookieName v = Some n \<and> recognized n}
       \<and> map Name (take (length (Cookies a)) (Cookies (extractCookiesFromResponse pr a resp)))
           = map Name (Cookies a)
       \<and> (distinct (map Name (Cookies a)) \<longrightarrow>
            distinct (map Name (Cookies (extractCookiesFromResponse pr a resp))))
       \<and> (\<forall>n. if recognized n \<and> valuesFor n resp \<noteq> []
              then (\<exists>c. find (\<lambda>x. Name x = n) (Cookies (extractCookiesFromResponse pr a resp))
                           = Some c
                      \<and> Name c = n \<and> Value c = setCookieValue (last (valuesFor n resp))
                      \<and> parseSetCookie pr (last (valuesFor n resp)) = Some c)
              else find (\<lambda>x. Name x = n) (Cookies (extractCookiesFromResponse pr a resp))
                     = find (\<lambda>x. Name x = n) (Cookies a))"
proof -
  define vs where "vs = Header_Values (Header resp) ''Set-Cookie''"
  define cs where "cs = List.map_filter (parseSetCookie pr) vs"
  have jar0: "Cookies (extractCookiesFromResponse pr a resp) = foldl (mergeSetCookie pr) (Cookies a) vs"
    using guard_of_challenge [OF ch]
    by (auto simp: extractCookiesFromResponse_def vs_def)
  have jar: "Cookies (extractCookiesFromResponse pr a resp) =
      foldl (\<lambda>j c. addOrUpdate c j) (Cookies a) cs"
    by (simp add: jar0 foldl_merge cs_def)
  have hits: "filter (\<lambda>v. setCookieName v = Some n \<and> recognized n) vs
                = (if recognized n then valuesFor n resp else [])" for n
    by (simp add: valuesFor_def vs_def)
  have last: "if recognized n \<and> valuesFor n resp \<noteq> []
              then (\<exists>c. find (\<lambda>x. Name x = n) (Cookies (extractCookiesFromResponse pr a resp))
                           = Some c
                      \<and> Name c = n \<and> Value c = setCookieValue (last (valuesFor n resp))
                      \<and> parseSetCookie pr (last (valuesFor n resp)) = Some c)
              else find (\<lambda>x. Name x = n) (Cookies (extractCookiesFromResponse pr a resp))
                     = find (\<lambda>x. Name x = n) (Cookies a)" for n
    using merged_cookie [of n vs pr "Cookies a"] unfolding jar0 hits by (auto split: if_splits)
  have rest: "set (map Name (Cookies (extractCookiesFromResponse pr a resp))) =
           set (map Name (Cookies a))
           \<union> {n. \<exists>v \<in> set (Header_Values (Header resp) ''Set-Cookie'').
                     setCookieName v = Some n \<and> recognized n}
       \<and> map Name (take (length (Cookies a)) (Cookies (extractCookiesFromResponse pr a resp)))
           = map Name (Cookies a)
       \<and> (distinct (map Name (Cookies a)) \<longrightarrow>
            distinct (map Name (Cookies (extractCookiesFromResponse pr a resp))))"
    unfolding jar vs_def [symmetric]
    using merged_names [of "Cookies a" cs] merged_take [of "length (Cookies a)" "Cookies a" cs]
      merged_distinct [of "Cookies a" cs] setCookies_names [of pr vs]
    by (simp add: cs_def)
  show ?thesis
    using rest last by blast
qed

theorem extractCookies_merge_witness:
  "isImpervaChallenge mixedChallenge
   \<and> set (map Name (Cookies (extractCookiesFromResponse exampleEnv staleAPI mixedChallenge))) =
           set (map Name (Cookies staleAPI))
           \<union> {n. \<exists>v \<in> set (Header_Values (Header mixedChallenge) ''Set-Cookie'').
                     setCookieName v = Some n \<and> recognized n}
   \<and> map Name (take (length (Cookies staleAPI))
           (Cookies (extractCookiesFromResponse exampleEnv staleAPI mixedChallenge)))
           = map Name (Cookies staleAPI)
   \<and> distinct (map Name (Cookies staleAPI))
   \<and> distinct (map Name (Cookies (extractCookiesFromResponse exampleEnv staleAPI mixedChallenge)))
   \<and> recognized ''_incap_ses_123''
   \<and> valuesFor ''_incap_ses_123'' mixedChallenge = [''_incap_ses_123=abc; Path=/'']
   \<and> (\<exists>c. find (\<lambda>x. Name x = ''_incap_ses_123'')
              (Cookies (extractCookiesFromResponse exampleEnv staleAPI mixedChallenge)) = Some c
          \<and> Name c = ''_incap_ses_123'' \<and> Value c = ''abc'')
   \<and> valuesFor ''session'' mixedChallenge = []
   \<and> find (\<lambda>x. Name x = ''session'')
        (Cookies (extractCookiesFromResponse exampleEnv staleAPI mixedChallenge))
       = find (\<lambda>x. Name x = ''session'') (Cookies staleAPI)
   \<and> \<not> recognized ''tracking''
   \<and> find (\<lambda>x. Name x = ''tracking'')
        (Cookies (extractCookiesFromResponse exampleEnv staleAPI mixedChallenge)) = None
   \<and> map (\<lambda>c. (Name c, Value c))
        (Cookies (extractCookiesFromResponse exampleEnv staleAPI mixedChallenge))
       = [(''session'', ''s1''), (''_incap_ses_123'', ''abc''), (''nlbi_77'', ''q'')]
   \<and> isImpervaChallenge paddedChallenge
   \<and> map (\<lambda>c. (Name c, Value c))
        (Cookies (extractCookiesFromResponse exampleEnv staleAPI paddedChallenge))
       = [(''session'', ''s1''), (''_incap_ses_123'', ''old''), (''_incap_x'', ''v'')]"
proof -
  have h: "isImpervaChallenge mixedChallenge" by code_simp
  have d: "distinct (map Name (Cookies staleAPI))" by code_simp
  have r: "recognized ''_incap_ses_123''"
    by (simp add: recognized_def recognizedPrefixes_def HasPrefix_def)
  have v: "valuesFor ''_incap_ses_123'' mixedChallenge = [''_incap_ses_123=abc; Path=/'']"
    by code_simp
  have sv: "setCookieValue ''_incap_ses_123=abc; Path=/'' = ''abc''" by code_simp
  have s: "valuesFor ''session'' mixedChallenge = []" by code_simp
  have t: "\<not> recognized ''tracking''"
    by (simp add: recognized_def recognizedPrefixes_def HasPrefix_def)
  have o: "find (\<lambda>x. Name x = ''tracking'') (Cookies staleAPI) = None" by code_simp
  have e: "map (\<lambda>c. (Name c, Value c))
        (Cookies (extractCookiesFromResponse exampleEnv staleAPI mixedChallenge))
       = [(''session'', ''s1''), (''_incap_ses_123'', ''abc''), (''nlbi_77'', ''q'')]"
    by code_simp
  have p: "isImpervaChallenge paddedChallenge
   \<and> map (\<lambda>c. (Name c, Value c))
        (Cookies (extractCookiesFromResponse exampleEnv staleAPI paddedChallenge))
       = [(''session'', ''s1''), (''_incap_ses_123'', ''old''), (''_incap_x'', ''v'')]"
    by code_simp
  note m = extractCookies_merge [OF h, of exampleEnv staleAPI]
  have m4: "if recognized n \<and> valuesFor n mixedChallenge \<noteq> []
              then (\<exists>c. find (\<lambda>x. Name x = n)
                           (Cookies (extractCookiesFromResponse exampleEnv staleAPI mixedChallenge))
                           = Some c
                      \<and> Name c = n \<and> Value c = setCookieValue (last (valuesFor n mixedChallenge))
                      \<and> parseSetCookie exampleEnv (last (valuesFor n mixedChallenge)) = Some c)
              else find (\<lambda>x. Name x = n)
                     (Cookies (extractCookiesFromResponse exampleEnv staleAPI mixedChallenge))
                     = find (\<lambda>x. Name x = n) (Cookies staleAPI)" for n
    using m by blast
  have c1: "\<exists>c. find (\<lambda>x. Name x = ''_incap_ses_123'')
              (Cookies (extractCookiesFromResponse exampleEnv staleAPI mixedChallenge)) = Some c
          \<and> Name c = ''_incap_ses_123'' \<and> Value c = ''abc''"
    using m4 [of "''_incap_ses_123''"] r v sv by auto
  have c2: "find (\<lambda>x. Name x = ''session'')
        (Cookies (extractCookiesFromResponse exampleEnv staleAPI mixedChallenge))
       = find (\<lambda>x. Name x = ''session'') (Cookies staleAPI)"
    using m4 [of "''session''"] s by simp
  have c3: "find (\<lambda>x. Name x = ''tracking'')
        (Cookies (extractCookiesFromResponse exampleEnv staleAPI mixedChallenge)) = None"
    using m4 [of "''tracking''"] t o by simp
  show ?thesis
    using h d m r v c1 s c2 t c3 e p by blast
qed

section \<open>The day parameter of the find request\<close>

lemma prepare_extends:
  "prepare env orig b att req a w = Inr (req1, w1) \<Longrightarrow>
     \<exists>evs. trace w1 = trace w @ evs"
  by (auto simp: prepare_def sleep_def split: if_splits sum.splits)

lemma client_Do_trace: "trace (snd (client_Do w req)) = trace w @ [Sent req]"
  by (simp add: client_Do_def split: list.splits)

lemma loop_extends_aux:
  "nat (m + 1 - att) = n \<Longrightarrow>
     \<exists>evs. trace (snd (snd (doRequestLoop env orig b m att l req a w))) = trace w @ evs"
proof (induction n arbitrary: att l req a w)
  case 0
  then have "\<not> att \<le> m" by simp
  then show ?case by (subst doRequestLoop.simps) simp
next
  case (Suc n)
  then have le: "att \<le> m" by simp
  show ?case
  proof (cases "prepare env orig b att req a w")
    case (Inl e)
    then show ?thesis using le by (subst doRequestLoop.simps) simp
  next
    case (Inr p)
    obtain req1 w1 where p: "p = (req1, w1)" by (cases p)
    obtain evs1 where e1: "trace w1 = trace w @ evs1"
      using prepare_extends Inr p by blast
    obtain r w2 where d: "client_Do w1 req1 = (r, w2)" by (cases "client_Do w1 req1")
    have e2: "trace w2 = trace w @ evs1 @ [Sent req1]"
      using client_Do_trace [of w1 req1] d e1 by simp
    show ?thesis
    proof (cases r)
      case (Inl msg)
      then show ?thesis using le Inr p d e2 by (subst doRequestLoop.simps) simp
    next
      case (Inr resp)
      note r = this
      show ?thesis
      proof (cases "isImpervaChallenge resp \<and> att < m")
        case True
        have "nat (m + 1 - (att + 1)) = n" using Suc.prems by simp
        from Suc.IH [OF this, of True req1 "extractCookiesFromResponse env a resp" w2]
        obtain evs where "trace (snd (snd (doRequestLoop env orig b m (att + 1) True req1
            (extractCookiesFromResponse env a resp) w2))) = trace w2 @ evs"
          by blast
        then show ?thesis
          using le \<open>prepare env orig b att req a w = Inr p\<close> p d r e2 True
          by (subst doRequestLoop.simps) (simp add: Let_def)
      next
        case False
        then show ?thesis
          using le \<open>prepare env orig b att req a w = Inr p\<close> p d r e2
          by (subst doRequestLoop.simps) (auto simp: Let_def)
      qed
    qed
  qed
qed

lemma retry_extends:
  "\<exists>evs. trace (snd (snd (doRequestWithRetry env a w req b m))) = trace w @ evs"
  unfolding doRequestWithRetry_def using loop_extends_aux by blast

lemma retry_first:
  assumes "0 \<le> m"
  shows "\<exists>evs. trace (snd (snd (doRequestWithRetry env a w req b m))) = trace w @ Sent req # evs"
proof -
  obtain r w2 where d: "client_Do w req = (r, w2)" by (cases "client_Do w req")
  have e2: "trace w2 = trace w @ [Sent req]"
    using client_Do_trace [of w req] d by simp
  show ?thesis
  proof (cases r)
    case (Inl msg)
    then show ?thesis
      using assms d e2 unfolding doRequestWithRetry_def
      by (subst doRequestLoop.simps) (simp add: prepare_def)
  next
    case (Inr resp)
    show ?thesis
    proof (cases "isImpervaChallenge resp \<and> 0 < m")
      case True
      obtain evs where "trace (snd (snd (doRequestLoop env req b m (0 + 1) True req
            (extractCookiesFromResponse env a resp) w2))) = trace w2 @ evs"
        using loop_extends_aux by blast
      then show ?thesis
        using assms d e2 Inr True unfolding doRequestWithRetry_def
        by (subst doRequestLoop.simps) (simp add: prepare_def Let_def)
    next
      case False
      then show ?thesis
        using assms d e2 Inr unfolding doRequestWithRetry_def
        by (subst doRequestLoop.simps) (auto simp: prepare_def Let_def)
    qed
  qed
qed


lemma extends_refl: "extends w w"
  by (simp add: extends_def)

lemma extends_trans: "extends w w1 \<Longrightarrow> extends w1 w2 \<Longrightarrow> extends w w2"
  by (auto simp: extends_def)

lemma retry_extends': "doRequestWithRetry env a w req b m = (r, a1, w1) \<Longrightarrow> extends w w1"
  using retry_extends [of env a w req b m] by (simp add: extends_def)

lemma bookSlot_extends: "bookSlot env params date b a w = (r, a1, w1) \<Longrightarrow> extends w w1"
  unfolding bookSlot_def
  by (auto split: option.splits sum.splits prod.splits if_splits
      intro: extends_refl retry_extends' extends_trans [OF retry_extends' retry_extends'])

lemma timesLoop_extends:
  "timesLoop env params date slots hasPref tt ts a w = (r, a1, w1) \<Longrightarrow> extends w w1"
proof (induction ts arbitrary: a w)
  case Nil
  then show ?case by (simp add: extends_refl)
next
  case (Cons t ts)
  show ?case
  proof (cases "0 \<le> bestSlotIndex (scanSlots env hasPref tt t 0 slots initBest)")
    case False
    then show ?thesis using Cons by (simp add: Let_def)
  next
    case True
    obtain r' a' w' where b: "bookSlot env params date
        (scanSlots env hasPref tt t 0 slots initBest) a w = (r', a', w')"
      by (cases "bookSlot env params date (scanSlots env hasPref tt t 0 slots initBest) a w")
    have e: "extends w w'" using bookSlot_extends [OF b] .
    show ?thesis
    proof (cases r')
      case Continue
      then have "timesLoop env params date slots hasPref tt ts a' w' = (r, a1, w1)"
        using Cons.prems True b by (simp add: Let_def)
      then show ?thesis using Cons.IH e extends_trans by blast
    next
      case (Return x)
      then have "w1 = w'" using Cons.prems True b by (simp add: Let_def)
      then show ?thesis using e by simp
    qed
  qed
qed

lemma tablesLoop_extends:
  "tablesLoop env params date slots hasPref tts a w = (r, a1, w1) \<Longrightarrow> extends w w1"
proof (induction tts arbitrary: a w)
  case Nil
  then show ?case by (simp add: extends_refl)
next
  case (Cons tt tts)
  obtain r' a' w' where b: "timesLoop env params date slots hasPref tt (ReservationTimes params) a w
      = (r', a', w')"
    by (cases "timesLoop env params date slots hasPref tt (ReservationTimes params) a w")
  have e: "extends w w'" using timesLoop_extends [OF b] .
  show ?case
  proof (cases r')
    case Continue
    then have "tablesLoop env params date slots hasPref tts a' w' = (r, a1, w1)"
      using Cons.prems b by simp
    then show ?thesis using Cons.IH e extends_trans by blast
  next
    case (Return x)
    then have "w1 = w'" using Cons.prems b by simp
    then show ?thesis using e by simp
  qed
qed

lemma reserveSlots_extends:
  "reserveSlots env params date slots a w = (r, a1, w1) \<Longrightarrow> extends w w1"
  unfolding reserveSlots_def
  by (auto split: prod.splits step.splits dest: tablesLoop_extends)


lemma reserveSlots_extends': "extends w (snd (snd (reserveSlots env params date slots a w)))"
  using reserveSlots_extends [of env params date slots a w] by (metis prod.collapse)

lemma length_natDigits_1: "n < 10 \<Longrightarrow> length (natDigits n) = 1"
  by (subst natDigits.simps) simp

lemma length_natDigits_2: "10 \<le> n \<Longrightarrow> n < 100 \<Longrightarrow> length (natDigits n) = 2"
  by (subst natDigits.simps) (simp add: length_natDigits_1)

lemma length_Sprintf02d: "0 \<le> n \<Longrightarrow> n < 100 \<Longrightarrow> length (Sprintf02d n) = 2"
  by (cases "n < 10") (simp_all add: Sprintf02d_def Itoa_def length_natDigits_1 length_natDigits_2)

lemma findDate_venueLocalDay: "findDate l t = venueLocalDay l t"
  by (simp add: findDate_def venueLocalDay_def dateText_def Year_def Month_def Day_def Let_def
      split: prod.splits)

lemma validMethod_POST: "validMethod ''POST''"
  by code_simp

lemma findRequest_ok:
  assumes "validURL env ''https://api.resy.com/4/find''"
  shows "\<exists>req. findRequest env a params date = Inr req \<and> Method req = ''POST''
           \<and> URL req = ''https://api.resy.com/4/find'' \<and> dayParam req = Some date"
  using assms validMethod_POST
  by (simp add: findRequest_def NewRequest_def withDefaultUserAgent_def addCookiesToRequest_def
      Let_def dayParam_def findBody_def asString_def)

lemma findSlots_world:
  assumes "findRequest env a params date = Inr req"
  shows "snd (snd (findSlots env a w params date)) =
     snd (snd (doRequestWithRetry env a w req (Some (findBody params date)) 2))"
  using assms unfolding findSlots_def
  by (cases "doRequestWithRetry env a w req (Some (findBody params date)) 2")
     (simp split: sum.splits option.splits)

text \<open>
  Claim C9, as amended.  For every booking attempt with at least one requested time, the
  first request Reserve sends is the POST to the find endpoint, and its \<^verbatim>\<open>day\<close>
  parameter is the local calendar date of the first requested instant in the location
  Reserve uses for every venue, America/New\_York (UTC when the zone database lacks it):
  the decimal year, the month and the day of the month, each of the latter two zero-padded
  to two digits, separated by \<open>-\<close>.
\<close>

theorem Reserve_find_day:
  assumes times: "ReservationTimes params \<noteq> []"
    and url: "validURL env ''https://api.resy.com/4/find''"
  shows "\<exists>req evs. trace (snd (snd (Reserve env a w params))) = trace w @ Sent req # evs
           \<and> Method req = ''POST'' \<and> URL req = ''https://api.resy.com/4/find''
           \<and> dayParam req = Some (venueLocalDay (nycLocation env) (hd (ReservationTimes params)))
           \<and> length (Sprintf02d (Month (In (hd (ReservationTimes params)) (nycLocation env)))) = 2
           \<and> length (Sprintf02d (Day (In (hd (ReservationTimes params)) (nycLocation env)))) = 2"
proof -
  define a0 where "a0 = withStoredCookies env a params"
  define date where "date = findDate (nycLocation env) (hd (ReservationTimes params))"
  obtain req where req: "findRequest env a0 params date = Inr req" "Method req = ''POST''"
      "URL req = ''https://api.resy.com/4/find''" "dayParam req = Some date"
    using findRequest_ok [OF url] by blast
  obtain r a1 w1 where f: "findSlots env a0 w params date = (r, a1, w1)"
    by (cases "findSlots env a0 w params date")
  obtain evs1 where e1: "trace w1 = trace w @ Sent req # evs1"
    using findSlots_world [OF req(1), of w] retry_first [of 2 env a0 w req "Some (findBody params date)"] f
    by auto
  have "extends w1 (snd (snd (Reserve env a w params)))"
    using times f
    by (cases r) (simp_all add: Reserve_def Let_def a0_def [symmetric] date_def [symmetric]
        extends_refl reserveSlots_extends')
  then obtain evs2 where "trace (snd (snd (Reserve env a w params))) = trace w @ Sent req # (evs1 @ evs2)"
    using e1 by (auto simp: extends_def)
  moreover obtain y m dd where ymd: "Date_of (In (hd (ReservationTimes params)) (nycLocation env)) = (y, m, dd)"
    by (cases "Date_of (In (hd (ReservationTimes params)) (nycLocation env))")
  then have "1 \<le> m \<and> m \<le> 12 \<and> 1 \<le> dd \<and> dd \<le> 31"
    using civilFromDays_correct [of _ y m dd] by (simp add: Date_of_def)
  then have "length (Sprintf02d m) = 2" "length (Sprintf02d dd) = 2"
    by (simp_all add: length_Sprintf02d)
  ultimately show ?thesis
    using req by (auto simp: date_def findDate_venueLocalDay Month_def Day_def ymd)
qed

theorem Reserve_find_day_witness:
  "ReservationTimes westParams \<noteq> []
   \<and> validURL exampleEnv ''https://api.resy.com/4/find''
   \<and> (\<exists>req evs.
         trace (snd (snd (Reserve exampleEnv exampleAPI silentWorld westParams)))
           = trace silentWorld @ Sent req # evs
         \<and> Method req = ''POST'' \<and> URL req = ''https://api.resy.com/4/find''
         \<and> dayParam req
             = Some (venueLocalDay (nycLocation exampleEnv) (hd (ReservationTimes westParams)))
         \<and> length (Sprintf02d (Month (In (hd (ReservationTimes westParams))
                                       (nycLocation exampleEnv)))) = 2
         \<and> length (Sprintf02d (Day (In (hd (ReservationTimes westParams))
                                     (nycLocation exampleEnv)))) = 2)"
proof -
  have t: "ReservationTimes westParams \<noteq> []" by (simp add: westParams_def)
  have u: "validURL exampleEnv ''https://api.resy.com/4/find''" by code_simp
  show ?thesis
    using t u Reserve_find_day [OF t u, of exampleAPI silentWorld] by blast
qed

lemma nycLocation_known:
  "zones env ''America/New_York'' = Some l \<Longrightarrow> nycLocation env = l"
  by (simp add: nycLocation_def LoadLocation_def)

lemma nycLocation_unknown:
  "zones env ''America/New_York'' = None \<Longrightarrow> nycLocation env = utcLoc"
  by (simp add: nycLocation_def LoadLocation_def)

text \<open>
  Claim C9 as stated fails for a venue whose zone is not America/New\_York: for the venue
  of \<open>westWindow\<close> (America/Los\_Angeles) and the instant 2025-07-01T05:00Z the request
  carries the day 2025-07-01, while the local date of the instant in the zone of the venue
  is 2025-06-30.
\<close>

theorem Reserve_find_day_counterexample:
  "LoadLocation tzdata (Timezone westWindow) = Inr losAngeles
   \<and> rp_VenueID westParams = VenueID westWindow
   \<and> map eventDay (trace (snd (snd (Reserve exampleEnv exampleAPI silentWorld westParams))))
       = [Some ''2025-07-01'']
   \<and> venueLocalDay losAngeles (hd (ReservationTimes westParams)) = ''2025-06-30''"
  by code_simp

section \<open>Selection of a slot\<close>























section \<open>The booking policy scraped from a venue page\<close>

lemma daysLoop_fields:
  "VenueID (daysLoop rx h ps bw) = VenueID bw \<and> ReleaseHour (daysLoop rx h ps bw) = ReleaseHour bw
   \<and> ReleaseMinute (daysLoop rx h ps bw) = ReleaseMinute bw
   \<and> Timezone (daysLoop rx h ps bw) = Timezone bw
   \<and> ScrapedAt (daysLoop rx h ps bw) = ScrapedAt bw"
  by (induction ps) (auto simp: Let_def split: prod.splits)

lemma daysLoop_range:
  "DaysInAdvance (daysLoop rx h ps bw) = DaysInAdvance bw
   \<or> (0 < DaysInAdvance (daysLoop rx h ps bw) \<and> DaysInAdvance (daysLoop rx h ps bw) \<le> 365)"
  by (induction ps) (auto simp: Let_def split: prod.splits)

lemma daysLoop_found:
  assumes "list_ex (\<lambda>pattern. 2 \<le> length (rx pattern h) \<and> snd (Atoi (rx pattern h ! 1))
                \<and> 0 < fst (Atoi (rx pattern h ! 1)) \<and> fst (Atoi (rx pattern h ! 1)) \<le> 365) ps"
  shows "0 < DaysInAdvance (daysLoop rx h ps bw) \<and> DaysInAdvance (daysLoop rx h ps bw) \<le> 365"
  using assms by (induction ps) (auto simp: Let_def split: prod.splits)

lemma timeLoop_none:
  assumes "list_all (\<lambda>pattern. length (rx pattern h) < 2) ps"
  shows "timeLoop rx h ps bw = bw"
  using assms by (induction ps) (auto simp: Let_def)


text \<open>
  Claim C10. When the venue page states how many days in advance reservations open
  (some day pattern of \<open>parseHTMLContent\<close> matches with a number from 1 to 365) and no
  release-time pattern matches, \<open>parseHTMLContent\<close> returns a booking window whose
  release time is 9:00 and whose time zone is America/New_York; the days in advance are
  the scraped ones.  The run time computed from that window is therefore at 09:00 on the
  New York wall clock, on the local day that lies the scraped number of days before the
  reservation (whenever both wall-clock readings involved exist in that zone).
\<close>

theorem parseHTMLContent_default_release:
  assumes days: "givesDays rx low html" and notime: "givesNoTime rx low html"
  shows "\<exists>bw. parseHTMLContent rx low now venueID html = Inr bw
           \<and> ReleaseHour bw = 9 \<and> ReleaseMinute bw = 0 \<and> Timezone bw = ''America/New_York''
           \<and> 0 < DaysInAdvance bw \<and> DaysInAdvance bw \<le> 365 \<and> VenueID bw = venueID
           \<and> (\<forall>db l r.
                 LoadLocation db ''America/New_York'' = Inr l
                 \<and> wallExact l (abs_secs (In r l) - 86400 * DaysInAdvance bw)
                 \<and> wallExact l ((localDay l r - DaysInAdvance bw) * 86400 + 9 * 3600) \<longrightarrow>
                 (\<exists>t. CalculateRunTime db bw r = Inr t
                      \<and> Date_of (In t l) = civilFromDays (localDay l r - DaysInAdvance bw)
                      \<and> Clock (In t l) = (9, 0, 0)))"
proof -
  define bw0 where "bw0 = \<lparr>VenueID = venueID, DaysInAdvance = 0, ReleaseHour = 9, ReleaseMinute = 0,
                Timezone = ''America/New_York'', ScrapedAt = now\<rparr>"
  define bw where "bw = daysLoop rx (ToLower low html) daysPatterns bw0"
  have t: "timeLoop rx (ToLower low html) timePatterns bw = bw"
    using notime by (simp add: givesNoTime_def timeLoop_none)
  have d: "0 < DaysInAdvance bw" "DaysInAdvance bw \<le> 365"
    using days daysLoop_found unfolding givesDays_def bw_def by blast+
  have f: "VenueID bw = venueID" "ReleaseHour bw = 9" "ReleaseMinute bw = 0"
      "Timezone bw = ''America/New_York''"
    using daysLoop_fields [of rx "ToLower low html" daysPatterns bw0] by (simp_all add: bw_def bw0_def)
  have r: "parseHTMLContent rx low now venueID html = Inr bw"
    using d t by (simp add: parseHTMLContent_def Let_def bw_def [symmetric] bw0_def [symmetric])
  have run: "\<exists>t. CalculateRunTime db bw r = Inr t
                      \<and> Date_of (In t l) = civilFromDays (localDay l r - DaysInAdvance bw)
                      \<and> Clock (In t l) = (9, 0, 0)"
    if "LoadLocation db ''America/New_York'' = Inr l
                 \<and> wallExact l (abs_secs (In r l) - 86400 * DaysInAdvance bw)
                 \<and> wallExact l ((localDay l r - DaysInAdvance bw) * 86400 + 9 * 3600)"
    for db l r
    using CalculateRunTime_wall [of db bw l r] that f d by auto
  show ?thesis
    using r f d run by blast
qed

theorem parseHTMLContent_default_release_witness:
  "givesDays pageFind (\<lambda>s. s) ''Book up to 30 days in advance''
   \<and> givesNoTime pageFind (\<lambda>s. s) ''Book up to 30 days in advance''
   \<and> parseHTMLContent pageFind (\<lambda>s. s) 0 89607 ''Book up to 30 days in advance'' = Inr pageWindow
   \<and> ReleaseHour pageWindow = 9 \<and> ReleaseMinute pageWindow = 0
   \<and> LoadLocation tzdata ''America/New_York'' = Inr newYork
   \<and> wallExact newYork (abs_secs (In exampleReservation newYork) - 86400 * DaysInAdvance pageWindow)
   \<and> wallExact newYork ((localDay newYork exampleReservation - DaysInAdvance pageWindow) * 86400
         + 9 * 3600)
   \<and> (\<exists>t. CalculateRunTime tzdata pageWindow exampleReservation = Inr t
          \<and> Date_of (In t newYork)
              = civilFromDays (localDay newYork exampleReservation - DaysInAdvance pageWindow)
          \<and> Clock (In t newYork) = (9, 0, 0))"
proof -
  have d: "givesDays pageFind (\<lambda>s. s) ''Book up to 30 days in advance''" by code_simp
  have n: "givesNoTime pageFind (\<lambda>s. s) ''Book up to 30 days in advance''" by code_simp
  have p: "parseHTMLContent pageFind (\<lambda>s. s) 0 89607 ''Book up to 30 days in advance'' = Inr pageWindow"
    by code_simp
  have l: "LoadLocation tzdata ''America/New_York'' = Inr newYork" by code_simp
  have e1: "wallExact newYork
      (abs_secs (In exampleReservation newYork) - 86400 * DaysInAdvance pageWindow)"
    by code_simp
  have e2: "wallExact newYork
      ((localDay newYork exampleReservation - DaysInAdvance pageWindow) * 86400 + 9 * 3600)"
    by code_simp
  have f: "ReleaseHour pageWindow = 9" "ReleaseMinute pageWindow = 0"
    by (simp_all add: pageWindow_def)
  from parseHTMLContent_default_release [OF d n, of 0 89607]
  have "\<forall>db l r.
          LoadLocation db ''America/New_York'' = Inr l
          \<and> wallExact l (abs_secs (In r l) - 86400 * DaysInAdvance pageWindow)
          \<and> wallExact l ((localDay l r - DaysInAdvance pageWindow) * 86400 + 9 * 3600) \<longrightarrow>
          (\<exists>t. CalculateRunTime db pageWindow r = Inr t
               \<and> Date_of (In t l) = civilFromDays (localDay l r - DaysInAdvance pageWindow)
               \<and> Clock (In t l) = (9, 0, 0))"
    unfolding p by blast
  then have "\<exists>t. CalculateRunTime tzdata pageWindow exampleReservation = Inr t
          \<and> Date_of (In t newYork)
              = civilFromDays (localDay newYork exampleReservation - DaysInAdvance pageWindow)
          \<and> Clock (In t newYork) = (9, 0, 0)"
    using l e1 e2 by blast
  then show ?thesis using d n p l e1 e2 f by blast
qed

section \<open>Encryption of the stored credentials\<close>

lemma xorByte_twice: "xorByte (xorByte a b) b = a"
  by (cases a; cases b) auto

lemma code_table: "list_all (\<lambda>n. decodeChar (encodeChar n) = Some n \<and> encodeChar n \<noteq> padChar
     \<and> encodeChar n \<noteq> CHR 0x0D \<and> encodeChar n \<noteq> CHR 0x0A) [0..<64]"
  by code_simp

lemma decode_encodeChar:
  assumes "n < 64"
  shows "decodeChar (encodeChar n) = Some n" "encodeChar n \<noteq> padChar"
    "encodeChar n \<noteq> CHR 0x0D" "encodeChar n \<noteq> CHR 0x0A"
  using code_table assms unfolding list_all_iff by auto

lemma of_char_less: "(of_char c :: nat) < 256"
  using of_char_mod_256 [of c, where ?'a = nat, symmetric] 
  by (metis mod_less_divisor zero_less_numeral)

lemma div_mod_sum:
  fixes q r k :: nat
  assumes "r < k"
  shows "(q * k + r) div k = q" "(q * k + r) mod k = r"
  using assms by simp_all

lemma sextet_bounds:
  fixes x y z :: nat
  assumes "x < 256" "y < 256" "z < 256"
  shows "x div 4 < 64" "x mod 4 * 16 + y div 16 < 64" "y mod 16 * 4 + z div 64 < 64"
    "z mod 64 < 64" "y mod 16 * 4 < 64" "x mod 4 * 16 < 64"
proof -
  have x: "x mod 4 < 4" and y: "y mod 16 < 16" by simp_all
  have yd: "y div 16 < 16" and zd: "z div 64 < 4"
    using assms by (simp_all add: div_less_iff_less_mult)
  show "x div 4 < 64" using assms by (simp add: div_less_iff_less_mult)
  show "x mod 4 * 16 + y div 16 < 64" using x yd by linarith
  show "y mod 16 * 4 + z div 64 < 64" using y zd by linarith
  show "z mod 64 < 64" by simp
  show "y mod 16 * 4 < 64" using y by linarith
  show "x mod 4 * 16 < 64" using x by linarith
qed

lemma octets:
  fixes x y z :: nat
  assumes "x < 256" "y < 256" "z < 256"
  shows "x div 4 * 4 + (x mod 4 * 16 + y div 16) div 16 = x"
    "(x mod 4 * 16 + y div 16) mod 16 * 16 + (y mod 16 * 4 + z div 64) div 4 = y"
    "(y mod 16 * 4 + z div 64) mod 4 * 64 + z mod 64 = z"
    "x div 4 * 4 + (x mod 4 * 16) div 16 = x"
    "(x mod 4 * 16 + y div 16) mod 16 * 16 + (y mod 16 * 4) div 4 = y"
proof -
  have yd: "y div 16 < 16" and zd: "z div 64 < 4"
    using assms by (simp_all add: div_less_iff_less_mult)
  note a = div_mod_sum [OF yd, of "x mod 4"] div_mod_sum [OF zd, of "y mod 16"]
  show "x div 4 * 4 + (x mod 4 * 16 + y div 16) div 16 = x"
    unfolding a by simp
  show "(x mod 4 * 16 + y div 16) mod 16 * 16 + (y mod 16 * 4 + z div 64) div 4 = y"
    unfolding a by simp
  show "(y mod 16 * 4 + z div 64) mod 4 * 64 + z mod 64 = z"
    unfolding a by simp
  show "x div 4 * 4 + (x mod 4 * 16) div 16 = x"
    by simp
  show "(x mod 4 * 16 + y div 16) mod 16 * 16 + (y mod 16 * 4) div 4 = y"
    unfolding a by simp
qed

lemma decodeQuanta_EncodeToString: "decodeQuanta (EncodeToString src) = Some src"
proof (induction src rule: EncodeToString.induct)
  case (1 a b c rest)
  have b: "(of_char a :: nat) < 256" "(of_char b :: nat) < 256" "(of_char c :: nat) < 256"
    by (rule of_char_less)+
  show ?case
    using 1 sextet_bounds [OF b] octets [OF b]
    by (simp add: Let_def decode_encodeChar)
next
  case (2 a b)
  have b: "(of_char a :: nat) < 256" "(of_char b :: nat) < 256" "(0::nat) < 256"
    by (simp_all add: of_char_less)
  show ?case
    using sextet_bounds [OF b] octets [OF b]
    by (simp add: Let_def decode_encodeChar)
next
  case (3 a)
  have b: "(of_char a :: nat) < 256" "(0::nat) < 256" "(0::nat) < 256"
    by (simp_all add: of_char_less)
  show ?case
    using sextet_bounds [OF b] octets [OF b]
    by (simp add: Let_def decode_encodeChar)
next
  case 4
  show ?case by simp
qed

lemma EncodeToString_clean:
  "filter (\<lambda>c. c \<noteq> CHR 0x0D \<and> c \<noteq> CHR 0x0A) (EncodeToString src) = EncodeToString src"
proof (induction src rule: EncodeToString.induct)
  case (1 a b c rest)
  have b: "(of_char a :: nat) < 256" "(of_char b :: nat) < 256" "(of_char c :: nat) < 256"
    by (rule of_char_less)+
  show ?case
    using 1 sextet_bounds [OF b] by (simp add: Let_def decode_encodeChar)
next
  case (2 a b)
  have b: "(of_char a :: nat) < 256" "(of_char b :: nat) < 256" "(0::nat) < 256"
    by (simp_all add: of_char_less)
  show ?case
    using sextet_bounds [OF b] by (simp add: Let_def decode_encodeChar padChar_def)
next
  case (3 a)
  have b: "(of_char a :: nat) < 256" "(0::nat) < 256" "(0::nat) < 256"
    by (simp_all add: of_char_less)
  show ?case
    using sextet_bounds [OF b] by (simp add: Let_def decode_encodeChar padChar_def)
next
  case 4
  show ?case by simp
qed

lemma DecodeString_EncodeToString: "DecodeString (EncodeToString src) = Inr src"
  by (simp add: DecodeString_def EncodeToString_clean decodeQuanta_EncodeToString)

lemma length_xorKeyStream: "length (xorKeyStream P key nonce src) = length src"
  by (simp add: xorKeyStream_def)

lemma xorKeyStream_twice: "xorKeyStream P key nonce (xorKeyStream P key nonce src) = src"
  by (rule nth_equalityI) (simp_all add: xorKeyStream_def xorByte_twice)

lemma length_tagOf: "length (tagOf P key nonce body) = tagSize"
  by (simp add: tagOf_def)

lemma Open_Seal:
  assumes "Seal P key nonce plaintext = Inr sealed"
  shows "Open P key nonce sealed = Inr plaintext"
  using assms
  by (auto simp: Seal_def Open_def Let_def length_xorKeyStream length_tagOf xorKeyStream_twice
      split: if_splits)


lemma ReadFull_length:
  assumes "ReadFull reader n = Inr nonce"
  shows "length nonce = n"
  using assms by (auto simp: ReadFull_def split: sum.splits if_splits)

lemma NewCipher_32: "length key = 32 \<Longrightarrow> NewCipher key = Inr key"
  by (simp add: NewCipher_def)

lemma Seal_total:
  assumes "length nonce = NonceSize" "int (length plaintext) \<le> maxPlaintext"
  shows "Seal P key nonce plaintext
           = Inr (xorKeyStream P key nonce plaintext
                    @ tagOf P key nonce (xorKeyStream P key nonce plaintext))"
  using assms by (simp add: Seal_def Let_def)

lemma hasEncryptionPrefix_prefixed [simp]:
  "hasEncryptionPrefix (resyCredentialsEncryptionPrefix @ rest)"
  "TrimPrefix (resyCredentialsEncryptionPrefix @ rest) resyCredentialsEncryptionPrefix = rest"
  by (simp_all add: hasEncryptionPrefix_def HasPrefix_def TrimPrefix_def)

lemma decryptString_sealed:
  assumes key: "NewCipher key = Inr block" and nonce: "length nonce = NonceSize"
    and sealed: "Seal P block nonce plaintext = Inr ciphertext"
  shows "decryptString P (resyCredentialsEncryptionPrefix @ EncodeToString (nonce @ ciphertext)) key
           = Inr plaintext"
  using key nonce Open_Seal [OF sealed]
  by (simp add: decryptString_def DecodeString_EncodeToString)

text \<open>
  Claim C7. For every string \<open>s\<close> and every key of 32 bytes, \<open>encryptString\<close> returns the
  literal prefix \<open>v1:\<close> followed by the base64 text of the nonce and the ciphertext of the
  AEAD (the encrypted text with its tag of 16 bytes), and \<open>decryptString\<close> with the same key
  succeeds on that value and returns \<open>s\<close>.  The random source has to deliver the twelve
  bytes of the nonce, and \<open>s\<close> has to be within the length that one GCM message holds.
\<close>

theorem encryptString_decryptString:
  assumes key: "length key = 32"
    and reader: "ReadFull reader NonceSize = Inr nonce"
    and size: "int (length s) \<le> maxPlaintext"
  shows "\<exists>ciphertext.
           Seal P key nonce s = Inr ciphertext
           \<and> length nonce = 12 \<and> length ciphertext = length s + 16
           \<and> encryptString P reader s key = Inr (''v1:'' @ EncodeToString (nonce @ ciphertext))
           \<and> decryptString P (''v1:'' @ EncodeToString (nonce @ ciphertext)) key = Inr s"
proof -
  let ?c = "xorKeyStream P key nonce s @ tagOf P key nonce (xorKeyStream P key nonce s)"
  have n: "length nonce = NonceSize"
    using reader by (rule ReadFull_length)
  have sealed: "Seal P key nonce s = Inr ?c"
    using n size by (rule Seal_total)
  have enc: "encryptString P reader s key
               = Inr (resyCredentialsEncryptionPrefix @ EncodeToString (nonce @ ?c))"
    by (simp add: encryptString_def NewCipher_32 [OF key] reader sealed)
  have dec: "decryptString P (resyCredentialsEncryptionPrefix @ EncodeToString (nonce @ ?c)) key
               = Inr s"
    using NewCipher_32 [OF key] n sealed by (rule decryptString_sealed)
  have len: "length ?c = length s + 16"
    by (simp add: length_xorKeyStream length_tagOf tagSize_def)
  show ?thesis
    using sealed n enc dec len
    unfolding resyCredentialsEncryptionPrefix_def NonceSize_def by blast
qed

theorem encryptString_decryptString_witness:
  "length testKey = 32
   \<and> ReadFull testReader NonceSize = Inr ''nonce-of-12-''
   \<and> int (length ''auth_token_value'') \<le> maxPlaintext
   \<and> (\<exists>ciphertext.
           Seal toyCipher testKey ''nonce-of-12-'' ''auth_token_value'' = Inr ciphertext
           \<and> length ''nonce-of-12-'' = 12 \<and> length ciphertext = length ''auth_token_value'' + 16
           \<and> encryptString toyCipher testReader ''auth_token_value'' testKey
               = Inr (''v1:'' @ EncodeToString (''nonce-of-12-'' @ ciphertext))
           \<and> decryptString toyCipher (''v1:'' @ EncodeToString (''nonce-of-12-'' @ ciphertext)) testKey
               = Inr ''auth_token_value'')"
proof -
  have k: "length testKey = 32" by (simp add: testKey_def)
  have r: "ReadFull testReader NonceSize = Inr ''nonce-of-12-''"
    by (simp add: ReadFull_def testReader_def NonceSize_def)
  have s: "int (length ''auth_token_value'') \<le> maxPlaintext" by (simp add: maxPlaintext_def)
  show ?thesis
    using encryptString_decryptString [OF k r s, of toyCipher] k r s by blast
qed

lemma stored_value_example:
  "encryptString toyCipher testReader ''auth_token_value'' testKey
     = Inr ''v1:bm9uY2Utb2YtMTItUURGW2tBWVxdVz4UAggQA15eXFBRGFlRFQhTTw0LCwU=''"
  by code_simp

section \<open>The stored credentials\<close>

lemma encryptString_Inr:
  assumes "encryptString P reader s key = Inr x"
  shows "hasEncryptionPrefix x" "decryptString P x key = Inr s"
proof -
  from assms obtain block nonce ciphertext where
    k: "NewCipher key = Inr block" and r: "ReadFull reader NonceSize = Inr nonce"
    and c: "Seal P block nonce s = Inr ciphertext"
    and x: "x = resyCredentialsEncryptionPrefix @ EncodeToString (nonce @ ciphertext)"
    by (auto simp: encryptString_def split: sum.splits)
  show "hasEncryptionPrefix x" by (simp add: x)
  show "decryptString P x key = Inr s"
    unfolding x using k ReadFull_length [OF r] c by (rule decryptString_sealed)
qed

lemma clientSet_cases:
  "(\<exists>err. setFailure st = Some err \<and> clientSet st k val = (Some err, st))
   \<or> (setFailure st = None \<and> clientSet st k val = (None, st\<lparr>entries := (entries st)(k \<mapsto> val)\<rparr>))"
  by (cases "setFailure st") (simp_all add: clientSet_def)

lemma SaveResyCredentials_cases:
  "(\<exists>err. SaveResyCredentials v st creds = (Some err, st))
   \<or> (\<exists>a p. SaveResyCredentials v st creds
              = (None, st\<lparr>entries := (entries st)(ResyCredentialsKey (rc_ClerkUserID creds) \<mapsto>
                    jsonMarshal v (resyCredentialsRecord (rc_ClerkUserID creds) a p))\<rparr>)
          \<and> setFailure st = None
          \<and> hasEncryptionPrefix a \<and> hasEncryptionPrefix p
          \<and> decryptString (cipher v) a (configuredKey v) = Inr (rc_AuthToken creds)
          \<and> decryptString (cipher v) p (configuredKey v) = Inr (Itoa (rc_PaymentMethodID creds)))"
proof (cases "length (configuredKey v) = 0")
  case True
  then show ?thesis by (simp add: SaveResyCredentials_def)
next
  case k: False
  show ?thesis
  proof (cases "encryptString (cipher v) (readers v 0) (rc_AuthToken creds) (configuredKey v)")
    case (Inl err)
    then show ?thesis using k by (simp add: SaveResyCredentials_def)
  next
    case a: (Inr a)
    show ?thesis
    proof (cases "encryptString (cipher v) (readers v 1) (Itoa (rc_PaymentMethodID creds))
                    (configuredKey v)")
      case (Inl err)
      then show ?thesis using k a by (simp add: SaveResyCredentials_def)
    next
      case p: (Inr p)
      have s: "SaveResyCredentials v st creds
                 = clientSet st (ResyCredentialsKey (rc_ClerkUserID creds))
                     (jsonMarshal v (resyCredentialsRecord (rc_ClerkUserID creds) a p))"
        using k a p by (simp add: SaveResyCredentials_def)
      show ?thesis
        unfolding s
        using clientSet_cases [of st "ResyCredentialsKey (rc_ClerkUserID creds)"
            "jsonMarshal v (resyCredentialsRecord (rc_ClerkUserID creds) a p)"]
          encryptString_Inr [OF a] encryptString_Inr [OF p]
        by auto
    qed
  qed
qed

lemma encryptString_ok:
  assumes "length key = 32" "ReadFull reader NonceSize = Inr nonce"
    "int (length s) \<le> maxPlaintext"
  shows "\<exists>x. encryptString P reader s key = Inr x"
  using assms Seal_total [OF ReadFull_length [OF assms(2)] assms(3), of P key]
  by (simp add: encryptString_def NewCipher_32)

lemma SaveResyCredentials_ok:
  assumes key: "length (configuredKey v) = 32"
    and r0: "ReadFull (readers v 0) NonceSize = Inr n0"
    and r1: "ReadFull (readers v 1) NonceSize = Inr n1"
    and s0: "int (length (rc_AuthToken creds)) \<le> maxPlaintext"
    and s1: "int (length (Itoa (rc_PaymentMethodID creds))) \<le> maxPlaintext"
    and st: "setFailure st = None"
  shows "fst (SaveResyCredentials v st creds) = None"
proof -
  obtain x where x: "encryptString (cipher v) (readers v 0) (rc_AuthToken creds) (configuredKey v)
      = Inr x"
    using encryptString_ok [OF key r0 s0] by blast
  obtain y where y: "encryptString (cipher v) (readers v 1) (Itoa (rc_PaymentMethodID creds))
      (configuredKey v) = Inr y"
    using encryptString_ok [OF key r1 s1] by blast
  have k: "length (configuredKey v) \<noteq> 0" using key by simp
  show ?thesis
    unfolding SaveResyCredentials_def Let_def x y using k st
    by (simp add: clientSet_def)
qed

lemma GetResyCredentials_legacy:
  assumes key: "configuredKey v \<noteq> []"
    and stored: "clientGet st (ResyCredentialsKey clerkUserID) = Inr jsonData"
      "jsonUnmarshal v jsonData = Some (JObj raw)"
    and auth: "map_of raw ''auth_token'' = Some (JStr authTokenRaw)" "authTokenRaw \<noteq> []"
    and pay: "map_of raw ''payment_method_id'' = Some paymentRawValue"
      "coercePaymentMethodID paymentRawValue = Inr paymentRaw"
    and legacy: "\<not> hasEncryptionPrefix authTokenRaw \<or> \<not> hasEncryptionPrefix paymentRaw"
    and vals: "readStored v authTokenRaw = Inr authToken"
      "readStored v paymentRaw = Inr paymentToken"
    and number: "Atoi paymentToken = (paymentMethodID, True)"
  shows "GetResyCredentials v st clerkUserID
           = (Inr \<lparr>rc_ClerkUserID = resolveClerkID raw clerkUserID, rc_AuthToken = authToken,
                    rc_PaymentMethodID = paymentMethodID\<rparr>,
              reencrypt v st clerkUserID
                \<lparr>rc_ClerkUserID = resolveClerkID raw clerkUserID, rc_AuthToken = authToken,
                  rc_PaymentMethodID = paymentMethodID\<rparr>)"
  using assms
  by (simp add: GetResyCredentials_def unmarshalRecord_def asString_def Let_def)


text \<open>
  Claim C8, as amended.  When the credentials key is configured and \<open>GetResyCredentials\<close>
  reads a stored record that decodes to an object whose \<open>auth_token\<close> is a non-empty string
  and whose \<open>payment_method_id\<close> is a non-empty string or a number, of which at least one
  lacks the prefix \<open>v1:\<close>, any value with the prefix decrypting under the key, and the
  payment value reading as a decimal number of 64 bits: the read completes without error
  and returns the stored values (a value without the prefix as it is stored), and
  \<open>SaveResyCredentials\<close> is run on what is returned.  Either it succeeds, and then the
  record under the key of the returned user holds two texts with the prefix \<open>v1:\<close> that
  decrypt to the token and to the payment number (this needs the write to the store not
  to fail); or it fails, and then the store is as before, the failure is only logged, and
  the read still returns the credentials.
\<close>

theorem GetResyCredentials_migration:
  assumes key: "configuredKey v \<noteq> []"
    and stored: "clientGet st (ResyCredentialsKey clerkUserID) = Inr jsonData"
      "jsonUnmarshal v jsonData = Some (JObj raw)"
    and auth: "map_of raw ''auth_token'' = Some (JStr authTokenRaw)" "authTokenRaw \<noteq> []"
    and pay: "map_of raw ''payment_method_id'' = Some paymentRawValue"
      "coercePaymentMethodID paymentRawValue = Inr paymentRaw"
    and legacy: "\<not> hasEncryptionPrefix authTokenRaw \<or> \<not> hasEncryptionPrefix paymentRaw"
    and vals: "readStored v authTokenRaw = Inr authToken"
      "readStored v paymentRaw = Inr paymentToken"
    and number: "Atoi paymentToken = (paymentMethodID, True)"
  shows "\<exists>creds st'.
           GetResyCredentials v st clerkUserID = (Inr creds, st')
           \<and> creds = \<lparr>rc_ClerkUserID = resolveClerkID raw clerkUserID, rc_AuthToken = authToken,
                        rc_PaymentMethodID = paymentMethodID\<rparr>
           \<and> (hasEncryptionPrefix authTokenRaw \<or> authToken = authTokenRaw)
           \<and> (hasEncryptionPrefix paymentRaw \<or> paymentToken = paymentRaw)
           \<and> ((\<exists>a p. SaveResyCredentials v st creds = (None, st')
                    \<and> setFailure st = None
                    \<and> st' = st\<lparr>entries := (entries st)(ResyCredentialsKey (rc_ClerkUserID creds) \<mapsto>
                               jsonMarshal v (resyCredentialsRecord (rc_ClerkUserID creds) a p))\<rparr>
                    \<and> hasEncryptionPrefix a \<and> hasEncryptionPrefix p
                    \<and> decryptString (cipher v) a (configuredKey v) = Inr authToken
                    \<and> decryptString (cipher v) p (configuredKey v) = Inr (Itoa paymentMethodID))
                \<or> (\<exists>err. SaveResyCredentials v st creds = (Some err, st)
                      \<and> st' = st\<lparr>logged := logged st @ [ReencryptFailed clerkUserID err]\<rparr>))"
proof -
  define creds where "creds = \<lparr>rc_ClerkUserID = resolveClerkID raw clerkUserID,
    rc_AuthToken = authToken, rc_PaymentMethodID = paymentMethodID\<rparr>"
  have f: "rc_AuthToken creds = authToken" "rc_PaymentMethodID creds = paymentMethodID"
    by (simp_all add: creds_def)
  have g: "GetResyCredentials v st clerkUserID = (Inr creds, reencrypt v st clerkUserID creds)"
    unfolding creds_def using assms by (rule GetResyCredentials_legacy)
  have a: "hasEncryptionPrefix authTokenRaw \<or> authToken = authTokenRaw"
    using vals(1) by (auto simp: readStored_def split: if_splits)
  have p: "hasEncryptionPrefix paymentRaw \<or> paymentToken = paymentRaw"
    using vals(2) by (auto simp: readStored_def split: if_splits)
  from SaveResyCredentials_cases [of v st creds]
  show ?thesis
  proof
    assume "\<exists>err. SaveResyCredentials v st creds = (Some err, st)"
    then obtain err where e: "SaveResyCredentials v st creds = (Some err, st)" ..
    have "reencrypt v st clerkUserID creds
            = st\<lparr>logged := logged st @ [ReencryptFailed clerkUserID err]\<rparr>"
      by (simp add: reencrypt_def e)
    then show ?thesis
      using g a p e creds_def by auto
  next
    assume "\<exists>a p. SaveResyCredentials v st creds
              = (None, st\<lparr>entries := (entries st)(ResyCredentialsKey (rc_ClerkUserID creds) \<mapsto>
                    jsonMarshal v (resyCredentialsRecord (rc_ClerkUserID creds) a p))\<rparr>)
          \<and> setFailure st = None
          \<and> hasEncryptionPrefix a \<and> hasEncryptionPrefix p
          \<and> decryptString (cipher v) a (configuredKey v) = Inr (rc_AuthToken creds)
          \<and> decryptString (cipher v) p (configuredKey v) = Inr (Itoa (rc_PaymentMethodID creds))"
    then obtain x y where
      s: "SaveResyCredentials v st creds
              = (None, st\<lparr>entries := (entries st)(ResyCredentialsKey (rc_ClerkUserID creds) \<mapsto>
                    jsonMarshal v (resyCredentialsRecord (rc_ClerkUserID creds) x y))\<rparr>)"
      and r: "setFailure st = None" "hasEncryptionPrefix x" "hasEncryptionPrefix y"
        "decryptString (cipher v) x (configuredKey v) = Inr authToken"
        "decryptString (cipher v) y (configuredKey v) = Inr (Itoa paymentMethodID)"
      unfolding f by blast
    have "reencrypt v st clerkUserID creds
            = st\<lparr>entries := (entries st)(ResyCredentialsKey (rc_ClerkUserID creds) \<mapsto>
                    jsonMarshal v (resyCredentialsRecord (rc_ClerkUserID creds) x y))\<rparr>"
      by (simp add: reencrypt_def s)
    then have "\<exists>a p. SaveResyCredentials v st creds = (None, reencrypt v st clerkUserID creds)
                    \<and> setFailure st = None
                    \<and> reencrypt v st clerkUserID creds
                        = st\<lparr>entries := (entries st)(ResyCredentialsKey (rc_ClerkUserID creds) \<mapsto>
                               jsonMarshal v (resyCredentialsRecord (rc_ClerkUserID creds) a p))\<rparr>
                    \<and> hasEncryptionPrefix a \<and> hasEncryptionPrefix p
                    \<and> decryptString (cipher v) a (configuredKey v) = Inr authToken
                    \<and> decryptString (cipher v) p (configuredKey v) = Inr (Itoa paymentMethodID)"
      using s r by metis
    then show ?thesis
      using g a p creds_def by blast
  qed
qed


theorem GetResyCredentials_migration_witness:
  "configuredKey exampleVault \<noteq> []
   \<and> clientGet legacyStore (ResyCredentialsKey ''user_456'') = Inr legacyDocument
   \<and> clientGet readOnlyStore (ResyCredentialsKey ''user_456'') = Inr legacyDocument
   \<and> jsonUnmarshal exampleVault legacyDocument = Some (JObj legacyFields)
   \<and> map_of legacyFields ''auth_token'' = Some (JStr ''plain_token'') \<and> ''plain_token'' \<noteq> []
   \<and> map_of legacyFields ''payment_method_id'' = Some (JNum 98765)
   \<and> coercePaymentMethodID (JNum 98765) = Inr ''98765''
   \<and> \<not> hasEncryptionPrefix ''plain_token''
   \<and> readStored exampleVault ''plain_token'' = Inr ''plain_token''
   \<and> readStored exampleVault ''98765'' = Inr ''98765''
   \<and> Atoi ''98765'' = (98765, True)
   \<and> resolveClerkID legacyFields ''user_456'' = ''user_456''
   \<and> (\<exists>a p. GetResyCredentials exampleVault legacyStore ''user_456''
             = (Inr legacyCredentials,
                legacyStore\<lparr>entries := (entries legacyStore)(ResyCredentialsKey ''user_456'' \<mapsto>
                   jsonMarshal exampleVault (resyCredentialsRecord ''user_456'' a p))\<rparr>)
          \<and> hasEncryptionPrefix a \<and> hasEncryptionPrefix p
          \<and> decryptString toyCipher a testKey = Inr ''plain_token''
          \<and> decryptString toyCipher p testKey = Inr ''98765'')
   \<and> (\<exists>err. GetResyCredentials exampleVault readOnlyStore ''user_456''
             = (Inr legacyCredentials,
                readOnlyStore\<lparr>logged := logged readOnlyStore @ [ReencryptFailed ''user_456'' err]\<rparr>))"
proof -
  have k: "configuredKey exampleVault \<noteq> []" by (simp add: exampleVault_def testKey_def)
  have f1: "setFailure legacyStore = None" by (simp add: legacyStore_def storeOf_def)
  have g1: "clientGet legacyStore (ResyCredentialsKey ''user_456'') = Inr legacyDocument"
    by (simp add: clientGet_def legacyStore_def storeOf_def)
  have g2: "clientGet readOnlyStore (ResyCredentialsKey ''user_456'') = Inr legacyDocument"
    by (simp add: clientGet_def readOnlyStore_def legacyStore_def storeOf_def)
  have u: "jsonUnmarshal exampleVault legacyDocument = Some (JObj legacyFields)"
    by code_simp
  have a: "map_of legacyFields ''auth_token'' = Some (JStr ''plain_token'')"
    and a': "''plain_token'' \<noteq> []"
    and p: "map_of legacyFields ''payment_method_id'' = Some (JNum 98765)"
    by (simp_all add: legacyFields_def)
  have it: "Itoa 98765 = ''98765''"
    apply (simp add: Itoa_def natDigits.simps)
    apply code_simp
    done
  have c: "coercePaymentMethodID (JNum 98765) = Inr ''98765''"
    by (simp add: coercePaymentMethodID_def it)
  have l: "\<not> hasEncryptionPrefix ''plain_token''" by code_simp
  have r1: "readStored exampleVault ''plain_token'' = Inr ''plain_token''" by code_simp
  have r2: "readStored exampleVault ''98765'' = Inr ''98765''" by code_simp
  have n: "Atoi ''98765'' = (98765, True)" by code_simp
  have i: "resolveClerkID legacyFields ''user_456'' = ''user_456''" by code_simp
  have cr: "\<lparr>rc_ClerkUserID = ''user_456'', rc_AuthToken = ''plain_token'',
             rc_PaymentMethodID = 98765\<rparr> = legacyCredentials"
    by (simp add: legacyCredentials_def)
  have f2: "setFailure readOnlyStore \<noteq> None" by (simp add: readOnlyStore_def)
  have v: "cipher exampleVault = toyCipher" "configuredKey exampleVault = testKey"
    by (simp_all add: exampleVault_def)
  have rd: "ReadFull (readers exampleVault 0) NonceSize = Inr ''nonce-of-12-''"
    "ReadFull (readers exampleVault 1) NonceSize = Inr ''nonce-of-12-''"
    by (simp_all add: exampleVault_def ReadFull_def testReader_def NonceSize_def)
  have "fst (SaveResyCredentials exampleVault legacyStore legacyCredentials) = None"
    by (rule SaveResyCredentials_ok [OF _ rd])
       (simp_all add: exampleVault_def testKey_def legacyCredentials_def it maxPlaintext_def f1)
  then have s1: "\<forall>err. SaveResyCredentials exampleVault legacyStore legacyCredentials
              \<noteq> (Some err, legacyStore)"
    by auto
  have w1: "\<exists>a p. GetResyCredentials exampleVault legacyStore ''user_456''
             = (Inr legacyCredentials,
                legacyStore\<lparr>entries := (entries legacyStore)(ResyCredentialsKey ''user_456'' \<mapsto>
                   jsonMarshal exampleVault (resyCredentialsRecord ''user_456'' a p))\<rparr>)
          \<and> hasEncryptionPrefix a \<and> hasEncryptionPrefix p
          \<and> decryptString toyCipher a testKey = Inr ''plain_token''
          \<and> decryptString toyCipher p testKey = Inr ''98765''"
    using GetResyCredentials_migration [OF k g1 u a a' p c disjI1 [OF l] r1 r2 n] s1
    unfolding i cr v by (auto simp: legacyCredentials_def it)
  have w2: "\<exists>err. GetResyCredentials exampleVault readOnlyStore ''user_456''
             = (Inr legacyCredentials,
                readOnlyStore\<lparr>logged := logged readOnlyStore @ [ReencryptFailed ''user_456'' err]\<rparr>)"
    using GetResyCredentials_migration [OF k g2 u a a' p c disjI1 [OF l] r1 r2 n] f2
    unfolding i cr v by auto
  show ?thesis
    using k g1 g2 u a a' p c l r1 r2 n i w1 w2 by blast
qed

text \<open>
  Claim C8 as stated fails.  The record of the fifth scenario of the specification, an
  object with the plain \<open>auth_token\<close> alone, is read with an error, as it has no
  \<open>payment_method_id\<close>, and it is not rewritten.  And without a configured key the read of
  a record of plain values fails at once.
\<close>

theorem GetResyCredentials_legacy_counterexample:
  "clientGet (storeOf ''user_1'' tokenOnlyDocument) (ResyCredentialsKey ''user_1'')
     = Inr tokenOnlyDocument
   \<and> jsonUnmarshal exampleVault tokenOnlyDocument = Some (JObj [(''auth_token'', JStr ''plaintext'')])
   \<and> \<not> hasEncryptionPrefix ''plaintext''
   \<and> length (configuredKey exampleVault) = 32
   \<and> fst (GetResyCredentials exampleVault (storeOf ''user_1'' tokenOnlyDocument) ''user_1'')
       = Inl (ErrOther ''payment_method_id missing'')
   \<and> entries (snd (GetResyCredentials exampleVault (storeOf ''user_1'' tokenOnlyDocument) ''user_1''))
         (ResyCredentialsKey ''user_1'')
       = Some tokenOnlyDocument
   \<and> fst (GetResyCredentials (exampleVault\<lparr>configuredKey := []\<rparr>) legacyStore ''user_456'')
       = Inl errResyCredentialsKeyMissing"
  by code_simp

section \<open>The scheduler: one attempt for each reservation\<close>










end
